(* ===== verification/Prelude.thy ===== *)
theory Prelude
  imports Main "HOL-Library.Word" "HOL-Library.Sublist" "HOL-Library.Multiset"
    "HOL-Library.List_Lexorder" "HOL-Library.Product_Lexorder" "HOL-Library.Char_ord"
begin

text \<open>
  Shared vocabulary of the development: the byte-string operations of the Rust standard
  library that the gateway uses (split, trim, strip-prefix, number parsing and printing,
  UTF-8 decoding), result values, and the generic lemmas and hint collections that the
  component theories build on. A Rust string or byte slice is a \<open>string\<close>, that is a list
  of 8-bit characters, so lengths are byte lengths as in the source.
\<close>

named_theorems headers_simp \<open>evaluation of header-map operations\<close>
named_theorems stage_simp \<open>unfolding of response post-processing stages\<close>

type_synonym anyhow_error = string
type_synonym 'a res = "anyhow_error + 'a"
type_synonym u64 = "64 word"

fun is_ok :: "'e + 'a \<Rightarrow> bool" where
  "is_ok (Inl _) = False"
| "is_ok (Inr _) = True"

fun res_bind :: "'e + 'a \<Rightarrow> ('a \<Rightarrow> 'e + 'b) \<Rightarrow> 'e + 'b" where
  "res_bind (Inl e) f = Inl e"
| "res_bind (Inr a) f = f a"

lemma res_bind_cong [fundef_cong]:
  assumes "m1 = m2" and "\<And>y. m2 = Inr y \<Longrightarrow> f1 y = f2 y"
  shows "res_bind m1 f1 = res_bind m2 f2"
  using assms by (cases m2) auto

lemma res_bind_Inr_iff: "res_bind m f = Inr b \<longleftrightarrow> (\<exists>a. m = Inr a \<and> f a = Inr b)"
  by (cases m) auto

lemma res_bindE:
  assumes "res_bind m f = Inr b"
  obtains a where "m = Inr a" "f a = Inr b"
  using assms by (auto simp: res_bind_Inr_iff)

lemma res_bind_Inl_iff: "res_bind m f = Inl e \<longleftrightarrow> m = Inl e \<or> (\<exists>a. m = Inr a \<and> f a = Inl e)"
  by (cases m) auto

text \<open>The fallible map over a list, stopping at the first error (\<open>collect::<Result<Vec>>\<close>).\<close>

fun collect_res :: "('a \<Rightarrow> 'e + 'b) \<Rightarrow> 'a list \<Rightarrow> 'e + 'b list" where
  "collect_res f [] = Inr []"
| "collect_res f (x # xs) = res_bind (f x) (\<lambda>y. res_bind (collect_res f xs) (\<lambda>ys. Inr (y # ys)))"

lemma collect_res_length: "collect_res f xs = Inr ys \<Longrightarrow> length ys = length xs"
  by (induction xs arbitrary: ys) (auto simp: res_bind_Inr_iff)

lemma collect_res_nth:
  "collect_res f xs = Inr ys \<Longrightarrow> i < length xs \<Longrightarrow> f (xs ! i) = Inr (ys ! i)"
proof (induction xs arbitrary: ys i)
  case (Cons x xs)
  then show ?case by (cases i) (auto simp: res_bind_Inr_iff)
qed simp

lemma collect_res_set:
  "collect_res f xs = Inr ys \<Longrightarrow> y \<in> set ys \<Longrightarrow> \<exists>x \<in> set xs. f x = Inr y"
  by (induction xs arbitrary: ys) (auto simp: res_bind_Inr_iff)

section \<open>Splitting, joining and searching\<close>

text \<open>\<open>str::split(c)\<close>: always at least one part.\<close>

fun split_on :: "char \<Rightarrow> string \<Rightarrow> string list" where
  "split_on c [] = [[]]"
| "split_on c (x # xs) =
     (if x = c then [] # split_on c xs
      else (case split_on c xs of [] \<Rightarrow> [[x]] | p # ps \<Rightarrow> (x # p) # ps))"

lemma split_on_not_Nil [simp]: "split_on c s \<noteq> []"
  by (induction s) (auto split: list.splits)

lemma split_on_no_sep: "p \<in> set (split_on c s) \<Longrightarrow> c \<notin> set p"
  by (induction s arbitrary: p) (auto split: list.splits if_splits)

lemma split_on_chars: "p \<in> set (split_on c s) \<Longrightarrow> set p \<subseteq> set s"
proof (induction s arbitrary: p)
  case (Cons x s)
  then show ?case by (cases "split_on c s") (fastforce split: if_splits)+
qed simp

fun join :: "string \<Rightarrow> string list \<Rightarrow> string" where
  "join sep [] = []"
| "join sep [p] = p"
| "join sep (p # q # ps) = p @ sep @ join sep (q # ps)"

lemma join_split_on: "join [c] (split_on c s) = s"
proof (induction s)
  case (Cons x s)
  then show ?case by (cases "split_on c s" rule: list.exhaust; cases "tl (split_on c s)") auto
qed simp

lemma split_on_join:
  "ps \<noteq> [] \<Longrightarrow> \<forall>p \<in> set ps. c \<notin> set p \<Longrightarrow> split_on c (join [c] ps) = ps"
proof (induction "[c]" ps rule: join.induct)
  case (2 p)
  then show ?case by (induction p) auto
next
  case (3 p q ps)
  have "split_on c (p @ c # r) = p # split_on c r" if "c \<notin> set p" for r
    using that by (induction p) auto
  with 3 show ?case by simp
qed simp

lemma split_on_single: "c \<notin> set s \<Longrightarrow> split_on c s = [s]"
  by (induction s) auto

text \<open>\<open>str::split_once(c)\<close> and \<open>str::rsplit_once(c)\<close>.\<close>

fun split_once :: "char \<Rightarrow> string \<Rightarrow> (string \<times> string) option" where
  "split_once c [] = None"
| "split_once c (x # xs) =
     (if x = c then Some ([], xs)
      else map_option (\<lambda>(a, b). (x # a, b)) (split_once c xs))"

definition rsplit_once :: "char \<Rightarrow> string \<Rightarrow> (string \<times> string) option" where
  "rsplit_once c s = map_option (\<lambda>(a, b). (rev b, rev a)) (split_once c (rev s))"

lemma split_once_Some: "split_once c s = Some (a, b) \<longleftrightarrow> s = a @ c # b \<and> c \<notin> set a"
proof (induction s arbitrary: a)
  case (Cons x s)
  then show ?case by (cases a) (auto split: if_splits)
qed simp

lemma split_once_None: "split_once c s = None \<longleftrightarrow> c \<notin> set s"
  by (induction s) auto

lemma rsplit_once_Some: "rsplit_once c s = Some (a, b) \<longleftrightarrow> s = a @ c # b \<and> c \<notin> set b"
proof -
  have "rsplit_once c s = Some (a, b) \<longleftrightarrow> split_once c (rev s) = Some (rev b, rev a)"
    by (force simp: rsplit_once_def)
  also have "\<dots> \<longleftrightarrow> s = a @ c # b \<and> c \<notin> set b"
    by (auto simp: split_once_Some rev_swap)
  finally show ?thesis .
qed

lemma rsplit_once_None: "rsplit_once c s = None \<longleftrightarrow> c \<notin> set s"
  by (simp add: rsplit_once_def split_once_None)

fun str_contains :: "string \<Rightarrow> string \<Rightarrow> bool" where
  "str_contains pat [] = (pat = [])"
| "str_contains pat (c # s) = (prefix pat (c # s) \<or> str_contains pat s)"

lemma str_contains_refl [simp]: "str_contains pat pat"
  by (cases pat) auto

definition strip_prefix :: "string \<Rightarrow> string \<Rightarrow> string option" where
  "strip_prefix p s = (if prefix p s then Some (drop (length p) s) else None)"

lemma strip_prefix_Some: "strip_prefix p s = Some r \<longleftrightarrow> s = p @ r"
  by (auto simp: strip_prefix_def prefix_def)

text \<open>\<open>str::replace\<close>: left to right, without overlaps; an empty pattern is not used by the code.\<close>

function str_replace :: "string \<Rightarrow> string \<Rightarrow> string \<Rightarrow> string" where
  "str_replace pat to s =
     (case s of [] \<Rightarrow> []
      | c # cs \<Rightarrow> if pat \<noteq> [] \<and> prefix pat s then to @ str_replace pat to (drop (length pat) s)
                  else c # str_replace pat to cs)"
  by pat_completeness auto
termination
  by (relation "measure (\<lambda>(pat, to, s). length s)") (auto dest: prefix_length_le)

declare str_replace.simps [simp del]

section \<open>Trimming\<close>

text \<open>
  \<open>str::trim\<close> removes Unicode white space; here it is the list of the UTF-8 encodings of
  the code points with the property White_Space.
\<close>

definition byte :: "nat \<Rightarrow> char" where
  "byte n = char_of n"

definition ws_seqs :: "string list" where
  "ws_seqs = map (\<lambda>n. [byte n]) [9, 10, 11, 12, 13, 32]
     @ map (map byte)
         ([[0xC2, 0x85], [0xC2, 0xA0], [0xE1, 0x9A, 0x80]]
          @ map (\<lambda>n. [0xE2, 0x80, 0x80 + n]) [0..<11]
          @ [[0xE2, 0x80, 0xA8], [0xE2, 0x80, 0xA9], [0xE2, 0x80, 0xAF], [0xE2, 0x81, 0x9F],
             [0xE3, 0x80, 0x80]])"

function strip_seqs :: "string list \<Rightarrow> string \<Rightarrow> string" where
  "strip_seqs ws s =
     (case find (\<lambda>w. w \<noteq> [] \<and> prefix w s) ws of
        None \<Rightarrow> s
      | Some w \<Rightarrow> strip_seqs ws (drop (length w) s))"
  by pat_completeness auto
termination
proof (relation "measure (\<lambda>(ws, s). length s)")
  fix ws s w
  assume "find (\<lambda>w. w \<noteq> [] \<and> prefix w s) ws = Some w"
  then have "w \<noteq> []" "prefix w s" by (auto simp: find_Some_iff)
  then show "((ws, drop (length w) s), ws, s) \<in> measure (\<lambda>(ws, s). length s)"
    by (auto dest: prefix_length_le simp: prefix_def)
qed simp

declare strip_seqs.simps [simp del]

definition trim_start :: "string \<Rightarrow> string" where
  "trim_start s = strip_seqs ws_seqs s"

definition trim_end :: "string \<Rightarrow> string" where
  "trim_end s = rev (strip_seqs (map rev ws_seqs) (rev s))"

definition trim :: "string \<Rightarrow> string" where
  "trim s = trim_end (trim_start s)"

lemma strip_seqs_suffix: "suffix (strip_seqs ws s) s"
proof (induction ws s rule: strip_seqs.induct)
  case (1 ws s)
  show ?case
  proof (cases "find (\<lambda>w. w \<noteq> [] \<and> prefix w s) ws")
    case None
    then show ?thesis by (simp add: strip_seqs.simps [of ws s])
  next
    case (Some w)
    then have "suffix (strip_seqs ws (drop (length w) s)) (drop (length w) s)"
      by (rule "1.IH")
    then have "suffix (strip_seqs ws (drop (length w) s)) s"
      using suffix_drop suffix_order.trans by blast
    with Some show ?thesis by (simp add: strip_seqs.simps [of ws s])
  qed
qed

lemma trim_chars: "set (trim s) \<subseteq> set s"
proof -
  have "set (trim_end t) \<subseteq> set t" for t
    using set_mono_suffix [OF strip_seqs_suffix, of "map rev ws_seqs" "rev t"]
    by (simp add: trim_end_def)
  moreover have "set (trim_start t) \<subseteq> set t" for t
    using set_mono_suffix [OF strip_seqs_suffix] by (simp add: trim_start_def)
  ultimately show ?thesis unfolding trim_def by blast
qed

text \<open>A string that starts and ends with a visible ASCII character is not trimmed.\<close>

definition visible :: "char \<Rightarrow> bool" where
  "visible c = (32 < (of_char c :: nat) \<and> (of_char c :: nat) < 128)"

lemma ws_seqs_invisible: "w \<in> set ws_seqs \<Longrightarrow> c \<in> set w \<Longrightarrow> \<not> visible c"
  by (auto simp: ws_seqs_def byte_def visible_def)

lemma strip_seqs_visible:
  assumes "\<forall>w \<in> set ws. \<forall>c \<in> set w. \<not> visible c" "visible c"
  shows "strip_seqs ws (c # s) = c # s"
proof -
  have "find (\<lambda>w. w \<noteq> [] \<and> prefix w (c # s)) ws = None"
    using assms by (auto simp: find_None_iff prefix_Cons)
  then show ?thesis by (simp add: strip_seqs.simps [of ws "c # s"])
qed

lemma trim_start_visible: "visible c \<Longrightarrow> trim_start (c # s) = c # s"
  using ws_seqs_invisible by (auto simp: trim_start_def intro!: strip_seqs_visible)

lemma trim_end_visible: "visible c \<Longrightarrow> trim_end (s @ [c]) = s @ [c]"
  using ws_seqs_invisible strip_seqs_visible [of "map rev ws_seqs" c "rev s"]
  by (simp add: trim_end_def)

lemma trim_visible: "s \<noteq> [] \<Longrightarrow> visible (hd s) \<Longrightarrow> visible (last s) \<Longrightarrow> trim s = s"
  using trim_start_visible [of "hd s" "tl s"] trim_end_visible [of "last s" "butlast s"]
  by (simp add: trim_def)

lemma trim_Nil [simp]: "trim [] = []"
proof -
  have "strip_seqs ws [] = []" for ws
    by (auto simp: strip_seqs.simps [of ws "[]"] find_Some_iff split: option.split)
  then show ?thesis by (simp add: trim_def trim_start_def trim_end_def)
qed

text \<open>\<open>trim_start_matches(c)\<close> and \<open>trim_end_matches(c)\<close> for a single character.\<close>

definition trim_start_matches :: "char \<Rightarrow> string \<Rightarrow> string" where
  "trim_start_matches c s = dropWhile (\<lambda>x. x = c) s"

definition trim_end_matches :: "char \<Rightarrow> string \<Rightarrow> string" where
  "trim_end_matches c s = rev (dropWhile (\<lambda>x. x = c) (rev s))"

lemma trim_end_matches_not_end: "trim_end_matches c s = [] \<or> last (trim_end_matches c s) \<noteq> c"
proof (cases "dropWhile (\<lambda>x. x = c) (rev s)")
  case Nil
  then show ?thesis by (simp add: trim_end_matches_def)
next
  case (Cons y ys)
  then have "hd (dropWhile (\<lambda>x. x = c) (rev s)) \<noteq> c"
    using hd_dropWhile [of "\<lambda>x. x = c" "rev s"] by fastforce
  then show ?thesis by (simp add: trim_end_matches_def last_rev)
qed

section \<open>Numbers and letter case\<close>

abbreviation code_of :: "char \<Rightarrow> nat" where
  "code_of c \<equiv> (of_char c :: nat)"

definition is_digit :: "char \<Rightarrow> bool" where
  "is_digit c = (48 \<le> code_of c \<and> code_of c \<le> 57)"

definition is_alnum :: "char \<Rightarrow> bool" where
  "is_alnum c = (is_digit c \<or> 65 \<le> code_of c \<and> code_of c \<le> 90 \<or> 97 \<le> code_of c \<and> code_of c \<le> 122)"

definition lower_char :: "char \<Rightarrow> char" where
  "lower_char c = (if 65 \<le> code_of c \<and> code_of c \<le> 90 then char_of (code_of c + 32) else c)"

definition upper_char :: "char \<Rightarrow> char" where
  "upper_char c = (if 97 \<le> code_of c \<and> code_of c \<le> 122 then char_of (code_of c - 32) else c)"

definition to_ascii_lowercase :: "string \<Rightarrow> string" where
  "to_ascii_lowercase s = map lower_char s"

definition to_ascii_uppercase :: "string \<Rightarrow> string" where
  "to_ascii_uppercase s = map upper_char s"

definition eq_ignore_ascii_case :: "string \<Rightarrow> string \<Rightarrow> bool" where
  "eq_ignore_ascii_case a b = (to_ascii_lowercase a = to_ascii_lowercase b)"

lemma eq_ignore_ascii_case_refl [simp]: "eq_ignore_ascii_case a a"
  by (simp add: eq_ignore_ascii_case_def)

definition show_digit :: "nat \<Rightarrow> char" where
  "show_digit n = char_of (48 + n)"

text \<open>Decimal printing (\<open>to_string\<close> on unsigned integers).\<close>

fun show_nat :: "nat \<Rightarrow> string" where
  "show_nat n = (if n < 10 then [show_digit n] else show_nat (n div 10) @ [show_digit (n mod 10)])"

declare show_nat.simps [simp del]

text \<open>\<open>str::parse\<close> on an unsigned integer: an optional plus sign, then at least one digit.\<close>

fun digits_val :: "nat \<Rightarrow> string \<Rightarrow> nat option" where
  "digits_val acc [] = Some acc"
| "digits_val acc (c # cs) =
     (if is_digit c then digits_val (10 * acc + (code_of c - 48)) cs else None)"

definition parse_uint :: "nat \<Rightarrow> string \<Rightarrow> nat option" where
  "parse_uint bound s =
     (let ds = (if s \<noteq> [] \<and> hd s = CHR ''+'' then tl s else s)
      in if ds = [] then None
         else (case digits_val 0 ds of
                 Some n \<Rightarrow> if n \<le> bound then Some n else None
               | None \<Rightarrow> None))"

lemma code_of_show_digit: "n < 10 \<Longrightarrow> code_of (show_digit n) = 48 + n"
  by (simp add: show_digit_def)

lemma is_digit_show_digit: "n < 10 \<Longrightarrow> is_digit (show_digit n)"
  by (simp add: is_digit_def code_of_show_digit)

lemma digits_val_append:
  "digits_val acc (xs @ ys) = Option.bind (digits_val acc xs) (\<lambda>a. digits_val a ys)"
  by (induction xs arbitrary: acc) auto

lemma show_nat_not_Nil [simp]: "show_nat n \<noteq> []"
  by (subst show_nat.simps) simp

lemma show_nat_digits: "c \<in> set (show_nat n) \<Longrightarrow> is_digit c"
proof (induction n rule: show_nat.induct)
  case (1 n)
  show ?case
  proof (cases "n < 10")
    case True
    with "1.prems" show ?thesis by (simp add: show_nat.simps [of n] is_digit_show_digit)
  next
    case False
    with "1.prems" have "c \<in> set (show_nat (n div 10)) \<or> c = show_digit (n mod 10)"
      by (subst (asm) show_nat.simps) auto
    with "1.IH" False show ?thesis by (auto simp: is_digit_show_digit)
  qed
qed

lemma digits_val_show_nat: "digits_val 0 (show_nat n) = Some n"
proof (induction n rule: show_nat.induct)
  case (1 n)
  show ?case
  proof (cases "n < 10")
    case True
    then show ?thesis
      by (simp add: show_nat.simps [of n] is_digit_show_digit code_of_show_digit)
  next
    case False
    then have "digits_val 0 (show_nat n)
        = Option.bind (digits_val 0 (show_nat (n div 10))) (\<lambda>a. digits_val a [show_digit (n mod 10)])"
      by (subst show_nat.simps) (simp only: if_False digits_val_append)
    with "1.IH" False show ?thesis
      by (simp add: is_digit_show_digit code_of_show_digit)
  qed
qed

lemma parse_uint_show_nat: "parse_uint bound (show_nat n) = (if n \<le> bound then Some n else None)"
proof -
  have "hd (show_nat n) \<noteq> CHR ''+''"
    using show_nat_digits [of "hd (show_nat n)" n] by (auto simp: is_digit_def)
  then show ?thesis by (simp add: parse_uint_def digits_val_show_nat)
qed

lemma unat_u64: "n < 2 ^ 64 \<Longrightarrow> unat (of_nat n :: u64) = n"
  by (simp add: unat_of_nat take_bit_nat_eq_self)

section \<open>UTF-8\<close>

text \<open>
  The decoder of \<open>Utf8Chunks\<close>: \<open>utf8_first\<close> gives the number of bytes of the first well-formed
  character, or of the maximal ill-formed part that is replaced as a whole.
\<close>

definition in_range :: "nat \<Rightarrow> nat \<Rightarrow> string \<Rightarrow> nat \<Rightarrow> bool" where
  "in_range lo hi s i = (i < length s \<and> lo \<le> code_of (s ! i) \<and> code_of (s ! i) \<le> hi)"

definition utf8_second_range :: "nat \<Rightarrow> nat \<times> nat" where
  "utf8_second_range b =
     (if b = 0xE0 then (0xA0, 0xBF) else if b = 0xED then (0x80, 0x9F)
      else if b = 0xF0 then (0x90, 0xBF) else if b = 0xF4 then (0x80, 0x8F) else (0x80, 0xBF))"

definition utf8_width :: "nat \<Rightarrow> nat" where
  "utf8_width b =
     (if b < 0x80 then 1 else if 0xC2 \<le> b \<and> b \<le> 0xDF then 2
      else if 0xE0 \<le> b \<and> b \<le> 0xEF then 3 else if 0xF0 \<le> b \<and> b \<le> 0xF4 then 4 else 0)"

definition utf8_first :: "string \<Rightarrow> nat \<times> bool" where
  "utf8_first s =
     (let b = code_of (s ! 0); w = utf8_width b; (lo, hi) = utf8_second_range b
      in if w = 0 then (1, False)
         else if w = 1 then (1, True)
         else if \<not> in_range lo hi s 1 then (1, False)
         else if w = 2 then (2, True)
         else if \<not> in_range 0x80 0xBF s 2 then (2, False)
         else if w = 3 then (3, True)
         else if \<not> in_range 0x80 0xBF s 3 then (3, False)
         else (4, True))"

lemma utf8_first_pos: "0 < fst (utf8_first s)"
  by (simp add: utf8_first_def Let_def split: prod.split)

function utf8_chunks :: "string \<Rightarrow> (string \<times> bool) list" where
  "utf8_chunks s =
     (if s = [] then []
      else let (n, ok) = utf8_first s in (take n s, ok) # utf8_chunks (drop n s))"
  by pat_completeness auto
termination
proof (relation "measure length")
  fix s :: string and x n ok
  assume "s \<noteq> []" "x = utf8_first s" "(n, ok) = x"
  then show "(drop n s, s) \<in> measure length"
    using utf8_first_pos [of s] by (cases s) (auto dest: sym)
qed simp

declare utf8_chunks.simps [simp del]

definition utf8_replacement :: string where
  "utf8_replacement = map byte [0xEF, 0xBF, 0xBD]"

definition valid_utf8 :: "string \<Rightarrow> bool" where
  "valid_utf8 s = list_all snd (utf8_chunks s)"

definition utf8_lossy :: "string \<Rightarrow> string" where
  "utf8_lossy s = concat (map (\<lambda>(c, ok). if ok then c else utf8_replacement) (utf8_chunks s))"

lemma utf8_chunks_concat: "concat (map fst (utf8_chunks s)) = s"
proof (induction s rule: utf8_chunks.induct)
  case (1 s)
  show ?case
  proof (cases "s = []")
    case False
    obtain n ok where f: "utf8_first s = (n, ok)" by fastforce
    then have "concat (map fst (utf8_chunks (drop n s))) = drop n s"
      using "1.IH" False by metis
    with False f show ?thesis by (subst utf8_chunks.simps) simp
  qed (simp add: utf8_chunks.simps)
qed

lemma utf8_lossy_valid: "valid_utf8 s \<Longrightarrow> utf8_lossy s = s"
proof -
  assume "valid_utf8 s"
  then have "map (\<lambda>(c, ok). if ok then c else utf8_replacement) (utf8_chunks s) = map fst (utf8_chunks s)"
    by (auto simp: valid_utf8_def list_all_iff)
  then show ?thesis unfolding utf8_lossy_def by (simp only: utf8_chunks_concat)
qed

lemma valid_utf8_ascii: "\<forall>c \<in> set s. code_of c < 128 \<Longrightarrow> valid_utf8 s"
proof (induction s)
  case (Cons c s)
  then have "utf8_first (c # s) = (1, True)"
    by (simp add: utf8_first_def utf8_width_def utf8_second_range_def)
  with Cons show ?case by (simp add: valid_utf8_def utf8_chunks.simps [of "c # s"])
qed (simp add: valid_utf8_def utf8_chunks.simps)

section \<open>Binary search\<close>

text \<open>
  \<open>slice::binary_search\<close>: \<open>bsearch_base\<close> is the loop that halves the window, kept as
  base and width.
\<close>

function bsearch_base :: "'a::linorder list \<Rightarrow> 'a \<Rightarrow> nat \<Rightarrow> nat \<Rightarrow> nat" where
  "bsearch_base xs x base n =
     (if n \<le> 1 then base
      else let half = n div 2; mid = base + half
           in bsearch_base xs x (if x < xs ! mid then base else mid) (n - half))"
  by pat_completeness auto
termination by (relation "measure (\<lambda>(xs, x, base, n). n)") auto

declare bsearch_base.simps [simp del]

definition bsearch :: "'a::linorder list \<Rightarrow> 'a \<Rightarrow> nat option" where
  "bsearch xs x =
     (if xs = [] then None
      else let i = bsearch_base xs x 0 (length xs) in if xs ! i = x then Some i else None)"

lemma bsearch_base_bounds:
  "0 < n \<Longrightarrow> base \<le> bsearch_base xs x base n \<and> bsearch_base xs x base n < base + n"
proof (induction xs x base n rule: bsearch_base.induct)
  case (1 xs x base n)
  show ?case
  proof (cases "n \<le> 1")
    case False
    define half where "half = n div 2"
    have h: "0 < half" "half < n" using False by (auto simp: half_def)
    have "bsearch_base xs x base n
        = bsearch_base xs x (if x < xs ! (base + half) then base else base + half) (n - half)"
      using False by (subst bsearch_base.simps) (simp add: half_def Let_def)
    with "1.IH" [OF False half_def refl] h show ?thesis by (auto split: if_splits)
  qed (use 1 in \<open>simp add: bsearch_base.simps\<close>)
qed

lemma bsearch_base_finds:
  "sorted xs \<Longrightarrow> 0 < n \<Longrightarrow> base + n \<le> length xs \<Longrightarrow>
   base \<le> i \<Longrightarrow> i < base + n \<Longrightarrow> xs ! i = x \<Longrightarrow>
   xs ! (bsearch_base xs x base n) = x"
proof (induction xs x base n arbitrary: i rule: bsearch_base.induct)
  case (1 xs x base n)
  show ?case
  proof (cases "n \<le> 1")
    case True
    with "1.prems" have "i = base" by simp
    with True "1.prems" show ?thesis by (simp add: bsearch_base.simps)
  next
    case False
    define half where "half = n div 2"
    have h: "0 < half" "half < n" using False by (auto simp: half_def)
    let ?b = "if x < xs ! (base + half) then base else base + half"
    have step: "bsearch_base xs x base n = bsearch_base xs x ?b (n - half)"
      using False by (subst bsearch_base.simps) (simp add: half_def Let_def)
    have "\<exists>j. ?b \<le> j \<and> j < ?b + (n - half) \<and> xs ! j = x"
    proof (cases "x < xs ! (base + half)")
      case True
      have "i < base + half"
      proof (rule ccontr)
        assume "\<not> i < base + half"
        then have "xs ! (base + half) \<le> xs ! i"
          using "1.prems" by (intro sorted_nth_mono) auto
        with True "1.prems" show False by auto
      qed
      with True "1.prems" h show ?thesis by (intro exI [of _ i]) (auto simp: half_def)
    next
      case ge: False
      show ?thesis
      proof (cases "base + half \<le> i")
        case True
        with ge "1.prems" h show ?thesis by (intro exI [of _ i]) auto
      next
        case False
        then have "xs ! i \<le> xs ! (base + half)"
          using "1.prems" h by (intro sorted_nth_mono) auto
        with ge "1.prems" h show ?thesis by (intro exI [of _ "base + half"]) auto
      qed
    qed
    moreover have "?b + (n - half) \<le> length xs" using "1.prems" h by auto
    ultimately show ?thesis
      using "1.IH" [OF False half_def refl] "1.prems"(1) h step by auto
  qed
qed

text \<open>On a sorted table the search succeeds exactly on the members.\<close>

lemma bsearch_member: "sorted xs \<Longrightarrow> bsearch xs x \<noteq> None \<longleftrightarrow> x \<in> set xs"
proof -
  assume s: "sorted xs"
  show ?thesis
  proof
    assume "bsearch xs x \<noteq> None"
    then have ne: "xs \<noteq> []" and f: "xs ! (bsearch_base xs x 0 (length xs)) = x"
      by (auto simp: bsearch_def Let_def split: if_splits)
    have "bsearch_base xs x 0 (length xs) < length xs"
      using bsearch_base_bounds [of "length xs" 0 xs x] ne by simp
    with f show "x \<in> set xs" using nth_mem by fastforce
  next
    assume "x \<in> set xs"
    then obtain i where "i < length xs" "xs ! i = x" by (auto simp: in_set_conv_nth)
    with s have "xs ! (bsearch_base xs x 0 (length xs)) = x"
      by (intro bsearch_base_finds [of _ _ _ i]) auto
    with \<open>x \<in> set xs\<close> show "bsearch xs x \<noteq> None" by (auto simp: bsearch_def Let_def)
  qed
qed

section \<open>Stable sorting\<close>

text \<open>
  \<open>slice::sort_by\<close> is a stable sort; \<open>le a b\<close> stands for a comparison that is not
  \<open>Greater\<close>. The laws hold for every total preorder.
\<close>

fun ins_by :: "('a \<Rightarrow> 'a \<Rightarrow> bool) \<Rightarrow> 'a \<Rightarrow> 'a list \<Rightarrow> 'a list" where
  "ins_by le x [] = [x]"
| "ins_by le x (y # ys) = (if le x y then x # y # ys else y # ins_by le x ys)"

definition sort_by :: "('a \<Rightarrow> 'a \<Rightarrow> bool) \<Rightarrow> 'a list \<Rightarrow> 'a list" where
  "sort_by le xs = foldr (ins_by le) xs []"

lemma sort_by_simps [simp]:
  "sort_by le [] = []" "sort_by le (x # xs) = ins_by le x (sort_by le xs)"
  by (simp_all add: sort_by_def)

lemma mset_ins_by [simp]: "mset (ins_by le x xs) = add_mset x (mset xs)"
  by (induction xs) auto

lemma mset_sort_by [simp]: "mset (sort_by le xs) = mset xs"
  by (induction xs) auto

lemma set_sort_by [simp]: "set (sort_by le xs) = set xs"
  using mset_sort_by set_mset_mset by metis

lemma length_sort_by [simp]: "length (sort_by le xs) = length xs"
  using mset_sort_by size_mset by metis

locale comparison =
  fixes le :: "'a \<Rightarrow> 'a \<Rightarrow> bool"
  assumes total: "le x y \<or> le y x"
    and trans: "le x y \<Longrightarrow> le y z \<Longrightarrow> le x z"
begin

lemma sorted_ins: "sorted_wrt le xs \<Longrightarrow> sorted_wrt le (ins_by le x xs)"
proof (induction xs)
  case (Cons y ys)
  have "set (ins_by le x ys) = insert x (set ys)"
    using mset_ins_by [of le x ys] by (metis set_mset_add_mset_insert set_mset_mset)
  with Cons total [of x y] trans show ?case by auto
qed simp

lemma sorted: "sorted_wrt le (sort_by le xs)"
  by (induction xs) (auto intro: sorted_ins)

lemma stable_ins:
  "sorted_wrt le xs \<Longrightarrow>
   filter (\<lambda>y. le z y \<and> le y z) (ins_by le x xs) = filter (\<lambda>y. le z y \<and> le y z) (x # xs)"
proof (induction xs)
  case (Cons y ys)
  show ?case
  proof (cases "le x y")
    case False
    then have "\<not> (le z x \<and> le x z \<and> le z y \<and> le y z)" using trans by blast
    with Cons False show ?thesis by auto
  qed simp
qed simp

lemma stable: "filter (\<lambda>y. le z y \<and> le y z) (sort_by le xs) = filter (\<lambda>y. le z y \<and> le y z) xs"
  by (induction xs) (simp_all add: stable_ins sorted)

text \<open>The first element of a sorted list comes before all the others.\<close>

lemma first_least: "sort_by le xs = y # ys \<Longrightarrow> x \<in> set xs \<Longrightarrow> le y x"
proof -
  assume s: "sort_by le xs = y # ys" and x: "x \<in> set xs"
  from x s have "x \<in> set (y # ys)" using set_sort_by by metis
  moreover have "sorted_wrt le (y # ys)" using sorted s by metis
  ultimately show "le y x" using total [of y y] by auto
qed

end

end
