(* ===== verification/Streams.thy ===== *)
theory Streams
  imports Prelude
begin

text \<open>
  Byte readers and the file stream of \<open>src/fs/stream.rs\<close>.

  A reader is what \<open>std::io\<close> gives the gateway: an open file behind a \<open>BufReader\<close>, or a cursor
  over bytes in memory, cut by \<open>take\<close>. The interface \<open>byte_reader\<close> is the part of the \<open>Read\<close>
  contract that the streams rely on; it is interpreted on the modelled readers, and every
  statement about streams is proved once from the interface.
\<close>

type_synonym io_error = string

section \<open>Readers of the standard library\<close>

text \<open>
  The bytes from the position of an open file to its end, and the error that a read
  meets after them, if any.
\<close>

record raw_file =
  rf_data :: string
  rf_err :: "io_error option"

definition raw_read :: "nat \<Rightarrow> raw_file \<Rightarrow> (io_error + string) \<times> raw_file" where
  "raw_read n f =
     (if n = 0 then (Inr [], f)
      else if rf_data f = []
      then (case rf_err f of Some e \<Rightarrow> (Inl e, f) | None \<Rightarrow> (Inr [], f))
      else (Inr (take n (rf_data f)), f\<lparr>rf_data := drop n (rf_data f)\<rparr>))"

record buf_reader =
  br_buf :: string
  br_file :: raw_file

text \<open>The default capacity of \<open>BufReader\<close>; larger requests on an empty buffer bypass it.\<close>

definition buf_reader_capacity :: nat where
  "buf_reader_capacity = 8192"

definition buf_read :: "nat \<Rightarrow> buf_reader \<Rightarrow> (io_error + string) \<times> buf_reader" where
  "buf_read n r =
     (if br_buf r = [] \<and> buf_reader_capacity \<le> n
      then (let (res, f) = raw_read n (br_file r) in (res, r\<lparr>br_file := f\<rparr>))
      else if br_buf r = []
      then (case raw_read buf_reader_capacity (br_file r) of
              (Inl e, f) \<Rightarrow> (Inl e, r\<lparr>br_file := f\<rparr>)
            | (Inr bs, f) \<Rightarrow> (Inr (take n bs), \<lparr>br_buf = drop n bs, br_file = f\<rparr>))
      else (Inr (take n (br_buf r)), r\<lparr>br_buf := drop n (br_buf r)\<rparr>))"

datatype byte_source = File_Source buf_reader | Cursor_Source string

fun source_read :: "nat \<Rightarrow> byte_source \<Rightarrow> (io_error + string) \<times> byte_source" where
  "source_read n (File_Source r) = (let (res, r') = buf_read n r in (res, File_Source r'))"
| "source_read n (Cursor_Source bs) = (Inr (take n bs), Cursor_Source (drop n bs))"

text \<open>\<open>Read::take\<close>.\<close>

record take_reader =
  tr_limit :: nat
  tr_source :: byte_source

definition take_read :: "nat \<Rightarrow> take_reader \<Rightarrow> (io_error + string) \<times> take_reader" where
  "take_read n t =
     (if tr_limit t = 0 then (Inr [], t)
      else case source_read (min n (tr_limit t)) (tr_source t) of
             (Inl e, s) \<Rightarrow> (Inl e, t\<lparr>tr_source := s\<rparr>)
           | (Inr bs, s) \<Rightarrow> (Inr bs, \<lparr>tr_limit = tr_limit t - length bs, tr_source = s\<rparr>))"

definition open_reader :: "string \<Rightarrow> io_error option \<Rightarrow> nat \<Rightarrow> nat \<Rightarrow> take_reader" where
  "open_reader content err start len =
     \<lparr>tr_limit = len,
      tr_source = File_Source \<lparr>br_buf = [], br_file = \<lparr>rf_data = drop start content, rf_err = err\<rparr>\<rparr>\<rparr>"

definition cursor_reader :: "string \<Rightarrow> nat \<Rightarrow> nat \<Rightarrow> take_reader" where
  "cursor_reader content start len =
     \<lparr>tr_limit = len, tr_source = Cursor_Source (drop start content)\<rparr>"

text \<open>The bytes a reader can still give.\<close>

fun source_bytes :: "byte_source \<Rightarrow> string" where
  "source_bytes (File_Source r) = br_buf r @ rf_data (br_file r)"
| "source_bytes (Cursor_Source bs) = bs"

definition take_bytes :: "take_reader \<Rightarrow> string" where
  "take_bytes t = take (tr_limit t) (source_bytes (tr_source t))"

fun source_err :: "byte_source \<Rightarrow> io_error option" where
  "source_err (File_Source r) = rf_err (br_file r)"
| "source_err (Cursor_Source bs) = None"

lemma take_bytes_open: "take_bytes (open_reader c e a n) = take n (drop a c)"
  by (simp add: take_bytes_def open_reader_def)

lemma take_bytes_cursor: "take_bytes (cursor_reader c a n) = take n (drop a c)"
  by (simp add: take_bytes_def cursor_reader_def)

section \<open>The file stream\<close>

datatype poll_item = Finished | Item string | Fail io_error

record 'r file_stream =
  st_reader :: 'r
  st_buf_size :: nat

definition poll_next ::
  "(nat \<Rightarrow> 'r \<Rightarrow> (io_error + string) \<times> 'r) \<Rightarrow> 'r file_stream \<Rightarrow> poll_item \<times> 'r file_stream" where
  "poll_next rd s =
     (case rd (st_buf_size s) (st_reader s) of
        (Inr bs, r) \<Rightarrow> ((if bs = [] then Finished else Item bs), s\<lparr>st_reader := r\<rparr>)
      | (Inl e, r) \<Rightarrow> (Fail e, s\<lparr>st_reader := r\<rparr>))"

definition DEFAULT_READ_BUF_SIZE :: nat where
  "DEFAULT_READ_BUF_SIZE = 4096"

definition get_block_size :: "nat \<Rightarrow> nat" where
  "get_block_size blksize = max blksize DEFAULT_READ_BUF_SIZE"

definition optimal_buf_size :: "nat \<Rightarrow> nat \<Rightarrow> nat" where
  "optimal_buf_size blksize len = min (get_block_size blksize) len"

text \<open>
  A consumer that polls until the stream finishes or fails: the chunks, the error if there was one,
  or \<open>None\<close> when the fuel runs out.
\<close>

fun drain ::
  "(nat \<Rightarrow> 'r \<Rightarrow> (io_error + string) \<times> 'r) \<Rightarrow> nat \<Rightarrow> 'r file_stream
   \<Rightarrow> (string list \<times> io_error option) option" where
  "drain rd 0 s = None"
| "drain rd (Suc fuel) s =
     (case poll_next rd s of
        (Finished, s') \<Rightarrow> Some ([], None)
      | (Fail e, s') \<Rightarrow> Some ([], Some e)
      | (Item bs, s') \<Rightarrow> map_option (\<lambda>(cs, e). (bs # cs, e)) (drain rd fuel s'))"

locale byte_reader =
  fixes rd :: "nat \<Rightarrow> 'r \<Rightarrow> (io_error + string) \<times> 'r"
    and remaining :: "'r \<Rightarrow> string"
  assumes rd_data: "rd n r = (Inr bs, r') \<Longrightarrow> remaining r = bs @ remaining r'"
    and rd_len: "rd n r = (Inr bs, r') \<Longrightarrow> length bs \<le> n"
    and rd_end: "rd n r = (Inr [], r') \<Longrightarrow> 0 < n \<Longrightarrow> remaining r = []"
    and rd_err: "rd n r = (Inl e, r') \<Longrightarrow> remaining r' = remaining r"
begin

lemma poll_item:
  assumes "poll_next rd s = (Item bs, s')"
  shows "bs \<noteq> []" "length bs \<le> st_buf_size s" "remaining (st_reader s) = bs @ remaining (st_reader s')"
    "st_buf_size s' = st_buf_size s"
  using assms rd_data rd_len
  by (auto simp: poll_next_def split: prod.splits sum.splits if_splits)

lemma poll_finished:
  "poll_next rd s = (Finished, s') \<Longrightarrow> 0 < st_buf_size s \<Longrightarrow> remaining (st_reader s) = []"
  using rd_end by (auto simp: poll_next_def split: prod.splits sum.splits if_splits)

lemma drain_total:
  "length (remaining (st_reader s)) < fuel \<Longrightarrow> drain rd fuel s \<noteq> None"
proof (induction fuel arbitrary: s)
  case (Suc fuel)
  obtain it s' where p: "poll_next rd s = (it, s')" by fastforce
  show ?case
  proof (cases it)
    case (Item bs)
    with p poll_item(1,3) [of s bs s'] Suc.prems have "length (remaining (st_reader s')) < fuel"
      by (cases bs) auto
    with Suc.IH p Item show ?thesis by fastforce
  qed (simp_all add: p)
qed simp

lemma drain_chunks:
  "drain rd fuel s = Some (cs, e) \<Longrightarrow>
   (\<forall>c \<in> set cs. c \<noteq> [] \<and> length c \<le> st_buf_size s) \<and>
   prefix (concat cs) (remaining (st_reader s)) \<and>
   (e = None \<longrightarrow> 0 < st_buf_size s \<longrightarrow> concat cs = remaining (st_reader s))"
proof (induction fuel arbitrary: s cs)
  case (Suc fuel)
  obtain it s' where p: "poll_next rd s = (it, s')" by fastforce
  show ?case
  proof (cases it)
    case Finished
    with p Suc.prems poll_finished [of s s'] show ?thesis by auto
  next
    case (Item bs)
    with p Suc.prems obtain cs' where cs: "cs = bs # cs'" and d: "drain rd fuel s' = Some (cs', e)"
      by auto
    from Suc.IH [OF d] poll_item [of s bs s'] p Item cs show ?thesis by auto
  next
    case (Fail x)
    with p Suc.prems show ?thesis by auto
  qed
qed simp

end

section \<open>The readers satisfy the interface\<close>

lemma raw_read_laws:
  assumes "raw_read n f = (Inr bs, f')"
  shows "rf_data f = bs @ rf_data f'" "length bs \<le> n" "bs = [] \<Longrightarrow> 0 < n \<Longrightarrow> rf_data f = []"
  using assms by (auto simp: raw_read_def split: if_splits option.splits)

lemma buf_read_laws:
  assumes "buf_read n r = (Inr bs, r')"
  shows "br_buf r @ rf_data (br_file r) = bs @ br_buf r' @ rf_data (br_file r')"
    "length bs \<le> n" "bs = [] \<Longrightarrow> 0 < n \<Longrightarrow> br_buf r @ rf_data (br_file r) = []"
proof -
  show "br_buf r @ rf_data (br_file r) = bs @ br_buf r' @ rf_data (br_file r')"
    using assms
    by (auto simp: buf_read_def split: if_splits prod.splits sum.splits dest: raw_read_laws(1))
  show "length bs \<le> n"
    using assms
    by (auto simp: buf_read_def split: if_splits prod.splits sum.splits dest: raw_read_laws(2))
  show "bs = [] \<Longrightarrow> 0 < n \<Longrightarrow> br_buf r @ rf_data (br_file r) = []"
    using assms
    by (auto simp: buf_read_def buf_reader_capacity_def split: if_splits prod.splits sum.splits
        dest: raw_read_laws(3))
qed

lemma source_read_laws:
  assumes "source_read n s = (Inr bs, s')"
  shows "source_bytes s = bs @ source_bytes s'" "length bs \<le> n"
    "bs = [] \<Longrightarrow> 0 < n \<Longrightarrow> source_bytes s = []"
proof -
  show "source_bytes s = bs @ source_bytes s'"
    using assms by (cases s) (auto dest: buf_read_laws(1) split: prod.splits)
  show "length bs \<le> n"
    using assms by (cases s) (auto dest: buf_read_laws(2) split: prod.splits)
  show "bs = [] \<Longrightarrow> 0 < n \<Longrightarrow> source_bytes s = []"
    using assms by (cases s) (fastforce dest: buf_read_laws(3) split: prod.splits)+
qed

lemma source_read_err:
  "source_read n s = (Inl e, s') \<Longrightarrow> source_bytes s' = source_bytes s"
  by (cases s) (auto simp: buf_read_def raw_read_def split: if_splits option.splits prod.splits sum.splits)

interpretation taken: byte_reader take_read take_bytes
proof
  fix n r bs r'
  assume "take_read n r = (Inr bs, r')"
  then show "take_bytes r = bs @ take_bytes r'"
    using source_read_laws(1,2) [of "min n (tr_limit r)" "tr_source r" bs]
    by (auto simp: take_read_def take_bytes_def split: if_splits prod.splits sum.splits)
next
  fix n r bs r'
  assume "take_read n r = (Inr bs, r')"
  then show "length bs \<le> n"
    by (auto simp: take_read_def split: if_splits prod.splits sum.splits dest!: source_read_laws(2))
next
  fix n r r'
  assume "take_read n r = (Inr [], r')" "0 < n"
  then show "take_bytes r = []"
    by (auto simp: take_read_def take_bytes_def split: if_splits prod.splits sum.splits
        dest!: source_read_laws(3))
next
  fix n r e r'
  assume "take_read n r = (Inl e, r')"
  then show "take_bytes r' = take_bytes r"
    by (auto simp: take_read_def take_bytes_def split: if_splits prod.splits sum.splits
        dest!: source_read_err)
qed

text \<open>A reader without an I/O error ends without one.\<close>

lemma source_read_no_err:
  "source_err s = None \<Longrightarrow> source_read n s = (res, s') \<Longrightarrow> is_ok res \<and> source_err s' = None"
  by (cases s) (auto simp: buf_read_def raw_read_def split: if_splits option.splits prod.splits sum.splits)

lemma take_read_no_err:
  "source_err (tr_source t) = None \<Longrightarrow> take_read n t = (res, t') \<Longrightarrow>
   is_ok res \<and> source_err (tr_source t') = None"
  by (auto simp: take_read_def split: if_splits prod.splits sum.splits dest: source_read_no_err)

lemma drain_no_err:
  "source_err (tr_source (st_reader s)) = None \<Longrightarrow> drain take_read fuel s = Some (cs, e) \<Longrightarrow> e = None"
proof (induction fuel arbitrary: s cs)
  case (Suc fuel)
  obtain res t' where r: "take_read (st_buf_size s) (st_reader s) = (res, t')" by fastforce
  with Suc.prems(1) have "is_ok res" "source_err (tr_source t') = None"
    using take_read_no_err by blast+
  with Suc.prems r Suc.IH [of "s\<lparr>st_reader := t'\<rparr>"] show ?case
    by (cases res) (auto simp: poll_next_def split: if_splits)
qed simp

text \<open>
  A whole drain of an error-free reader with a non-empty buffer: it returns, in non-empty chunks
  of at most the buffer size, exactly the bytes the reader had.
\<close>

lemma drain_complete:
  assumes "source_err (tr_source (st_reader s)) = None" "0 < st_buf_size s"
    and "length (take_bytes (st_reader s)) < fuel"
  shows "\<exists>cs. drain take_read fuel s = Some (cs, None) \<and> concat cs = take_bytes (st_reader s) \<and>
    (\<forall>c \<in> set cs. c \<noteq> [] \<and> length c \<le> st_buf_size s)"
proof -
  obtain cs e where d: "drain take_read fuel s = Some (cs, e)"
    using taken.drain_total [OF assms(3)] by auto
  with assms(1) have "e = None" by (rule drain_no_err)
  with d taken.drain_chunks [OF d] assms(2) show ?thesis by auto
qed

lemma drain_empty:
  "take_bytes (st_reader s) = [] \<Longrightarrow> source_err (tr_source (st_reader s)) = None \<Longrightarrow> 0 < fuel \<Longrightarrow>
   drain take_read fuel s = Some ([], None)"
proof -
  assume e: "take_bytes (st_reader s) = []" "source_err (tr_source (st_reader s)) = None" "0 < fuel"
  obtain res r where t: "take_read (st_buf_size s) (st_reader s) = (res, r)" by fastforce
  from take_read_no_err [OF e(2) t] obtain bs where bs: "res = Inr bs" by (cases res) auto
  with e(1) t taken.rd_data have "bs = []" by fastforce
  with t bs e(3) show ?thesis by (cases fuel) (simp_all add: poll_next_def)
qed

declare drain.simps(2) [simp del]

end
