(* ===== verification/Http.thy ===== *)
theory Http
  imports Streams
begin

text \<open>
  The HTTP vocabulary of the gateway: methods (\<open>src/http_ext.rs\<close>), content codings
  (\<open>src/headers_ext/content_coding.rs\<close>), header maps, requests, responses and bodies, and the
  record \<open>ext\<close> of third-party functions that the model takes as a parameter.

  A header map is the list of its name/value pairs with lower-case names; the values of a name keep
  their order. The interface \<open>header_store\<close> states what the gateway relies on (a lookup after an
  insert, a removal, an append), it is interpreted on the list representation, and the
  response stages use its facts only.
\<close>

section \<open>Methods\<close>

type_synonym http_method = string

definition HTTP_SUPPORTED_METHODS :: "http_method list" where
  "HTTP_SUPPORTED_METHODS = [''OPTIONS'', ''HEAD'', ''GET'']"

text \<open>The loop of \<open>is_allowed\<close>, written over the rest of the table.\<close>

fun is_allowed_loop :: "http_method list \<Rightarrow> http_method \<Rightarrow> bool" where
  "is_allowed_loop [] m = False"
| "is_allowed_loop (x # xs) m = (if x = m then True else is_allowed_loop xs m)"

definition is_allowed :: "http_method \<Rightarrow> bool" where
  "is_allowed m = is_allowed_loop HTTP_SUPPORTED_METHODS m"

definition is_get :: "http_method \<Rightarrow> bool" where
  "is_get m = (m = ''GET'')"

definition is_head :: "http_method \<Rightarrow> bool" where
  "is_head m = (m = ''HEAD'')"

definition is_options :: "http_method \<Rightarrow> bool" where
  "is_options m = (m = ''OPTIONS'')"

lemma is_allowed_iff: "is_allowed m \<longleftrightarrow> is_get m \<or> is_head m \<or> is_options m"
  by (auto simp: is_allowed_def HTTP_SUPPORTED_METHODS_def is_get_def is_head_def is_options_def)

section \<open>Content codings\<close>

datatype content_coding = BROTLI | COMPRESS | DEFLATE | GZIP | IDENTITY | ZSTD

fun coding_str :: "content_coding \<Rightarrow> string" where
  "coding_str BROTLI = ''br''"
| "coding_str COMPRESS = ''compress''"
| "coding_str DEFLATE = ''deflate''"
| "coding_str GZIP = ''gzip''"
| "coding_str IDENTITY = ''identity''"
| "coding_str ZSTD = ''zstd''"

fun coding_name :: "content_coding \<Rightarrow> string" where
  "coding_name BROTLI = ''BROTLI''"
| "coding_name COMPRESS = ''COMPRESS''"
| "coding_name DEFLATE = ''DEFLATE''"
| "coding_name GZIP = ''GZIP''"
| "coding_name IDENTITY = ''IDENTITY''"
| "coding_name ZSTD = ''ZSTD''"

definition all_codings :: "content_coding list" where
  "all_codings = [BROTLI, COMPRESS, DEFLATE, GZIP, IDENTITY, ZSTD]"

definition coding_from_str :: "string \<Rightarrow> content_coding option" where
  "coding_from_str s = find (\<lambda>c. s = coding_name c \<or> s = coding_str c) all_codings"

definition coding_from :: "string \<Rightarrow> content_coding" where
  "coding_from s = (case coding_from_str s of Some c \<Rightarrow> c | None \<Rightarrow> IDENTITY)"

fun coding_priority :: "content_coding \<Rightarrow> nat" where
  "coding_priority IDENTITY = 1"
| "coding_priority COMPRESS = 2"
| "coding_priority DEFLATE = 3"
| "coding_priority GZIP = 4"
| "coding_priority BROTLI = 5"
| "coding_priority ZSTD = 6"

lemma coding_from_str_roundtrip: "coding_from_str (coding_str c) = Some c"
  by (cases c) (simp_all add: coding_from_str_def all_codings_def)

lemma coding_priority_inj: "coding_priority a = coding_priority b \<Longrightarrow> a = b"
  by (cases a; cases b) simp_all

instantiation content_coding :: linorder
begin

definition less_eq_content_coding :: "content_coding \<Rightarrow> content_coding \<Rightarrow> bool" where
  "less_eq_content_coding a b = (coding_priority a \<le> coding_priority b)"

definition less_content_coding :: "content_coding \<Rightarrow> content_coding \<Rightarrow> bool" where
  "less_content_coding a b = (coding_priority a < coding_priority b)"

instance
  by standard (auto simp: less_eq_content_coding_def less_content_coding_def intro: coding_priority_inj)

end

section \<open>Header maps\<close>

type_synonym headers = "(string \<times> string) list"

definition hget :: "string \<Rightarrow> headers \<Rightarrow> string option" where
  "hget k h = map_option snd (find (\<lambda>(n, _). n = k) h)"

definition hget_all :: "string \<Rightarrow> headers \<Rightarrow> string list" where
  "hget_all k h = map snd (filter (\<lambda>(n, _). n = k) h)"

definition hremove :: "string \<Rightarrow> headers \<Rightarrow> headers" where
  "hremove k h = filter (\<lambda>(n, _). n \<noteq> k) h"

fun hinsert :: "string \<Rightarrow> string \<Rightarrow> headers \<Rightarrow> headers" where
  "hinsert k v [] = [(k, v)]"
| "hinsert k v ((n, w) # h) = (if n = k then (k, v) # hremove k h else (n, w) # hinsert k v h)"

definition happend :: "string \<Rightarrow> string \<Rightarrow> headers \<Rightarrow> headers" where
  "happend k v h = h @ [(k, v)]"

definition hcontains :: "string \<Rightarrow> headers \<Rightarrow> bool" where
  "hcontains k h = list_ex (\<lambda>(n, _). n = k) h"

text \<open>What a header map promises.\<close>

locale header_store =
  fixes get :: "string \<Rightarrow> 'h \<Rightarrow> string option"
    and get_all :: "string \<Rightarrow> 'h \<Rightarrow> string list"
    and ins :: "string \<Rightarrow> string \<Rightarrow> 'h \<Rightarrow> 'h"
    and app :: "string \<Rightarrow> string \<Rightarrow> 'h \<Rightarrow> 'h"
    and rem :: "string \<Rightarrow> 'h \<Rightarrow> 'h"
    and none :: 'h
  assumes get_first: "get k h = (case get_all k h of [] \<Rightarrow> None | v # _ \<Rightarrow> Some v)"
    and all_none: "get_all k none = []"
    and all_ins: "get_all k (ins n v h) = (if k = n then [v] else get_all k h)"
    and all_app: "get_all k (app n v h) = get_all k h @ (if k = n then [v] else [])"
    and all_rem: "get_all k (rem n h) = (if k = n then [] else get_all k h)"
begin

lemma get_none: "get k none = None"
  by (simp add: get_first all_none)

lemma get_ins: "get k (ins n v h) = (if k = n then Some v else get k h)"
  by (simp add: get_first all_ins)

lemma get_rem: "get k (rem n h) = (if k = n then None else get k h)"
  by (simp add: get_first all_rem)

lemma get_app: "get k (app n v h) = (if k = n \<and> get k h = None then Some v else get k h)"
  by (simp add: get_first all_app split: list.splits)

lemma get_fold_ins:
  "k \<notin> fst ` set kvs \<Longrightarrow> get k (fold (\<lambda>(n, v). ins n v) kvs h) = get k h"
  by (induction kvs arbitrary: h) (auto simp: get_ins)

lemma ins_ins_get: "get k (ins n v (ins n w h)) = get k (ins n v h)"
  by (simp add: get_ins)

end

lemma hget_all_simps:
  "hget_all k [] = []"
  "hget_all k (q # t) = (if fst q = k then [snd q] else []) @ hget_all k t"
  "hget_all k (s @ t) = hget_all k s @ hget_all k t"
  by (auto simp: hget_all_def split: prod.splits)

lemma hget_all_hremove: "hget_all k (hremove n h) = (if k = n then [] else hget_all k h)"
  by (induction h) (auto simp: hget_all_def hremove_def)

lemma hget_all_hinsert: "hget_all k (hinsert n v h) = (if k = n then [v] else hget_all k h)"
  by (induction n v h rule: hinsert.induct) (auto simp: hget_all_simps hget_all_hremove)

interpretation hdr: header_store hget hget_all hinsert happend hremove "[]"
proof
  show "hget k h = (case hget_all k h of [] \<Rightarrow> None | v # _ \<Rightarrow> Some v)" for k h
    by (induction h) (auto simp: hget_def hget_all_def)
  show "hget_all k [] = []" for k
    by (simp add: hget_all_simps)
  show "hget_all k (hinsert n v h) = (if k = n then [v] else hget_all k h)" for k n v h
    by (rule hget_all_hinsert)
  show "hget_all k (happend n v h) = hget_all k h @ (if k = n then [v] else [])" for k n v h
    by (simp add: happend_def hget_all_simps)
  show "hget_all k (hremove n h) = (if k = n then [] else hget_all k h)" for k n h
    by (rule hget_all_hremove)
qed

declare hinsert.simps [simp del]

lemmas [headers_simp] = hdr.get_none hdr.get_ins hdr.get_rem hdr.get_app

lemma hcontains_hget: "hcontains k h \<longleftrightarrow> hget k h \<noteq> None"
  by (induction h) (auto simp: hcontains_def hget_def)

section \<open>Requests, responses and bodies\<close>

text \<open>A request target as \<open>http::Uri\<close> presents it through its accessors.\<close>

record uri =
  uri_scheme :: "string option"
  uri_authority :: "string option"
  uri_host :: "string option"
  uri_port :: "nat option"
  uri_path :: string
  uri_query :: "string option"

text \<open>\<open>http::uri::Parts\<close>.\<close>

record uri_parts =
  up_scheme :: "string option"
  up_authority :: "string option"
  up_path_and_query :: "string option"

record mime =
  mm_type :: string
  mm_essence :: string
  mm_suffix :: "string option"
  mm_charset :: "string option"

type_synonym date = int

record mem_file_temp_opts =
  mt_file_path :: string
  mt_content_type :: string
  mt_last_modified :: "date option"

text \<open>\<open>bytes::BytesMut\<close>: the bytes written and the allocated capacity.\<close>

record bytes_mut =
  bm_data :: string
  bm_capacity :: nat

record mem_cache_stream =
  ms_reader :: take_reader
  ms_buf_size :: nat
  ms_mem_opts :: "mem_file_temp_opts option"
  ms_mem_buf :: "bytes_mut option"

datatype encoder_level = Level_Fastest | Level_Best | Level_Precise int

text \<open>
  Response bodies: empty, in memory, a file stream, a file stream that fills the memory cache, a
  body behind an encoder, the archive of a directory, and a body received from an upstream.
\<close>

datatype body =
    Empty_Body
  | Bytes_Body string
  | File_Body "take_reader file_stream"
  | Mem_Cache_Body mem_cache_stream
  | Encoded_Body content_coding encoder_level body
  | Archive_Body string string
  | Upstream_Body string

record request =
  rq_method :: http_method
  rq_uri :: uri
  rq_headers :: headers
  rq_body :: body

record response =
  rs_status :: nat
  rs_headers :: headers
  rs_body :: body

definition response_new :: "body \<Rightarrow> response" where
  "response_new b = \<lparr>rs_status = 200, rs_headers = [], rs_body = b\<rparr>"

definition rs_insert :: "string \<Rightarrow> string \<Rightarrow> response \<Rightarrow> response" where
  "rs_insert k v r = r\<lparr>rs_headers := hinsert k v (rs_headers r)\<rparr>"

definition rs_remove :: "string \<Rightarrow> response \<Rightarrow> response" where
  "rs_remove k r = r\<lparr>rs_headers := hremove k (rs_headers r)\<rparr>"

abbreviation rs_get :: "string \<Rightarrow> response \<Rightarrow> string option" where
  "rs_get k r \<equiv> hget k (rs_headers r)"

lemma rs_insert_simps [simp]:
  "rs_status (rs_insert k v r) = rs_status r" "rs_body (rs_insert k v r) = rs_body r"
  "rs_headers (rs_insert k v r) = hinsert k v (rs_headers r)"
  by (simp_all add: rs_insert_def)

lemma rs_remove_simps [simp]:
  "rs_status (rs_remove k r) = rs_status r" "rs_body (rs_remove k r) = rs_body r"
  "rs_headers (rs_remove k r) = hremove k (rs_headers r)"
  by (simp_all add: rs_remove_def)

lemma response_new_simps [simp]:
  "rs_status (response_new b) = 200" "rs_body (response_new b) = b" "rs_headers (response_new b) = []"
  by (simp_all add: response_new_def)

text \<open>The plain body that a handler answers with: \<open>Body::from\<close> unless the method is HEAD.\<close>

definition body_unless_head :: "http_method \<Rightarrow> string \<Rightarrow> body" where
  "body_unless_head m content = (if is_head m then Empty_Body else Bytes_Body content)"

definition TEXT_HTML_UTF_8 :: string where
  "TEXT_HTML_UTF_8 = ''text/html; charset=utf-8''"

end
