(* ===== verification/Externals.thy ===== *)
theory Externals
  imports Http
begin

text \<open>
  The third-party functions the gateway calls, as one record of parameters. Every definition that
  needs one takes the record as its first argument \<open>X\<close>; nothing is assumed about its
  fields except in the hypotheses that a theorem names. \<open>demo_ext\<close> is a small concrete
  instance on which the witnesses evaluate.
\<close>

datatype bound = Included u64 | Excluded u64 | Unbounded

type_synonym range = "(bound \<times> bound) list"

record ext =
  x_pct_decode :: "string \<Rightarrow> string"
    \<comment> \<open>\<open>percent_encoding::percent_decode_str\<close>, the bytes\<close>
  x_header_str :: "string \<Rightarrow> string option"
    \<comment> \<open>\<open>HeaderValue::to_str\<close>\<close>
  x_header_value :: "string \<Rightarrow> string option"
    \<comment> \<open>\<open>HeaderValue::from_str\<close>\<close>
  x_header_bytes :: "string \<Rightarrow> string option"
    \<comment> \<open>\<open>HeaderValue::from_maybe_shared\<close>\<close>
  x_mime_from_path :: "string \<Rightarrow> string"
    \<comment> \<open>\<open>mime_guess::from_path(..).first_or_octet_stream()\<close> as a header value\<close>
  x_parse_mime :: "string \<Rightarrow> mime option"
    \<comment> \<open>\<open>str::parse::<Mime>\<close>\<close>
  x_content_type :: "string list \<Rightarrow> mime option"
    \<comment> \<open>the typed \<open>ContentType\<close>\<close>
  x_canonical_reason :: "nat \<Rightarrow> string option"
    \<comment> \<open>\<open>StatusCode::canonical_reason\<close>\<close>
  x_if_modified_since :: "string list \<Rightarrow> date option"
  x_if_unmodified_since :: "string list \<Rightarrow> date option"
  x_if_range :: "string list \<Rightarrow> string option"
  x_range :: "string list \<Rightarrow> range option"
    \<comment> \<open>the typed headers of the request, from all the values of the name\<close>
  x_last_modified :: "int \<Rightarrow> date"
    \<comment> \<open>\<open>LastModified::from(SystemTime)\<close>\<close>
  x_show_date :: "date \<Rightarrow> string"
  x_precondition_passes :: "date \<Rightarrow> date \<Rightarrow> bool"
  x_is_modified :: "date \<Rightarrow> date \<Rightarrow> bool"
  x_if_range_modified :: "string \<Rightarrow> date option \<Rightarrow> bool"
  x_content_range :: "u64 \<Rightarrow> u64 \<Rightarrow> u64 \<Rightarrow> string option"
    \<comment> \<open>\<open>ContentRange::bytes(start..end, len)\<close>\<close>
  x_bytes_capacity :: "nat \<Rightarrow> nat"
    \<comment> \<open>the capacity that \<open>BytesMut::with_capacity\<close> allocates\<close>
  x_bytes_grow :: "nat \<Rightarrow> nat \<Rightarrow> nat"
    \<comment> \<open>the capacity after a write that did not fit\<close>
  x_basic_credentials :: "string list \<Rightarrow> (string \<times> string) option"
    \<comment> \<open>the typed \<open>Authorization<Basic>\<close>\<close>
  x_bcrypt_verify :: "string \<Rightarrow> string \<Rightarrow> bool option"
  x_parse_quality :: "string \<Rightarrow> nat option"
    \<comment> \<open>\<open>parse::<f32>\<close> then \<open>(q * 1000) as u16\<close>\<close>
  x_glob_match :: "string \<Rightarrow> string \<Rightarrow> bool"
    \<comment> \<open>\<open>GlobMatcher::is_match\<close>: pattern, path\<close>
  x_glob_valid :: "string \<Rightarrow> bool"
  x_regex_valid :: "string \<Rightarrow> bool"
  x_regex_captures :: "string \<Rightarrow> string \<Rightarrow> string option list option"
    \<comment> \<open>\<open>Regex::captures\<close>: the groups, the whole match first\<close>
  x_replace_all :: "string list \<Rightarrow> string \<Rightarrow> string list \<Rightarrow> string option"
    \<comment> \<open>\<open>AhoCorasick::new(patterns)\<close> and \<open>replace_all\<close>\<close>
  x_method_from_bytes :: "string \<Rightarrow> string option"
  x_header_name :: "string \<Rightarrow> string option"
    \<comment> \<open>\<open>HeaderName::from_bytes\<close>: the lower-case name\<close>
  x_origin_parts :: "string \<Rightarrow> string \<Rightarrow> string option"
    \<comment> \<open>\<open>Origin::try_from_parts(scheme, rest, None)\<close> printed\<close>
  x_parse_uri :: "string \<Rightarrow> uri option"
  x_uri_parts :: "string \<Rightarrow> uri_parts option"
    \<comment> \<open>\<open>parse::<Uri>\<close> then \<open>into_parts\<close>\<close>
  x_uri_from_parts :: "uri_parts \<Rightarrow> uri option"
  x_uri_path_and_query :: "uri \<Rightarrow> string option"
  x_parse_path_and_query :: "string \<Rightarrow> string option"
  x_path_query :: "string \<Rightarrow> string option"
    \<comment> \<open>\<open>PathAndQuery::query\<close>\<close>
  x_host_name :: "string list \<Rightarrow> string option"
    \<comment> \<open>the host name of the typed \<open>Host\<close>\<close>
  x_uri_str :: "uri \<Rightarrow> string"
  x_parse_ip :: "string \<Rightarrow> string option"
  x_unicode_lower :: "string \<Rightarrow> string"
  x_form_parse :: "string \<Rightarrow> (string \<times> string) list"
    \<comment> \<open>\<open>form_urlencoded::parse\<close>\<close>
  x_pct_encode :: "string \<Rightarrow> string"
    \<comment> \<open>\<open>percent_encode\<close> with the path set of the listing\<close>
  x_html_escape :: "string \<Rightarrow> string"
    \<comment> \<open>the escaping of \<open>maud\<close> in text and attributes\<close>
  x_format_local :: "int \<Rightarrow> string"
    \<comment> \<open>the local date of a listing\<close>
  x_format_utc :: "int \<Rightarrow> string"
  x_json_string :: "string \<Rightarrow> string"
    \<comment> \<open>a string as \<open>serde_json\<close> writes it\<close>
  x_format_kib :: "u64 \<Rightarrow> string"
    \<comment> \<open>\<open>{:.2}\<close> of the number divided by 1024 as a float\<close>
  x_tar_append :: "string \<Rightarrow> string \<Rightarrow> bool"
    \<comment> \<open>whether \<open>append_dir\<close> or \<open>append_path_with_name\<close> succeeds: name in the archive, source\<close>

definition demo_mime :: "string \<Rightarrow> mime option" where
  "demo_mime s =
     (let e = (case split_once (CHR '';'') s of Some (a, _) \<Rightarrow> a | None \<Rightarrow> s)
      in map_option (\<lambda>(t, _). \<lparr>mm_type = t, mm_essence = e, mm_suffix = None,
           mm_charset = (if str_contains ''charset='' s then Some ''utf-8'' else None)\<rparr>)
         (split_once (CHR ''/'') e))"

definition demo_uri :: "string \<Rightarrow> uri" where
  "demo_uri p = \<lparr>uri_scheme = None, uri_authority = None, uri_host = None, uri_port = None,
     uri_path = p, uri_query = None\<rparr>"

definition demo_parse_uri :: "string \<Rightarrow> uri" where
  "demo_parse_uri s =
     (case strip_prefix ''http://'' s of
        None \<Rightarrow> demo_uri s
      | Some rest \<Rightarrow>
          (case split_once (CHR ''/'') rest of
             Some (a, p) \<Rightarrow> (demo_uri (''/'' @ p))\<lparr>uri_scheme := Some ''http'', uri_authority := Some a, uri_host := Some a\<rparr>
           | None \<Rightarrow> (demo_uri ''/'')\<lparr>uri_scheme := Some ''http'', uri_authority := Some rest, uri_host := Some rest\<rparr>))"

definition demo_ext :: ext where
  "demo_ext = \<lparr>
     x_pct_decode = (\<lambda>s. s),
     x_header_str = Some,
     x_header_value = Some,
     x_header_bytes = Some,
     x_mime_from_path = (\<lambda>p. if suffix ''.html'' p then ''text/html'' else ''application/octet-stream''),
     x_parse_mime = demo_mime,
     x_content_type = (\<lambda>vs. case vs of [] \<Rightarrow> None | v # _ \<Rightarrow> demo_mime v),
     x_canonical_reason = (\<lambda>n. if n = 404 then Some ''Not Found'' else None),
     x_if_modified_since = (\<lambda>vs. if vs = [] then None else Some 10),
     x_if_unmodified_since = (\<lambda>vs. if vs = [] then None else Some 10),
     x_if_range = (\<lambda>vs. case vs of [] \<Rightarrow> None | v # _ \<Rightarrow> Some v),
     x_range = (\<lambda>vs. if vs = [''bytes=1-2''] then Some [(Included 1, Included 2)]
                     else if vs = [''bytes=10-20''] then Some [(Included 10, Included 20)] else None),
     x_last_modified = (\<lambda>t. t),
     x_show_date = (\<lambda>d. show_nat (nat d)),
     x_precondition_passes = (\<lambda>since d. d \<le> since),
     x_is_modified = (\<lambda>since d. since < d),
     x_if_range_modified = (\<lambda>v d. True),
     x_content_range = (\<lambda>a b n. Some (''bytes '' @ show_nat (unat a) @ ''-'' @ show_nat (unat (b - 1))
                          @ ''/'' @ show_nat (unat n))),
     x_bytes_capacity = (\<lambda>n. n),
     x_bytes_grow = max,
     x_basic_credentials = (\<lambda>vs. if vs = [''Basic anE6anE=''] then Some (''jq'', ''jq'') else None),
     x_bcrypt_verify = (\<lambda>p h. if h = '''' then None else Some (h = ''hash:'' @ p)),
     x_parse_quality = (\<lambda>s. if s = ''0'' then Some 0 else if s = ''0.5'' then Some 500
                          else if s = ''1'' then Some 1000 else None),
     x_glob_match = (\<lambda>g p. g = ''**'' \<or> g = p),
     x_glob_valid = (\<lambda>g. g \<noteq> ''[''),
     x_regex_valid = (\<lambda>r. r \<noteq> ''(''),
     x_regex_captures = (\<lambda>r s. if r = s then Some [Some s] else None),
     x_replace_all = (\<lambda>ps s rs. Some (fold (\<lambda>(p, r) t. str_replace p r t) (zip ps rs) s)),
     x_method_from_bytes = (\<lambda>s. if s = [] then None else Some s),
     x_header_name = (\<lambda>s. if s = [] then None else Some (to_ascii_lowercase s)),
     x_origin_parts = (\<lambda>s r. Some (s @ ''://'' @ r)),
     x_parse_uri = (\<lambda>s. Some (demo_parse_uri s)),
     x_uri_parts = (\<lambda>s. Some \<lparr>up_scheme = None, up_authority = None, up_path_and_query = Some s\<rparr>),
     x_uri_from_parts = (\<lambda>p. map_option demo_uri (up_path_and_query p)),
     x_uri_path_and_query = (\<lambda>u. Some (uri_path u)),
     x_parse_path_and_query = Some,
     x_path_query = (\<lambda>s. map_option snd (split_once (CHR 0x3F) s)),
     x_host_name = (\<lambda>vs. case vs of [] \<Rightarrow> None | v # _ \<Rightarrow> Some v),
     x_uri_str = uri_path,
     x_parse_ip = (\<lambda>s. if s = [] then None else Some s),
     x_unicode_lower = to_ascii_lowercase,
     x_form_parse = (\<lambda>s. case split_once (CHR ''='') s of None \<Rightarrow> [(s, [])] | Some (k, v) \<Rightarrow> [(k, v)]),
     x_pct_encode = (\<lambda>s. s),
     x_html_escape = (\<lambda>s. s),
     x_format_local = (\<lambda>t. show_nat (nat t)),
     x_format_utc = (\<lambda>t. show_nat (nat t)),
     x_json_string = (\<lambda>s. [CHR 0x22] @ s @ [CHR 0x22]),
     x_format_kib = (\<lambda>n. show_nat (unat n)),
     x_tar_append = (\<lambda>d s. True) \<rparr>"

lemma demo_ext_simps [simp]:
  "x_pct_decode demo_ext = (\<lambda>s. s)"
  "x_header_str demo_ext = Some"
  "x_header_value demo_ext = Some"
  "x_header_bytes demo_ext = Some"
  "x_mime_from_path demo_ext = (\<lambda>p. if suffix ''.html'' p then ''text/html'' else ''application/octet-stream'')"
  "x_parse_mime demo_ext = demo_mime"
  "x_content_type demo_ext = (\<lambda>vs. case vs of [] \<Rightarrow> None | v # _ \<Rightarrow> demo_mime v)"
  "x_canonical_reason demo_ext = (\<lambda>n. if n = 404 then Some ''Not Found'' else None)"
  "x_if_modified_since demo_ext = (\<lambda>vs. if vs = [] then None else Some 10)"
  "x_if_unmodified_since demo_ext = (\<lambda>vs. if vs = [] then None else Some 10)"
  "x_if_range demo_ext = (\<lambda>vs. case vs of [] \<Rightarrow> None | v # _ \<Rightarrow> Some v)"
  "x_range demo_ext = (\<lambda>vs. if vs = [''bytes=1-2''] then Some [(Included 1, Included 2)]
                     else if vs = [''bytes=10-20''] then Some [(Included 10, Included 20)] else None)"
  "x_last_modified demo_ext = (\<lambda>t. t)"
  "x_show_date demo_ext = (\<lambda>d. show_nat (nat d))"
  "x_precondition_passes demo_ext = (\<lambda>since d. d \<le> since)"
  "x_is_modified demo_ext = (\<lambda>since d. since < d)"
  "x_if_range_modified demo_ext = (\<lambda>v d. True)"
  "x_content_range demo_ext = (\<lambda>a b n. Some (''bytes '' @ show_nat (unat a) @ ''-'' @ show_nat (unat (b - 1))
                          @ ''/'' @ show_nat (unat n)))"
  "x_bytes_capacity demo_ext = (\<lambda>n. n)"
  "x_bytes_grow demo_ext = max"
  "x_basic_credentials demo_ext = (\<lambda>vs. if vs = [''Basic anE6anE=''] then Some (''jq'', ''jq'') else None)"
  "x_bcrypt_verify demo_ext = (\<lambda>p h. if h = '''' then None else Some (h = ''hash:'' @ p))"
  "x_parse_quality demo_ext = (\<lambda>s. if s = ''0'' then Some 0 else if s = ''0.5'' then Some 500
                          else if s = ''1'' then Some 1000 else None)"
  "x_glob_match demo_ext = (\<lambda>g p. g = ''**'' \<or> g = p)"
  "x_glob_valid demo_ext = (\<lambda>g. g \<noteq> ''['')"
  "x_regex_valid demo_ext = (\<lambda>r. r \<noteq> ''('')"
  "x_regex_captures demo_ext = (\<lambda>r s. if r = s then Some [Some s] else None)"
  "x_replace_all demo_ext = (\<lambda>ps s rs. Some (fold (\<lambda>(p, r) t. str_replace p r t) (zip ps rs) s))"
  "x_method_from_bytes demo_ext = (\<lambda>s. if s = [] then None else Some s)"
  "x_header_name demo_ext = (\<lambda>s. if s = [] then None else Some (to_ascii_lowercase s))"
  "x_origin_parts demo_ext = (\<lambda>s r. Some (s @ ''://'' @ r))"
  "x_parse_uri demo_ext = (\<lambda>s. Some (demo_parse_uri s))"
  "x_uri_parts demo_ext = (\<lambda>s. Some \<lparr>up_scheme = None, up_authority = None, up_path_and_query = Some s\<rparr>)"
  "x_uri_from_parts demo_ext = (\<lambda>p. map_option demo_uri (up_path_and_query p))"
  "x_uri_path_and_query demo_ext = (\<lambda>u. Some (uri_path u))"
  "x_parse_path_and_query demo_ext = Some"
  "x_path_query demo_ext = (\<lambda>s. map_option snd (split_once (CHR 0x3F) s))"
  "x_host_name demo_ext = (\<lambda>vs. case vs of [] \<Rightarrow> None | v # _ \<Rightarrow> Some v)"
  "x_uri_str demo_ext = uri_path"
  "x_parse_ip demo_ext = (\<lambda>s. if s = [] then None else Some s)"
  "x_unicode_lower demo_ext = to_ascii_lowercase"
  "x_form_parse demo_ext = (\<lambda>s. case split_once (CHR ''='') s of None \<Rightarrow> [(s, [])] | Some (k, v) \<Rightarrow> [(k, v)])"
  "x_pct_encode demo_ext = (\<lambda>s. s)"
  "x_html_escape demo_ext = (\<lambda>s. s)"
  "x_format_local demo_ext = (\<lambda>t. show_nat (nat t))"
  "x_format_utc demo_ext = (\<lambda>t. show_nat (nat t))"
  "x_json_string demo_ext = (\<lambda>s. [CHR 0x22] @ s @ [CHR 0x22])"
  "x_format_kib demo_ext = (\<lambda>n. show_nat (unat n))"
  "x_tar_append demo_ext = (\<lambda>d s. True)"
  by (simp_all add: demo_ext_def)

text \<open>\<open>HeaderMapExt::typed_get\<close> decodes all the values of a name.\<close>

definition typed_get :: "(string list \<Rightarrow> 'a option) \<Rightarrow> string \<Rightarrow> headers \<Rightarrow> 'a option" where
  "typed_get decode name h = (if hget_all name h = [] then None else decode (hget_all name h))"

end
