(* ===== verification/Paths.thy ===== *)
theory Paths
  imports Prelude
begin

text \<open>
  \<open>std::path\<close> on Unix, over the bytes of the path: components, push, parent, file name,
  prefix tests. A path is the byte string that the code holds; \<open>components\<close> is its meaning.
\<close>

type_synonym path = string

datatype component = RootDir | CurDir | ParentDir | Normal string

section \<open>Components\<close>

definition seg_component :: "string \<Rightarrow> component option" where
  "seg_component s =
     (if s = [] \<or> s = ''.'' then None else if s = ''..'' then Some ParentDir else Some (Normal s))"

definition has_root :: "path \<Rightarrow> bool" where
  "has_root p = (p \<noteq> [] \<and> hd p = CHR ''/'')"

text \<open>A leading \<open>.\<close> of a relative path is a component, the other ones are dropped.\<close>

definition starts_cur_dir :: "path \<Rightarrow> bool" where
  "starts_cur_dir p = (\<not> has_root p \<and> hd (split_on (CHR ''/'') p) = ''.'')"

definition components :: "path \<Rightarrow> component list" where
  "components p =
     (if has_root p then [RootDir] else if starts_cur_dir p then [CurDir] else [])
     @ List.map_filter seg_component (split_on (CHR ''/'') p)"

definition is_normal_name :: "string \<Rightarrow> bool" where
  "is_normal_name s = (s \<noteq> [] \<and> s \<noteq> ''.'' \<and> s \<noteq> ''..'' \<and> CHR ''/'' \<notin> set s)"

definition is_normal :: "component \<Rightarrow> bool" where
  "is_normal c = (case c of Normal s \<Rightarrow> True | _ \<Rightarrow> False)"

definition normal_names :: "component list \<Rightarrow> string list" where
  "normal_names cs = List.map_filter (\<lambda>c. case c of Normal s \<Rightarrow> Some s | _ \<Rightarrow> None) cs"

section \<open>Operations\<close>

definition path_push :: "path \<Rightarrow> path \<Rightarrow> path" where
  "path_push p q =
     (if has_root q then q
      else if p \<noteq> [] \<and> last p \<noteq> CHR ''/'' then p @ ''/'' @ q else p @ q)"

definition path_file_name :: "path \<Rightarrow> string option" where
  "path_file_name p =
     (case rev (components p) of Normal s # _ \<Rightarrow> Some s | _ \<Rightarrow> None)"

text \<open>
  \<open>parent\<close> cuts the last component and the separators and dots before it; the start of
  the path (its root, or its leading dot) is kept apart, as in the iterator of the library.
\<close>

definition skip_seg :: "string \<Rightarrow> bool" where
  "skip_seg s = (s = [] \<or> s = ''.'')"

definition drop_skipped :: "string list \<Rightarrow> string list" where
  "drop_skipped ss = rev (dropWhile skip_seg (rev ss))"

definition before_body :: "path \<Rightarrow> nat" where
  "before_body p = (if has_root p \<or> starts_cur_dir p then 1 else 0)"

definition path_parent :: "path \<Rightarrow> path option" where
  "path_parent p =
     (let start = take (before_body p) p;
          segs = drop_skipped (split_on (CHR ''/'') (drop (before_body p) p))
      in if segs = [] then (if starts_cur_dir p then Some [] else None)
         else Some (start @ join ''/'' (drop_skipped (butlast segs))))"

definition path_pop :: "path \<Rightarrow> path" where
  "path_pop p = (case path_parent p of Some q \<Rightarrow> q | None \<Rightarrow> p)"

definition set_file_name :: "path \<Rightarrow> string \<Rightarrow> path" where
  "set_file_name p name = path_push (if path_file_name p \<noteq> None then path_pop p else p) name"

definition path_starts_with :: "path \<Rightarrow> path \<Rightarrow> bool" where
  "path_starts_with p base = prefix (components base) (components p)"

text \<open>
  \<open>strip_prefix\<close>: the components after the base; the code only looks at the components of the
  result, so it is written back with single separators.
\<close>

definition component_str :: "component \<Rightarrow> string" where
  "component_str c =
     (case c of RootDir \<Rightarrow> [] | CurDir \<Rightarrow> ''.'' | ParentDir \<Rightarrow> ''..'' | Normal s \<Rightarrow> s)"

definition path_strip_prefix :: "path \<Rightarrow> path \<Rightarrow> path option" where
  "path_strip_prefix p base =
     (if path_starts_with p base
      then Some (join ''/'' (map component_str (drop (length (components base)) (components p))))
      else None)"

text \<open>\<open>extension\<close>: what follows the last dot of the file name, unless the name starts with it.\<close>

definition path_extension :: "path \<Rightarrow> string option" where
  "path_extension p =
     (case path_file_name p of
        None \<Rightarrow> None
      | Some n \<Rightarrow>
          (case rsplit_once (CHR ''.'') n of
             None \<Rightarrow> None
           | Some (a, b) \<Rightarrow> if a = [] then None else Some b))"

text \<open>\<open>with_extension\<close>.\<close>

definition path_with_extension :: "path \<Rightarrow> string \<Rightarrow> path" where
  "path_with_extension p e =
     (case path_file_name p of
        None \<Rightarrow> p
      | Some n \<Rightarrow>
          set_file_name p
            ((case rsplit_once (CHR ''.'') n of Some (a, _) \<Rightarrow> if a = [] then n else a | None \<Rightarrow> n) @ ''.'' @ e))"

section \<open>Laws\<close>

lemma map_filter_append [simp]:
  "List.map_filter f (xs @ ys) = List.map_filter f xs @ List.map_filter f ys"
  by (induction xs) (auto simp: List.map_filter_def)

lemma map_filter_simps:
  "List.map_filter f [] = []"
  "List.map_filter f (x # xs) = (case f x of None \<Rightarrow> [] | Some y \<Rightarrow> [y]) @ List.map_filter f xs"
  by (auto simp: List.map_filter_def split: option.split)

lemma split_on_append_sep: "split_on c (xs @ c # ys) = split_on c xs @ split_on c ys"
  by (induction xs) (auto split: list.splits)

lemma split_on_snoc_sep: "xs \<noteq> [] \<Longrightarrow> last xs = c \<Longrightarrow>
  split_on c (xs @ ys) = split_on c (butlast xs) @ split_on c ys"
  using split_on_append_sep [of c "butlast xs" ys] by (metis append_Cons append_Nil append_assoc append_butlast_last_id)

lemma seg_component_normal: "is_normal_name s \<Longrightarrow> seg_component s = Some (Normal s)"
  by (simp add: seg_component_def is_normal_name_def)

lemma components_normal_name: "is_normal_name s \<Longrightarrow> components s = [Normal s]"
  by (cases s)
    (auto simp: components_def has_root_def starts_cur_dir_def is_normal_name_def split_on_single
      map_filter_simps seg_component_def)

lemma components_Nil [simp]: "components [] = []"
  by (simp add: components_def has_root_def starts_cur_dir_def map_filter_simps seg_component_def)

lemma hd_split_on_append:
  "c \<in> set xs \<Longrightarrow> hd (split_on c (xs @ ys)) = hd (split_on c xs)"
  by (induction xs) (auto split: list.splits)

text \<open>Pushing a plain name appends exactly one component.\<close>

lemma components_push:
  assumes "is_normal_name s"
  shows "components (path_push p s) = components p @ [Normal s]"
proof -
  have s: "s \<noteq> []" "\<not> has_root s" "split_on (CHR ''/'') s = [s]" "seg_component s = Some (Normal s)"
    using assms by (auto simp: is_normal_name_def has_root_def split_on_single seg_component_normal
        neq_Nil_conv)
  consider (nil) "p = []" | (sep) "p \<noteq> []" "last p = CHR ''/''" | (plain) "p \<noteq> []" "last p \<noteq> CHR ''/''"
    by blast
  then show ?thesis
  proof cases
    case nil
    with s assms show ?thesis by (simp add: path_push_def components_normal_name)
  next
    case sep
    have r: "has_root (p @ s) = has_root p" using sep by (simp add: has_root_def)
    have "hd (split_on (CHR ''/'') (p @ s)) = hd (split_on (CHR ''/'') p)"
      using sep by (intro hd_split_on_append) (metis last_in_set)
    then have c: "starts_cur_dir (p @ s) = starts_cur_dir p" by (simp add: starts_cur_dir_def r)
    have "split_on (CHR ''/'') (p @ s) = split_on (CHR ''/'') (butlast p) @ [s]"
      using split_on_snoc_sep [OF sep] s by simp
    moreover have "split_on (CHR ''/'') p = split_on (CHR ''/'') (butlast p) @ [[]]"
      using split_on_snoc_sep [OF sep, of "[]"] by simp
    ultimately show ?thesis
      using sep s r c
      by (simp add: path_push_def components_def map_filter_simps) (simp add: seg_component_def)
  next
    case plain
    have r: "has_root (p @ ''/'' @ s) = has_root p" using plain by (simp add: has_root_def)
    have sp: "split_on (CHR ''/'') (p @ ''/'' @ s) = split_on (CHR ''/'') p @ [s]"
      using split_on_append_sep [of "CHR ''/''" p s] s by simp
    then have c: "starts_cur_dir (p @ ''/'' @ s) = starts_cur_dir p"
      using r by (simp add: starts_cur_dir_def hd_append)
    show ?thesis using plain s r c sp by (simp add: path_push_def components_def map_filter_simps)
  qed
qed

lemma components_push_names:
  "\<forall>n \<in> set ns. is_normal_name n \<Longrightarrow> components (fold (\<lambda>n p. path_push p n) ns p) = components p @ map Normal ns"
  by (induction ns arbitrary: p) (auto simp: components_push)

text \<open>The names among the components of any path are plain names.\<close>

lemma components_names: "Normal n \<in> set (components p) \<Longrightarrow> is_normal_name n"
  using split_on_no_sep [of _ "CHR ''/''" p]
  by (auto simp: components_def List.map_filter_def seg_component_def is_normal_name_def
      split: if_splits)

lemma file_name_normal: "path_file_name p = Some n \<Longrightarrow> is_normal_name n"
proof -
  assume "path_file_name p = Some n"
  then obtain cs where "rev (components p) = Normal n # cs"
    by (auto simp: path_file_name_def split: list.splits component.splits)
  then have "Normal n \<in> set (components p)" by (metis list.set_intros(1) set_rev)
  then show ?thesis by (rule components_names)
qed

lemma components_starts_with_push:
  "is_normal_name s \<Longrightarrow> path_starts_with (path_push p s) p"
  by (simp add: path_starts_with_def components_push)

lemma file_name_push: "is_normal_name s \<Longrightarrow> path_file_name (path_push p s) = Some s"
  by (simp add: path_file_name_def components_push)

section \<open>Where a path leads\<close>

text \<open>The components that count: \<open>pop\<close> and \<open>set_file_name\<close> may drop dots and doubled separators.\<close>

definition real_components :: "path \<Rightarrow> component list" where
  "real_components p = filter (\<lambda>c. c \<noteq> CurDir) (components p)"

lemma map_filter_segs: "filter (\<lambda>c. c \<noteq> CurDir) (List.map_filter seg_component ss) = List.map_filter seg_component ss"
  by (induction ss) (auto simp: map_filter_simps seg_component_def)

lemma real_components_split:
  "real_components p = (if has_root p then [RootDir] else []) @ List.map_filter seg_component (split_on (CHR ''/'') p)"
  by (simp add: real_components_def components_def map_filter_segs)

lemma drop_skipped_prefix: "prefix (drop_skipped ss) ss"
  using suffix_dropWhile [of skip_seg "rev ss"] by (metis drop_skipped_def rev_rev_ident suffix_to_prefix)

lemma map_filter_seg_rev: "List.map_filter f (rev xs) = rev (List.map_filter f xs)"
  by (induction xs) (auto simp: map_filter_simps split: option.split)

lemma map_filter_drop_skipped: "List.map_filter seg_component (drop_skipped ss) = List.map_filter seg_component ss"
proof -
  have "List.map_filter seg_component (dropWhile skip_seg xs) = List.map_filter seg_component xs" for xs
    by (induction xs) (auto simp: map_filter_simps seg_component_def skip_seg_def)
  then show ?thesis by (simp add: drop_skipped_def map_filter_seg_rev)
qed

lemma drop_skipped_last: "drop_skipped ss \<noteq> [] \<Longrightarrow> \<not> skip_seg (last (drop_skipped ss))"
  by (metis drop_skipped_def hd_dropWhile last_rev rev_is_Nil_conv rev_rev_ident)

lemma map_filter_butlast:
  assumes "ss \<noteq> []" "f (last ss) = Some c"
  shows "List.map_filter f (butlast ss) = butlast (List.map_filter f ss)"
  using assms by (induction ss rule: rev_induct) (auto simp: map_filter_simps)

lemma real_components_join:
  assumes "\<forall>s \<in> set ss. CHR ''/'' \<notin> set s"
  shows "List.map_filter seg_component (split_on (CHR ''/'') (join ''/'' ss)) = List.map_filter seg_component ss"
  using assms split_on_join [of ss "CHR ''/''"] by (cases "ss = []") (auto simp: map_filter_simps seg_component_def)

text \<open>The body of a path, after its root or its leading dot, and what \<open>parent\<close> makes of it.\<close>

lemma real_components_body:
  "real_components p = (if has_root p then [RootDir] else []) @
     List.map_filter seg_component (split_on (CHR ''/'') (drop (before_body p) p))"
proof (cases p)
  case (Cons x q)
  obtain y ys where q: "split_on (CHR ''/'') q = y # ys" by (cases "split_on (CHR ''/'') q") auto
  show ?thesis
    using Cons q
    by (cases "x = CHR ''/''"; cases "y = []")
      (auto simp: real_components_split before_body_def starts_cur_dir_def has_root_def map_filter_simps seg_component_def)
qed (simp add: real_components_split before_body_def starts_cur_dir_def has_root_def)

lemma drop_skipped_set: "set (drop_skipped ss) \<subseteq> set ss"
  by (rule set_mono_prefix [OF drop_skipped_prefix])

lemma drop_skipped_butlast_hd:
  assumes "drop_skipped (butlast (drop_skipped ss)) = x # xs"
  shows "x = hd ss" "drop_skipped (butlast (drop_skipped ss)) \<noteq> [[]]"
proof -
  let ?T = "drop_skipped (butlast (drop_skipped ss))"
  have "prefix ?T ss"
    by (rule prefix_order.trans [OF drop_skipped_prefix prefix_order.trans [OF prefixeq_butlast drop_skipped_prefix]])
  with assms show "x = hd ss" by (cases ss) auto
  show "?T \<noteq> [[]]" using drop_skipped_last [of "butlast (drop_skipped ss)"] by (auto simp: skip_seg_def)
qed

lemma real_components_rebuilt:
  assumes "T = drop_skipped (butlast (drop_skipped (split_on (CHR ''/'') (drop (before_body p) p))))"
  shows "real_components (take (before_body p) p @ join ''/'' T) =
    (if has_root p then [RootDir] else []) @ List.map_filter seg_component T"
proof -
  let ?ss = "split_on (CHR ''/'') (drop (before_body p) p)"
  have sep: "\<forall>s \<in> set T. CHR ''/'' \<notin> set s"
  proof
    fix s assume "s \<in> set T"
    then have "s \<in> set ?ss"
      using assms drop_skipped_set [of "butlast (drop_skipped ?ss)"] drop_skipped_set [of ?ss]
      by (auto dest: in_set_butlastD)
    then show "CHR ''/'' \<notin> set s" by (rule split_on_no_sep)
  qed
  note j = real_components_join [OF sep]
  have T: "T \<noteq> [] \<Longrightarrow> hd T = hd ?ss" "T \<noteq> [[]]"
    using drop_skipped_butlast_hd [of ?ss] unfolding assms [symmetric]
    by (metis list.exhaust_sel) (metis drop_skipped_butlast_hd(2) assms list.distinct(1))
  show ?thesis
  proof (cases p)
    case Nil
    with assms have "T = []" by (simp add: before_body_def starts_cur_dir_def has_root_def drop_skipped_def skip_seg_def)
    with Nil show ?thesis by (simp add: real_components_split has_root_def before_body_def starts_cur_dir_def map_filter_simps seg_component_def)
  next
    case (Cons x q)
    show ?thesis
    proof (cases "x = CHR ''/''")
      case True
      with Cons j show ?thesis
        by (simp add: real_components_split before_body_def has_root_def map_filter_simps seg_component_def)
    next
      case False
      obtain y ys where q: "split_on (CHR ''/'') q = y # ys" by (cases "split_on (CHR ''/'') q") auto
      have r: "\<not> has_root p" using False Cons by (simp add: has_root_def)
      show ?thesis
      proof (cases "starts_cur_dir p")
        case True
        with Cons False q r have y: "y = []" "x = CHR ''.''" by (auto simp: starts_cur_dir_def)
        have ss: "?ss = [] # ys" using Cons True q y by (simp add: before_body_def)
        have h: "hd (split_on (CHR ''/'') (join ''/'' T)) = []"
        proof (cases "T = []")
          case nonempty: False
          then show ?thesis using T(1) ss split_on_join [OF nonempty sep] by simp
        qed simp
        then obtain zs where z: "split_on (CHR ''/'') (join ''/'' T) = [] # zs"
          by (cases "split_on (CHR ''/'') (join ''/'' T)") auto
        from j z r show ?thesis
          using Cons True y False
          by (simp add: real_components_split before_body_def has_root_def map_filter_simps seg_component_def)
      next
        case nc: False
        then have ss: "?ss = split_on (CHR ''/'') p" using r by (simp add: before_body_def)
        have "\<not> has_root (join ''/'' T)"
        proof (cases T)
          case (Cons t ts)
          with T(1) ss q \<open>p = x # q\<close> False have t: "t = x # y" by simp
          show ?thesis using False unfolding Cons t has_root_def by (cases ts) simp_all
        qed (simp add: has_root_def)
        with j r nc show ?thesis by (simp add: real_components_split before_body_def)
      qed
    qed
  qed
qed

lemma real_components_parent:
  assumes "path_file_name p = Some f"
  shows "real_components (path_pop p) = butlast (real_components p)"
proof -
  let ?segs = "drop_skipped (split_on (CHR ''/'') (drop (before_body p) p))"
  let ?M = "List.map_filter seg_component ?segs"
  obtain cs where "rev (components p) = Normal f # cs"
    using assms by (auto simp: path_file_name_def split: list.splits component.splits)
  then have "Normal f \<in> set (real_components p)"
    by (auto simp: real_components_def simp flip: set_rev [of "components p"])
  then have M: "?M \<noteq> []"
    by (auto simp: real_components_body map_filter_drop_skipped split: if_splits)
  then have ne: "?segs \<noteq> []" by (auto simp: map_filter_simps)
  obtain c where c: "seg_component (last ?segs) = Some c"
    using drop_skipped_last [OF ne] by (cases "seg_component (last ?segs)") (auto simp: skip_seg_def seg_component_def split: if_splits)
  have pop: "path_pop p = take (before_body p) p @ join ''/'' (drop_skipped (butlast ?segs))"
    using ne by (simp add: path_pop_def path_parent_def Let_def)
  have "real_components (path_pop p) = (if has_root p then [RootDir] else []) @ butlast ?M"
    unfolding pop real_components_rebuilt [OF refl] map_filter_drop_skipped
    by (simp add: map_filter_butlast [of _ seg_component, OF ne c] map_filter_drop_skipped)
  also have "\<dots> = butlast (real_components p)"
    using M by (simp add: real_components_body map_filter_drop_skipped butlast_append)
  finally show ?thesis .
qed

lemma real_components_push:
  "is_normal_name n \<Longrightarrow> real_components (path_push p n) = real_components p @ [Normal n]"
  by (simp add: real_components_def components_push)

lemma real_components_pop_push:
  "is_normal_name n \<Longrightarrow> real_components (path_pop (path_push p n)) = real_components p"
  by (simp add: real_components_parent [OF file_name_push] real_components_push)

lemma real_components_set_file_name:
  "path_file_name p = Some f \<Longrightarrow> is_normal_name n \<Longrightarrow>
   real_components (set_file_name p n) = butlast (real_components p) @ [Normal n]"
  by (simp add: set_file_name_def real_components_push real_components_parent)

end
