(* ===== verification/FS.thy ===== *)
theory FS
  imports Paths
begin

text \<open>
  The file system that a request sees: a tree of nodes, path resolution with symbolic links as the
  operating system does it, and the \<open>std::fs\<close> calls the gateway makes (\<open>metadata\<close>,
  \<open>symlink_metadata\<close>, \<open>canonicalize\<close>, \<open>exists\<close>, \<open>is_file\<close>, \<open>read\<close>, \<open>File::open\<close>,
  \<open>read_dir\<close>). One request is handled against one snapshot of the tree.
\<close>

type_synonym names = "string list"

datatype open_error = Open_NotFound | Open_PermissionDenied | Open_Other

datatype fs_error = ENOENT | ENOTDIR | ELOOP | EACCES

datatype file_kind = Regular string | Directory | Symlink path | Special

text \<open>
  A node: its kind (with the content of a regular file, the target of a link), its
  modification time in seconds since the epoch if there is one, the block size the system
  reports, what opening it answers and the error that reading meets at the end.
\<close>

record inode =
  nd_kind :: file_kind
  nd_modified :: "int option"
  nd_blksize :: nat
  nd_open :: "open_error option"
  nd_read_err :: "string option"

record fs =
  fs_nodes :: "(names \<times> inode) list"
  fs_cwd :: names

definition root_inode :: inode where
  "root_inode = \<lparr>nd_kind = Directory, nd_modified = Some 0, nd_blksize = 4096, nd_open = None,
     nd_read_err = None\<rparr>"

definition fs_lookup :: "fs \<Rightarrow> names \<Rightarrow> inode option" where
  "fs_lookup F ns = (if ns = [] then Some root_inode else map_of (fs_nodes F) ns)"

definition is_dir_node :: "inode \<Rightarrow> bool" where
  "is_dir_node nd = (nd_kind nd = Directory)"

definition is_dir_at :: "fs \<Rightarrow> names \<Rightarrow> bool" where
  "is_dir_at F ns = (case fs_lookup F ns of Some nd \<Rightarrow> is_dir_node nd | None \<Rightarrow> False)"

section \<open>Path resolution\<close>

definition seg_step :: "string \<Rightarrow> component" where
  "seg_step s = (if skip_seg s then CurDir else if s = ''..'' then ParentDir else Normal s)"

definition os_steps :: "path \<Rightarrow> component list" where
  "os_steps p = (if has_root p then [RootDir] else []) @ map seg_step (split_on (CHR ''/'') p)"

text \<open>
  The walk of the kernel: every step needs a directory to stand in; a symbolic link is replaced
  by the steps of its target (a final one only when links are followed), within a budget of links.
  The result is the budget left and the place reached.
\<close>

function walk :: "nat \<Rightarrow> fs \<Rightarrow> bool \<Rightarrow> names \<Rightarrow> component list \<Rightarrow> fs_error + (nat \<times> names)" where
  "walk k F fl cur [] = Inr (k, cur)"
| "walk k F fl cur (c # cs) =
     (if \<not> is_dir_at F cur then Inl ENOTDIR
      else case c of
        RootDir \<Rightarrow> walk k F fl [] cs
      | CurDir \<Rightarrow> walk k F fl cur cs
      | ParentDir \<Rightarrow> walk k F fl (butlast cur) cs
      | Normal n \<Rightarrow>
          (case fs_lookup F (cur @ [n]) of
             None \<Rightarrow> Inl ENOENT
           | Some nd \<Rightarrow>
               (case nd_kind nd of
                  Symlink t \<Rightarrow>
                    (if cs = [] \<and> \<not> fl then Inr (k, cur @ [n])
                     else if t = [] then Inl ENOENT
                     else case k of
                       0 \<Rightarrow> Inl ELOOP
                     | Suc k' \<Rightarrow> walk k' F fl cur (os_steps t @ cs))
                | _ \<Rightarrow> walk k F fl (cur @ [n]) cs)))"
  by pat_completeness auto
termination
  by (relation "measures [\<lambda>(k, F, fl, cur, cs). k, \<lambda>(k, F, fl, cur, cs). length cs]") auto

declare walk.simps(2) [simp del]

definition max_symlinks :: nat where
  "max_symlinks = 40"

definition resolve_with :: "bool \<Rightarrow> fs \<Rightarrow> path \<Rightarrow> fs_error + names" where
  "resolve_with fl F p =
     (if p = [] then Inl ENOENT
      else res_bind (walk max_symlinks F fl (fs_cwd F) (os_steps p)) (\<lambda>(k, ns). Inr ns))"

abbreviation resolve :: "fs \<Rightarrow> path \<Rightarrow> fs_error + names" where
  "resolve \<equiv> resolve_with True"

definition stat_with :: "bool \<Rightarrow> fs \<Rightarrow> path \<Rightarrow> fs_error + inode" where
  "stat_with fl F p =
     res_bind (resolve_with fl F p)
       (\<lambda>ns. case fs_lookup F ns of Some nd \<Rightarrow> Inr nd | None \<Rightarrow> Inl ENOENT)"

definition fs_metadata :: "fs \<Rightarrow> path \<Rightarrow> fs_error + inode" where
  "fs_metadata F p = stat_with True F p"

definition fs_symlink_metadata :: "fs \<Rightarrow> path \<Rightarrow> fs_error + inode" where
  "fs_symlink_metadata F p = stat_with False F p"

definition abs_path :: "names \<Rightarrow> path" where
  "abs_path ns = ''/'' @ join ''/'' ns"

definition fs_canonicalize :: "fs \<Rightarrow> path \<Rightarrow> fs_error + path" where
  "fs_canonicalize F p = res_bind (resolve F p) (\<lambda>ns. Inr (abs_path ns))"

definition fs_exists :: "fs \<Rightarrow> path \<Rightarrow> bool" where
  "fs_exists F p = is_ok (fs_metadata F p)"

definition is_regular :: "inode \<Rightarrow> bool" where
  "is_regular nd = (case nd_kind nd of Regular _ \<Rightarrow> True | _ \<Rightarrow> False)"

definition is_symlink :: "inode \<Rightarrow> bool" where
  "is_symlink nd = (case nd_kind nd of Symlink _ \<Rightarrow> True | _ \<Rightarrow> False)"

definition nd_content :: "inode \<Rightarrow> string" where
  "nd_content nd = (case nd_kind nd of Regular c \<Rightarrow> c | _ \<Rightarrow> [])"

text \<open>\<open>Metadata::len\<close>: the size of a regular file; the other kinds report one block.\<close>

definition nd_len :: "inode \<Rightarrow> nat" where
  "nd_len nd = (case nd_kind nd of Regular c \<Rightarrow> length c | _ \<Rightarrow> nd_blksize nd)"

definition fs_is_file :: "fs \<Rightarrow> path \<Rightarrow> bool" where
  "fs_is_file F p = (case fs_metadata F p of Inr nd \<Rightarrow> is_regular nd | Inl _ \<Rightarrow> False)"

definition fs_is_dir :: "fs \<Rightarrow> path \<Rightarrow> bool" where
  "fs_is_dir F p = (case fs_metadata F p of Inr nd \<Rightarrow> is_dir_node nd | Inl _ \<Rightarrow> False)"

definition fs_open :: "fs \<Rightarrow> path \<Rightarrow> open_error + inode" where
  "fs_open F p =
     (case fs_metadata F p of
        Inr nd \<Rightarrow> (case nd_open nd of Some e \<Rightarrow> Inl e | None \<Rightarrow> Inr nd)
      | Inl ENOENT \<Rightarrow> Inl Open_NotFound
      | Inl EACCES \<Rightarrow> Inl Open_PermissionDenied
      | Inl _ \<Rightarrow> Inl Open_Other)"

text \<open>\<open>fs::read\<close>: open and read to the end; a directory opens but does not read.\<close>

definition fs_read :: "fs \<Rightarrow> path \<Rightarrow> string option" where
  "fs_read F p =
     (case fs_open F p of
        Inr nd \<Rightarrow> (if is_regular nd \<and> nd_read_err nd = None then Some (nd_content nd) else None)
      | Inl _ \<Rightarrow> None)"

text \<open>The entries of a directory with their own metadata, and the error that ends the iteration, if any.\<close>

definition fs_read_dir :: "fs \<Rightarrow> path \<Rightarrow> open_error + ((string \<times> inode) list \<times> string option)" where
  "fs_read_dir F p =
     (case fs_open F p of
        Inl e \<Rightarrow> Inl e
      | Inr nd \<Rightarrow>
          (case resolve F p of
             Inl _ \<Rightarrow> Inl Open_Other
           | Inr ns \<Rightarrow>
               if \<not> is_dir_node nd then Inl Open_Other
               else Inr (List.map_filter
                 (\<lambda>(ms, nd'). if ms \<noteq> [] \<and> butlast ms = ns then Some (last ms, nd') else None) (fs_nodes F),
                 nd_read_err nd)))"

section \<open>Laws of the walk\<close>

lemma walk_append:
  "ds \<noteq> [] \<Longrightarrow>
   walk k F fl cur (cs @ ds) = res_bind (walk k F True cur cs) (\<lambda>(k', cur'). walk k' F fl cur' ds)"
proof (induction k F True cur cs arbitrary: fl rule: walk.induct)
  case (2 k F cur c cs)
  then show ?case
    by (simp add: walk.simps(2) [of k F _ cur c] split: component.split option.split file_kind.split nat.split)
qed simp

lemma walk_snoc_stay:
  "walk k F fl cur (cs @ [CurDir, Normal n]) = walk k F fl cur (cs @ [Normal n])"
  by (simp add: walk_append walk.simps(2) cong: if_cong)

lemma os_steps_push:
  assumes "is_normal_name n"
  shows "walk k F fl cur (os_steps (path_push p n)) = walk k F fl cur (os_steps p @ [Normal n])"
proof -
  have n: "\<not> has_root n" "split_on (CHR ''/'') n = [n]" "seg_step n = Normal n" "n \<noteq> []"
    using assms by (auto simp: is_normal_name_def has_root_def split_on_single seg_step_def skip_seg_def
        neq_Nil_conv)
  have stay: "seg_step [] = CurDir" by (simp add: seg_step_def skip_seg_def)
  consider (nil) "p = []" | (sep) "p \<noteq> []" "last p = CHR ''/''" | (plain) "p \<noteq> []" "last p \<noteq> CHR ''/''"
    by blast
  then show ?thesis
  proof cases
    case nil
    with n stay walk_snoc_stay [of k F fl cur "[]" n] show ?thesis
      by (simp add: path_push_def os_steps_def has_root_def)
  next
    case sep
    have "os_steps (p @ n) = (if has_root p then [RootDir] else [])
        @ map seg_step (split_on (CHR ''/'') (butlast p)) @ [Normal n]"
      using sep n by (simp add: os_steps_def has_root_def split_on_snoc_sep)
    moreover have "os_steps p = (if has_root p then [RootDir] else [])
        @ map seg_step (split_on (CHR ''/'') (butlast p)) @ [CurDir]"
      using split_on_snoc_sep [OF sep, of "[]"] stay by (simp add: os_steps_def)
    ultimately show ?thesis
      using sep n walk_snoc_stay [of k F fl cur "(if has_root p then [RootDir] else [])
        @ map seg_step (split_on (CHR ''/'') (butlast p))" n]
      by (simp add: path_push_def)
  next
    case plain
    with n split_on_append_sep [of "CHR ''/''" p n] show ?thesis
      by (simp add: path_push_def os_steps_def has_root_def)
  qed
qed

section \<open>Canonical paths\<close>

definition normal_step :: "component \<Rightarrow> bool" where
  "normal_step c = (case c of Normal n \<Rightarrow> is_normal_name n | _ \<Rightarrow> True)"

lemma os_steps_normal: "c \<in> set (os_steps p) \<Longrightarrow> normal_step c"
  using split_on_no_sep [of _ "CHR ''/''" p]
  by (auto simp: os_steps_def seg_step_def skip_seg_def normal_step_def is_normal_name_def
      split: if_splits)

lemma walk_names:
  "walk k F fl cur cs = Inr (k', ns) \<Longrightarrow> \<forall>c \<in> set cs. normal_step c \<Longrightarrow>
   \<forall>n \<in> set cur. is_normal_name n \<Longrightarrow> \<forall>n \<in> set ns. is_normal_name n"
proof (induction k F fl cur cs rule: walk.induct)
  case (2 k F fl cur c cs)
  note step = walk.simps(2) [of k F fl cur c cs]
  have dir: "is_dir_at F cur" using "2.prems"(1) by (simp add: step split: if_splits)
  have cs: "\<forall>c \<in> set cs. normal_step c" "normal_step c" using "2.prems"(2) by auto
  show ?case
  proof (cases c)
    case RootDir
    with "2.IH"(1) [OF _ RootDir] "2.prems" dir cs step show ?thesis by simp
  next
    case CurDir
    with "2.IH"(2) [OF _ CurDir] "2.prems" dir cs step show ?thesis by simp
  next
    case ParentDir
    have "\<forall>n \<in> set (butlast cur). is_normal_name n" using "2.prems"(3) by (auto dest: in_set_butlastD)
    with "2.IH"(3) [OF _ ParentDir] "2.prems" dir cs step ParentDir show ?thesis by simp
  next
    case (Normal n)
    have cur: "\<forall>m \<in> set (cur @ [n]). is_normal_name m"
      using "2.prems"(3) cs(2) Normal by (auto simp: normal_step_def)
    obtain nd where nd: "fs_lookup F (cur @ [n]) = Some nd"
      using "2.prems"(1) dir by (cases "fs_lookup F (cur @ [n])") (simp_all add: step [unfolded Normal] Normal)
    show ?thesis
    proof (cases "nd_kind nd")
      case (Symlink t)
      have "\<forall>c \<in> set (os_steps t @ cs). normal_step c" using os_steps_normal cs(1) by auto
      with "2.IH"(6) [OF _ Normal nd Symlink] "2.prems" dir Normal nd Symlink cur step show ?thesis
        by (auto split: if_splits nat.splits)
    next
      case (Regular x)
      with "2.IH"(4) [OF _ Normal nd Regular] "2.prems" dir Normal nd cur cs step show ?thesis by simp
    next
      case Directory
      with "2.IH"(5) [OF _ Normal nd Directory] "2.prems" dir Normal nd cur cs step show ?thesis by simp
    next
      case Special
      with "2.IH"(7) [OF _ Normal nd Special] "2.prems" dir Normal nd cur cs step show ?thesis by simp
    qed
  qed
qed simp

definition fs_wf :: "fs \<Rightarrow> bool" where
  "fs_wf F = list_all is_normal_name (fs_cwd F)"

lemma resolve_names:
  "fs_wf F \<Longrightarrow> resolve_with fl F p = Inr ns \<Longrightarrow> \<forall>n \<in> set ns. is_normal_name n"
proof -
  assume wf: "fs_wf F" and r: "resolve_with fl F p = Inr ns"
  from r obtain k where "walk max_symlinks F fl (fs_cwd F) (os_steps p) = Inr (k, ns)"
    by (auto simp: resolve_with_def res_bind_Inr_iff split: if_splits)
  then show ?thesis
    by (rule walk_names) (use wf os_steps_normal in \<open>auto simp: fs_wf_def list_all_iff\<close>)
qed

lemma map_filter_seg_normal:
  "\<forall>n \<in> set ns. is_normal_name n \<Longrightarrow> List.map_filter seg_component ns = map Normal ns"
  by (induction ns) (auto simp: map_filter_simps seg_component_normal)

lemma components_abs_path:
  assumes "\<forall>n \<in> set ns. is_normal_name n"
  shows "components (abs_path ns) = RootDir # map Normal ns"
proof (cases "ns = []")
  case False
  have "split_on (CHR ''/'') (join ''/'' ns) = ns"
    using assms False by (intro split_on_join) (auto simp: is_normal_name_def)
  with assms show ?thesis
    by (simp add: components_def abs_path_def has_root_def map_filter_simps seg_component_def
        map_filter_seg_normal)
qed (simp add: components_def abs_path_def has_root_def map_filter_simps seg_component_def)

lemma inj_Normal_prefix: "prefix (map Normal ms) (map Normal ns) \<longleftrightarrow> prefix ms ns"
proof (induction ms arbitrary: ns)
  case (Cons m ms)
  then show ?case by (cases ns) auto
qed simp

text \<open>On canonical paths the prefix test is the one on places in the tree.\<close>

lemma canonical_starts_with:
  assumes "fs_wf F" "fs_canonicalize F p = Inr cp" "fs_canonicalize F q = Inr cq"
  shows "path_starts_with cp cq \<longleftrightarrow>
    (\<exists>ns ms. resolve F p = Inr ns \<and> resolve F q = Inr ms \<and> prefix ms ns)"
proof -
  from assms obtain ns ms where r: "resolve F p = Inr ns" "cp = abs_path ns"
    "resolve F q = Inr ms" "cq = abs_path ms"
    by (auto simp: fs_canonicalize_def res_bind_Inr_iff)
  with assms(1) have "\<forall>n \<in> set ns. is_normal_name n" "\<forall>n \<in> set ms. is_normal_name n"
    using resolve_names by blast+
  with r show ?thesis by (simp add: path_starts_with_def components_abs_path inj_Normal_prefix)
qed

section \<open>Walks without links\<close>

text \<open>Walking down one more name that is not a link.\<close>

lemma walk_snoc_plain:
  assumes "walk k F True cur cs = Inr (k', ns)" "is_dir_at F ns"
    and "fs_lookup F (ns @ [n]) = Some nd" "\<not> is_symlink nd"
  shows "walk k F fl cur (cs @ [Normal n]) = Inr (k', ns @ [n])"
  using assms by (auto simp: walk_append walk.simps(2) is_symlink_def split: file_kind.splits)

lemma resolve_push_plain:
  assumes "is_normal_name n" "p \<noteq> []" "resolve F p = Inr ns"
    and "fs_symlink_metadata F (path_push p n) = Inr nd" "\<not> is_symlink nd"
  shows "resolve F (path_push p n) = Inr (ns @ [n])" "fs_lookup F (ns @ [n]) = Some nd"
proof -
  have ne: "path_push p n \<noteq> []" using assms(1,2) by (auto simp: path_push_def is_normal_name_def)
  obtain k where w: "walk max_symlinks F True (fs_cwd F) (os_steps p) = Inr (k, ns)"
    using assms(2,3) by (auto simp: resolve_with_def res_bind_Inr_iff)
  have st: "walk max_symlinks F fl (fs_cwd F) (os_steps (path_push p n)) = walk k F fl ns [Normal n]" for fl
    using w by (simp add: os_steps_push [OF assms(1)] walk_append)
  have dir: "is_dir_at F ns"
    using assms(4) ne st [of False]
    by (auto simp: fs_symlink_metadata_def stat_with_def resolve_with_def res_bind_Inr_iff
        walk.simps(2) split: if_splits)
  have lk: "fs_lookup F (ns @ [n]) = Some nd"
    using assms(4,5) ne st [of False] dir
    by (auto simp: fs_symlink_metadata_def stat_with_def resolve_with_def res_bind_Inr_iff
        walk.simps(2) is_symlink_def split: option.splits file_kind.splits nat.splits if_splits)
  then show "fs_lookup F (ns @ [n]) = Some nd" .
  show "resolve F (path_push p n) = Inr (ns @ [n])"
    using ne st [of True] dir lk assms(5)
    by (auto simp: resolve_with_def walk.simps(2) is_symlink_def split: file_kind.splits)
qed

text \<open>A name below a path is found by the components of the path that count.\<close>

lemma walk_enter: "walk k F fl cur (CurDir # c # cs) = walk k F fl cur (c # cs)"
  by (simp add: walk.simps(2) [of _ _ _ _ CurDir]) (simp add: walk.simps(2))

lemma walk_real:
  "walk k F fl cur (filter (\<lambda>c. c \<noteq> CurDir) xs @ [Normal n]) = walk k F fl cur (xs @ [Normal n])"
proof (induction xs arbitrary: k cur)
  case (Cons x xs)
  show ?case
  proof (cases "x = CurDir")
    case True
    with Cons show ?thesis by (cases "xs @ [Normal n]") (auto simp: walk_enter)
  next
    case False
    with Cons walk_append [of "filter (\<lambda>c. c \<noteq> CurDir) xs @ [Normal n]" k F fl cur "[x]"]
      walk_append [of "xs @ [Normal n]" k F fl cur "[x]"]
    show ?thesis by simp
  qed
qed simp

lemma os_steps_real: "filter (\<lambda>c. c \<noteq> CurDir) (os_steps p) = real_components p"
proof -
  have "filter (\<lambda>c. c \<noteq> CurDir) (map seg_step ss) = List.map_filter seg_component ss" for ss
    by (induction ss) (auto simp: map_filter_simps seg_step_def seg_component_def skip_seg_def)
  then show ?thesis by (simp add: os_steps_def real_components_split)
qed

lemma resolve_real:
  assumes "is_normal_name n" "real_components p = real_components q"
  shows "resolve_with fl F (path_push p n) = resolve_with fl F (path_push q n)"
proof -
  have ne: "path_push r n \<noteq> []" for r using assms(1) by (auto simp: path_push_def is_normal_name_def)
  have "walk k F fl cur (os_steps (path_push r n)) = walk k F fl cur (real_components r @ [Normal n])" for k cur r
    by (simp only: os_steps_push [OF assms(1)] os_steps_real [symmetric] walk_real)
  then show ?thesis using ne assms(2) by (simp add: resolve_with_def)
qed

lemma fs_real:
  assumes "is_normal_name n" "real_components p = real_components q"
  shows "fs_metadata F (path_push p n) = fs_metadata F (path_push q n)"
    "fs_open F (path_push p n) = fs_open F (path_push q n)"
  by (simp_all add: fs_open_def fs_metadata_def stat_with_def resolve_real [OF assms])

lemmas walk_eval =
  resolve_with_def stat_with_def fs_metadata_def fs_symlink_metadata_def fs_canonicalize_def fs_exists_def
  max_symlinks_def os_steps_def has_root_def walk.simps(2)
  is_dir_at_def fs_lookup_def is_dir_node_def seg_step_def skip_seg_def root_inode_def

end
