(* ===== verification/Responses.thy ===== *)
theory Responses
  imports Externals FS
begin

text \<open>
  From a file to a response: the conditional headers (\<open>src/conditional_headers.rs\<close>), the byte
  range (\<open>bytes_range\<close>) and the response body (\<open>response_body\<close>) of \<open>src/response.rs\<close>. Byte
  positions are 64-bit words as in the source, so \<open>b + 1\<close> wraps.
\<close>

section \<open>Conditional headers\<close>

record conditional_headers =
  ch_if_modified_since :: "date option"
  ch_if_unmodified_since :: "date option"
  ch_if_range :: "string option"
  ch_range :: "range option"

datatype conditional_body = NoBody response | WithBody "range option"

definition conditional_headers_new :: "ext \<Rightarrow> headers \<Rightarrow> conditional_headers" where
  "conditional_headers_new X h =
     \<lparr>ch_if_modified_since = typed_get (x_if_modified_since X) ''if-modified-since'' h,
      ch_if_unmodified_since = typed_get (x_if_unmodified_since X) ''if-unmodified-since'' h,
      ch_if_range = typed_get (x_if_range X) ''if-range'' h,
      ch_range = typed_get (x_range X) ''range'' h\<rparr>"

definition empty_response :: "nat \<Rightarrow> response" where
  "empty_response status = (response_new Empty_Body)\<lparr>rs_status := status\<rparr>"

definition check_unmodified_since :: "ext \<Rightarrow> conditional_headers \<Rightarrow> date option \<Rightarrow> bool" where
  "check_unmodified_since X c lm =
     (case ch_if_unmodified_since c of
        None \<Rightarrow> True
      | Some since \<Rightarrow> (case lm of Some t \<Rightarrow> x_precondition_passes X since t | None \<Rightarrow> False))"

definition check_not_modified :: "ext \<Rightarrow> conditional_headers \<Rightarrow> date option \<Rightarrow> bool" where
  "check_not_modified X c lm =
     (case ch_if_modified_since c of
        None \<Rightarrow> False
      | Some since \<Rightarrow> (case lm of Some t \<Rightarrow> \<not> x_is_modified X since t | None \<Rightarrow> False))"

definition conditional_check ::
  "ext \<Rightarrow> conditional_headers \<Rightarrow> date option \<Rightarrow> conditional_body" where
  "conditional_check X c lm =
     (if \<not> check_unmodified_since X c lm then NoBody (empty_response 412)
      else if check_not_modified X c lm then NoBody (empty_response 304)
      else case ch_if_range c of
             Some v \<Rightarrow> (if x_if_range_modified X v lm then WithBody None else WithBody (ch_range c))
           | None \<Rightarrow> WithBody (ch_range c))"

section \<open>Byte ranges\<close>

datatype bad_range = BadRangeError | Unreachable

text \<open>The first pair of bounds of a range, as start and end (the end excluded).\<close>

fun range_bounds :: "bound \<times> bound \<Rightarrow> u64 \<Rightarrow> bad_range + (u64 \<times> u64)" where
  "range_bounds (Unbounded, Unbounded) max_len = Inr (0, max_len)"
| "range_bounds (Included a, Included b) max_len =
     (if b < a then Inl BadRangeError else Inr (a, if b = max_len then b else b + 1))"
| "range_bounds (Included a, Unbounded) max_len = Inr (a, max_len)"
| "range_bounds (Unbounded, Included b) max_len =
     (if max_len < b then Inr (0, max_len) else Inr (max_len - b, max_len))"
| "range_bounds _ max_len = Inl Unreachable"

definition range_clip :: "u64 \<Rightarrow> u64 \<Rightarrow> u64 \<Rightarrow> bad_range + (u64 \<times> u64)" where
  "range_clip max_len s e =
     (if s < e \<and> e \<le> max_len then Inr (s, e)
      else if s < e \<and> s \<le> max_len then Inr (s, max_len)
      else Inl BadRangeError)"

definition bytes_range :: "range option \<Rightarrow> u64 \<Rightarrow> bad_range + (u64 \<times> u64)" where
  "bytes_range r max_len =
     (case r of
        None \<Rightarrow> Inr (0, max_len)
      | Some [] \<Rightarrow> Inl BadRangeError
      | Some (bs # _) \<Rightarrow> res_bind (range_bounds bs max_len) (\<lambda>(s, e). range_clip max_len s e))"

text \<open>
  The reference: which bytes of a representation of \<open>n\<close> bytes a range asks for, on natural
  numbers; \<open>None\<close> is an unsatisfiable range.
\<close>

fun range_spec :: "bound \<times> bound \<Rightarrow> nat \<Rightarrow> (nat \<times> nat) option" where
  "range_spec (Unbounded, Unbounded) n = (if n = 0 then None else Some (0, n))"
| "range_spec (Included a, Included b) n =
     (if unat a \<le> unat b \<and> unat a < n then Some (unat a, min (unat b + 1) n) else None)"
| "range_spec (Included a, Unbounded) n = (if unat a < n then Some (unat a, n) else None)"
| "range_spec (Unbounded, Included b) n =
     (if 0 < unat b \<and> 0 < n then Some (n - min (unat b) n, n) else None)"
| "range_spec _ n = None"

definition unat_pair :: "bad_range + (u64 \<times> u64) \<Rightarrow> (nat \<times> nat) option" where
  "unat_pair r = (case r of Inr (a, b) \<Rightarrow> Some (unat a, unat b) | Inl _ \<Rightarrow> None)"

text \<open>The two corners where the code leaves the reference.\<close>

definition range_corner :: "bound \<times> bound \<Rightarrow> u64 \<Rightarrow> bool" where
  "range_corner bs max_len =
     (case bs of
        (Included a, Included b) \<Rightarrow> (b = - 1 \<and> b \<noteq> max_len) \<or> (a = max_len \<and> max_len < b)
      | _ \<Rightarrow> False)"

lemma range_clip_bounds:
  "range_clip n s e = Inr (a, b) \<Longrightarrow> a \<le> b \<and> b \<le> n"
  by (auto simp: range_clip_def split: if_splits)

lemma bytes_range_bounds_aux:
  "bytes_range r n = Inr (a, b) \<Longrightarrow> a \<le> b \<and> b \<le> n"
  by (auto simp: bytes_range_def res_bind_Inr_iff dest: range_clip_bounds split: option.splits list.splits)

lemma unat_succ: "(b :: u64) \<noteq> - 1 \<Longrightarrow> unat (b + 1) = unat b + 1"
  by (metis Suc_eq_plus1 add.commute eq_neg_iff_add_eq_0 unatSuc)

lemma range_spec_eq:
  "\<not> range_corner bs n \<Longrightarrow>
   unat_pair (res_bind (range_bounds bs n) (\<lambda>(s, e). range_clip n s e)) = range_spec bs (unat n)"
proof (induction bs n rule: range_bounds.induct)
  case (2 a b n)
  then have c: "b = - 1 \<Longrightarrow> b = n" "a = n \<Longrightarrow> \<not> n < b" by (auto simp: range_corner_def)
  show ?case
  proof (cases "b = - 1")
    case True
    with c(1) have "b = n" by simp
    then show ?thesis
      by (auto simp: unat_pair_def range_clip_def word_le_nat_alt word_less_nat_alt)
  next
    case False
    with c(2) unat_succ [OF False] show ?thesis
      by (auto simp: unat_pair_def range_clip_def word_le_nat_alt word_less_nat_alt word_unat_eq_iff)
  qed
qed (auto simp: unat_pair_def range_clip_def word_le_nat_alt word_less_nat_alt unat_sub)

section \<open>The response for a file\<close>

record mem_cache_opts =
  mc_max_file_size :: u64

definition mem_cache_opts_new :: "u64 \<Rightarrow> mem_cache_opts" where
  "mem_cache_opts_new max_file_size = \<lparr>mc_max_file_size = 1024 * 1024 * max_file_size\<rparr>"

definition path_to_str :: "path \<Rightarrow> string option" where
  "path_to_str p = (if valid_utf8 p then Some p else None)"

definition meta_modified :: "ext \<Rightarrow> inode \<Rightarrow> date option" where
  "meta_modified X meta =
     (case nd_modified meta of
        Some t \<Rightarrow> if t = 0 then None else Some (x_last_modified X t)
      | None \<Rightarrow> None)"

definition unsatisfied_response :: "u64 \<Rightarrow> response" where
  "unsatisfied_response len =
     rs_insert ''content-range'' (''bytes */'' @ show_nat (unat len)) (empty_response 416)"

definition file_body ::
  "ext \<Rightarrow> path \<Rightarrow> take_reader \<Rightarrow> nat \<Rightarrow> u64 \<Rightarrow> string \<Rightarrow> date option \<Rightarrow> mem_cache_opts option \<Rightarrow> body" where
  "file_body X p reader buf_size len content_type modified cache =
     (let plain = File_Body \<lparr>st_reader = reader, st_buf_size = buf_size\<rparr>
      in case cache of
           None \<Rightarrow> plain
         | Some opts \<Rightarrow>
             if len \<le> mc_max_file_size opts
             then (case path_to_str p of
                     Some path_str \<Rightarrow>
                       Mem_Cache_Body
                         \<lparr>ms_reader = reader, ms_buf_size = buf_size,
                          ms_mem_opts = Some \<lparr>mt_file_path = path_str, mt_content_type = content_type,
                             mt_last_modified = modified\<rparr>,
                          ms_mem_buf = Some \<lparr>bm_data = [],
                             bm_capacity = x_bytes_capacity X (unat len)\<rparr>\<rparr>
                   | None \<Rightarrow> plain)
             else plain)"

text \<open>The headers of a whole or partial answer, shared by files and cached files.\<close>

definition range_response ::
  "ext \<Rightarrow> body \<Rightarrow> u64 \<Rightarrow> u64 \<Rightarrow> u64 \<Rightarrow> string \<Rightarrow> date option \<Rightarrow> response" where
  "range_response X b first stop len content_type modified =
     (let sub_len = stop - first;
          finish = (\<lambda>r l.
            let r1 = rs_insert ''content-length'' (show_nat (unat l)) r;
                r2 = rs_insert ''content-type'' content_type r1;
                r3 = rs_insert ''accept-ranges'' ''bytes'' r2
            in (case modified of
                  Some lm \<Rightarrow> rs_insert ''last-modified'' (x_show_date X lm) r3
                | None \<Rightarrow> r3))
      in if sub_len \<noteq> len
         then (case x_content_range X first stop len of
                 Some cr \<Rightarrow>
                   finish (rs_insert ''content-range'' cr ((response_new b)\<lparr>rs_status := 206\<rparr>)) sub_len
               | None \<Rightarrow> unsatisfied_response len)
         else finish (response_new b) len)"

definition seek_fails :: "inode \<Rightarrow> bool" where
  "seek_fails nd = (nd_kind nd = Special)"

definition response_body ::
  "ext \<Rightarrow> inode \<Rightarrow> path \<Rightarrow> inode \<Rightarrow> conditional_headers \<Rightarrow> mem_cache_opts option \<Rightarrow> nat + response" where
  "response_body X file p meta cond cache =
     (let len = of_nat (nd_len meta) :: u64;
          modified = meta_modified X meta
      in case conditional_check X cond modified of
           NoBody resp \<Rightarrow> Inr resp
         | WithBody rg \<Rightarrow>
             (let buf_size = optimal_buf_size (nd_blksize meta) (nd_len meta)
              in case bytes_range rg len of
                   Inl _ \<Rightarrow> Inr (unsatisfied_response len)
                 | Inr (first, stop) \<Rightarrow>
                     if seek_fails file then Inl 500
                     else
                       (let reader = open_reader (nd_content file) (nd_read_err file) (unat first)
                                       (unat (stop - first));
                            content_type = x_mime_from_path X p;
                            b = file_body X p reader buf_size len content_type modified cache
                        in Inr (range_response X b first stop len content_type modified))))"

text \<open>The bytes that a body sends when it is drained.\<close>

fun body_bytes :: "body \<Rightarrow> string option" where
  "body_bytes Empty_Body = Some []"
| "body_bytes (Bytes_Body bs) = Some bs"
| "body_bytes (File_Body s) = Some (take_bytes (st_reader s))"
| "body_bytes (Mem_Cache_Body s) = Some (take_bytes (ms_reader s))"
| "body_bytes (Upstream_Body bs) = Some bs"
| "body_bytes (Encoded_Body _ _ _) = None"
| "body_bytes (Archive_Body _ _) = None"

lemma body_bytes_file_body:
  "body_bytes (file_body X p reader bs len ct m cache) = Some (take_bytes reader)"
  by (auto simp: file_body_def Let_def split: option.split)

text \<open>What is sent of a file is a part of its content.\<close>

lemma sublist_take_drop: "sublist (take n (drop a xs)) xs"
  unfolding sublist_def by (metis append_take_drop_id)

lemma range_response_sends:
  "body_bytes b = Some bs \<Longrightarrow> body_bytes (rs_body (range_response X b s e n ct m)) \<in> {Some [], Some bs}"
  by (auto simp: range_response_def Let_def unsatisfied_response_def empty_response_def split: option.split)

lemma response_body_part:
  assumes "response_body X nd p meta cond cache = Inr r"
  shows "\<exists>bs. body_bytes (rs_body r) = Some bs \<and> sublist bs (nd_content nd)"
proof -
  have f: "body_bytes (file_body X p (open_reader (nd_content nd) e a n) b l ct m cache) = Some (take n (drop a (nd_content nd)))"
    for e a n b l ct m
    by (simp add: body_bytes_file_body take_bytes_open)
  show ?thesis
    using assms range_response_sends [OF f]
    by (fastforce simp: response_body_def Let_def conditional_check_def empty_response_def unsatisfied_response_def sublist_take_drop
        split: conditional_body.splits sum.splits option.splits if_splits)
qed

lemma range_response_cases:
  assumes "range_response X b s e n ct m = r"
  shows "(rs_status r = 416 \<and> rs_body r = Empty_Body \<and> x_content_range X s e n = None \<and> e - s \<noteq> n) \<or>
    (rs_body r = b \<and> rs_get ''content-length'' r = Some (show_nat (unat (e - s))) \<and>
     rs_get ''content-type'' r = Some ct \<and>
     (rs_status r = 206 \<and> e - s \<noteq> n \<and> rs_get ''content-range'' r = x_content_range X s e n \<or>
      rs_status r = 200 \<and> e - s = n \<and> rs_get ''content-range'' r = None))"
  using assms
  by (cases "x_content_range X s e n"; cases m)
    (auto simp: range_response_def Let_def unsatisfied_response_def empty_response_def headers_simp
      split: if_splits)

section \<open>Properties\<close>

text \<open>C18. Outside two named corners, the byte range the code serves is the reference range: a
  first-to-last range is clipped to the representation, an open one runs to its end, a
  suffix takes the last bytes, and every other range is refused.\<close>

theorem bytes_range_matches_spec:
  "\<not> range_corner bs n \<Longrightarrow> unat_pair (bytes_range (Some (bs # rest)) n) = range_spec bs (unat n)"
  by (simp add: bytes_range_def range_spec_eq)

theorem bytes_range_matches_spec_witness:
  "unat_pair (bytes_range (Some [(Included 2, Included 5)]) 10) = Some (2, 6)"
  using bytes_range_matches_spec [of "(Included 2, Included 5)" 10 "[]"]
  by (simp add: range_corner_def)

text \<open>Every range that is served lies within the representation, and it is empty only for an
  empty representation without a range or in the first corner, a range that starts exactly at the
  end of the representation and goes beyond it.\<close>

theorem bytes_range_bounds:
  assumes "bytes_range r n = Inr (a, b)"
  shows "a \<le> b \<and> b \<le> n \<and>
    (a = b \<longrightarrow> r = None \<and> n = 0 \<or>
      (\<exists>e rest. r = Some ((Included n, Included e) # rest) \<and> n < e \<and> a = n))"
proof -
  have "a = b \<longrightarrow> r = None \<and> n = 0 \<or> (\<exists>e rest. r = Some ((Included n, Included e) # rest) \<and> n < e \<and> a = n)"
  proof (cases r)
    case None
    with assms show ?thesis by (auto simp: bytes_range_def)
  next
    case (Some bss)
    with assms obtain bs rest where r: "r = Some (bs # rest)"
      and e: "res_bind (range_bounds bs n) (\<lambda>(s, e). range_clip n s e) = Inr (a, b)"
      by (cases bss) (auto simp: bytes_range_def)
    show ?thesis
    proof (cases bs)
      case (Pair x y)
      with e r show ?thesis
        by (cases x; cases y)
          (auto simp: range_clip_def word_le_nat_alt word_less_nat_alt word_unat_eq_iff unat_succ
            split: if_splits)
    qed
  qed
  with bytes_range_bounds_aux [OF assms] show ?thesis by blast
qed

theorem bytes_range_bounds_witness:
  "(3::u64) \<le> 10 \<and> (10::u64) \<le> 10"
  using bytes_range_bounds [of "Some [(Unbounded, Included 7)]" 10 3 10]
  by (simp add: bytes_range_def range_clip_def)

text \<open>The chunks of a body that is a file stream, and of a stream that fills the cache.\<close>

definition body_stream :: "body \<Rightarrow> take_reader file_stream option" where
  "body_stream b =
     (case b of
        File_Body s \<Rightarrow> Some s
      | Mem_Cache_Body s \<Rightarrow> Some \<lparr>st_reader = ms_reader s, st_buf_size = ms_buf_size s\<rparr>
      | _ \<Rightarrow> None)"

lemma body_stream_file_body:
  "body_stream (file_body X p reader bs len ct m cache) = Some \<lparr>st_reader = reader, st_buf_size = bs\<rparr>"
  by (auto simp: file_body_def body_stream_def Let_def split: option.split)

lemma drain_file:
  assumes "n \<le> length content - a" "n = 0 \<or> 0 < bufsz" "n < fuel"
  shows "\<exists>cs. drain take_read fuel \<lparr>st_reader = open_reader content None a n, st_buf_size = bufsz\<rparr> = Some (cs, None)
    \<and> concat cs = take n (drop a content) \<and> (\<forall>c \<in> set cs. c \<noteq> [] \<and> length c \<le> bufsz)"
    (is "\<exists>cs. drain take_read fuel ?s = _ \<and> _")
proof (cases "n = 0")
  case True
  with assms drain_empty [of ?s fuel] show ?thesis
    by (simp add: take_bytes_open) (simp add: open_reader_def)
next
  case False
  with assms drain_complete [of ?s fuel] show ?thesis
    by (auto simp: take_bytes_open) (simp add: open_reader_def)
qed

lemma response_body_range_cases:
  assumes "response_body X file p meta cond cache = Inr r" "\<not> seek_fails file"
  defines "len \<equiv> of_nat (nd_len meta) :: u64"
  shows "conditional_check X cond (meta_modified X meta) = NoBody r \<or>
    (\<exists>rg. conditional_check X cond (meta_modified X meta) = WithBody rg \<and>
      (r = unsatisfied_response len \<or>
       (\<exists>a b. bytes_range rg len = Inr (a, b) \<and>
          r = range_response X
                (file_body X p (open_reader (nd_content file) (nd_read_err file) (unat a) (unat (b - a)))
                  (optimal_buf_size (nd_blksize meta) (nd_len meta)) len (x_mime_from_path X p)
                  (meta_modified X meta) cache)
                a b len (x_mime_from_path X p) (meta_modified X meta))))"
  using assms
  by (auto simp: response_body_def Let_def split: conditional_body.splits sum.splits prod.splits)


definition demo_file :: inode where
  "demo_file = \<lparr>nd_kind = Regular ''hello'', nd_modified = Some 0, nd_blksize = 4096,
     nd_open = None, nd_read_err = None\<rparr>"

lemma demo_file_simps:
  "nd_kind demo_file = Regular ''hello''" "nd_len demo_file = 5" "nd_content demo_file = ''hello''"
  "nd_modified demo_file = Some 0" "nd_blksize demo_file = 4096" "nd_open demo_file = None"
  "nd_read_err demo_file = None" "is_regular demo_file" "\<not> seek_fails demo_file"
  by (simp_all add: demo_file_def nd_len_def nd_content_def is_regular_def seek_fails_def)

definition demo_response :: "headers \<Rightarrow> response" where
  "demo_response h =
     (case response_body demo_ext demo_file ''a.html'' demo_file (conditional_headers_new demo_ext h) None of
        Inr r \<Rightarrow> r | Inl _ \<Rightarrow> empty_response 0)"

lemma demo_conditionals:
  "conditional_headers_new demo_ext [(''range'', v)] =
     \<lparr>ch_if_modified_since = None, ch_if_unmodified_since = None, ch_if_range = None,
      ch_range = x_range demo_ext [v]\<rparr>"
  by (simp add: conditional_headers_new_def typed_get_def hget_all_simps)

lemma demo_range_check:
  "conditional_check demo_ext (conditional_headers_new demo_ext [(''range'', v)]) d = WithBody (x_range demo_ext [v])"
  by (simp add: demo_conditionals conditional_check_def check_unmodified_since_def check_not_modified_def)


text \<open>In the first corner the code answers a range beyond the file with a partial response: on a
  file of \<open>n\<close> bytes the request for bytes \<open>n\<close> to \<open>e\<close> with \<open>n < e\<close> is served as a 206 with
  content length 0, where the same request with \<open>e = n\<close> is refused as a 416.\<close>

theorem empty_partial_content:
  assumes "x_range X (hget_all ''range'' h) = Some [(Included n, Included e)]" "hget_all ''range'' h \<noteq> []"
    and "n < e" "e \<noteq> - 1" "0 < n" "n = of_nat (nd_len file)" "\<not> seek_fails file"
    and "\<forall>m \<in> {''if-modified-since'', ''if-unmodified-since'', ''if-range''}. hget_all m h = []"
    and "x_content_range X n n n = Some cr"
  shows "(\<exists>r. response_body X file p file (conditional_headers_new X h) cache = Inr r \<and>
           rs_status r = 206 \<and> rs_get ''content-length'' r = Some ''0'' \<and> rs_get ''content-range'' r = Some cr) \<and>
    bytes_range (Some [(Included n, Included n)]) n = Inl BadRangeError"
proof -
  have c: "conditional_check X (conditional_headers_new X h) d = WithBody (Some [(Included n, Included e)])" for d
    using assms(1,2,8) by (simp add: conditional_headers_new_def typed_get_def conditional_check_def
        check_unmodified_since_def check_not_modified_def)
  have "e + 1 \<noteq> 0" using assms(4) by (metis eq_neg_iff_add_eq_0)
  then have "e < e + 1" by (metis assms(4) unat_succ less_add_one word_less_nat_alt)
  then have b: "bytes_range (Some [(Included n, Included e)]) n = Inr (n, n)"
    using assms(3) by (auto simp: bytes_range_def range_clip_def)
  have sh: "show_nat 0 = ''0''" by code_simp
  have "\<exists>r. response_body X file p file (conditional_headers_new X h) cache = Inr r \<and>
      rs_status r = 206 \<and> rs_get ''content-length'' r = Some ''0'' \<and> rs_get ''content-range'' r = Some cr"
    using assms(5-7,9) b
    by (cases "meta_modified X file")
      (auto simp: response_body_def c Let_def range_response_def headers_simp sh)
  then show ?thesis
    by (simp add: bytes_range_def range_clip_def)
qed

definition demo_ext_beyond :: ext where
  "demo_ext_beyond = demo_ext\<lparr>x_range := (\<lambda>_. Some [(Included 5, Included 9)])\<rparr>"

theorem empty_partial_content_witness:
  "\<exists>r. response_body demo_ext_beyond demo_file ''a.html'' demo_file
         (conditional_headers_new demo_ext_beyond [(''range'', ''bytes=5-9'')]) None = Inr r \<and> rs_status r = 206"
proof -
  let ?h = "[(''range'', ''bytes=5-9'')]"
  have 1: "x_range demo_ext_beyond (hget_all ''range'' ?h) = Some [(Included 5, Included 9)]"
    by (simp add: demo_ext_beyond_def)
  have 2: "hget_all ''range'' ?h \<noteq> []" by (simp add: hget_all_simps)
  have 3: "(5::u64) < 9" "(9::u64) \<noteq> - 1" "(0::u64) < 5" by simp_all
  have 4: "(5::u64) = of_nat (nd_len demo_file)" "\<not> seek_fails demo_file"
    by (simp_all add: demo_file_def nd_len_def seek_fails_def)
  have 5: "\<forall>m \<in> {''if-modified-since'', ''if-unmodified-since'', ''if-range''}. hget_all m ?h = []"
    by (simp add: hget_all_simps)
  have 6: "x_content_range demo_ext_beyond 5 5 5 = Some (''bytes '' @ show_nat 5 @ ''-'' @ show_nat 4 @ ''/'' @ show_nat 5)"
    by (simp add: demo_ext_beyond_def)
  obtain r where "response_body demo_ext_beyond demo_file ''a.html'' demo_file
         (conditional_headers_new demo_ext_beyond ?h) None = Inr r" "rs_status r = 206"
    using empty_partial_content [OF 1 2 3 4 5 6] by metis
  then show ?thesis by blast
qed

text \<open>The order of the conditional headers: a failed unmodified-since condition is a 412 whatever the
  others say, then a fulfilled not-modified condition is a 304, and only then is the range
  honoured, unless an if-range condition says that the file has changed.\<close>

theorem conditional_precedence:
  "conditional_check X c lm =
     (if ch_if_unmodified_since c \<noteq> None \<and>
         (case lm of Some t \<Rightarrow> \<not> x_precondition_passes X (the (ch_if_unmodified_since c)) t | None \<Rightarrow> True)
      then NoBody (empty_response 412)
      else if ch_if_modified_since c \<noteq> None \<and> lm \<noteq> None \<and>
         \<not> x_is_modified X (the (ch_if_modified_since c)) (the lm)
      then NoBody (empty_response 304)
      else WithBody (if ch_if_range c \<noteq> None \<and> x_if_range_modified X (the (ch_if_range c)) lm
                     then None else ch_range c))"
  by (auto simp: conditional_check_def check_unmodified_since_def check_not_modified_def
      split: option.splits)

end
