(* ===== verification/Opts.thy ===== *)
theory Opts
  imports Responses
begin

text \<open>
  The options of the request handler (\<open>RequestHandlerOpts\<close> of \<open>src/handler.rs\<close>) and the
  compiled settings they hold (\<open>src/settings/mod.rs\<close>, \<open>src/cors.rs\<close>): records with the fields
  of the structs. Compiled globs and regular expressions are kept as their source text and are
  matched by the functions of the parameter record.
\<close>

section \<open>Settings\<close>

datatype compression_level = CL_Fastest | CL_Best | CL_Default

fun into_algorithm_level :: "compression_level \<Rightarrow> int \<Rightarrow> encoder_level" where
  "into_algorithm_level CL_Fastest d = Level_Fastest"
| "into_algorithm_level CL_Best d = Level_Best"
| "into_algorithm_level CL_Default d = Level_Precise d"

record headers_rule =
  hr_source :: string
  hr_headers :: headers

datatype redirects_kind = Permanent | Temporary

fun redirects_kind_code :: "redirects_kind \<Rightarrow> nat" where
  "redirects_kind_code Permanent = 301"
| "redirects_kind_code Temporary = 302"

record rewrite_rule =
  rw_source :: string
  rw_destination :: string
  rw_redirect :: "redirects_kind option"

record redirect_rule =
  rd_host :: "string option"
  rd_source :: string
  rd_destination :: string
  rd_kind :: nat

record virtual_host =
  vh_host :: string
  vh_root :: path

record proxy_balancer =
  pb_name :: "string option"
  pb_targets :: "uri list"
  pb_next :: u64

record uri_template =
  ut_origin :: string
  ut_base_path :: string
  ut_strip_prefix :: "string option"

record proxy_rule =
  pr_host :: "string option"
  pr_source :: string
  pr_balancer :: proxy_balancer
  pr_strip_prefix :: "string option"
  pr_uri_templates :: "uri_template list"

record proxy_tls_settings =
  pt_ca_files :: "path list"
  pt_use_webpki_roots :: bool

record proxy_settings =
  ps_pool_max_idle_per_host :: nat
  ps_pool_idle_timeout_secs :: nat
  ps_proxy_first :: bool
  ps_max_upgrade_tunnels :: "nat option"
  ps_tls :: proxy_tls_settings

definition proxy_tls_settings_default :: proxy_tls_settings where
  "proxy_tls_settings_default = \<lparr>pt_ca_files = [], pt_use_webpki_roots = False\<rparr>"

definition proxy_settings_default :: proxy_settings where
  "proxy_settings_default = \<lparr>ps_pool_max_idle_per_host = 32, ps_pool_idle_timeout_secs = 90,
     ps_proxy_first = False, ps_max_upgrade_tunnels = None, ps_tls = proxy_tls_settings_default\<rparr>"

record memory_cache_settings =
  mcs_capacity :: "u64 option"
  mcs_ttl :: "u64 option"
  mcs_tti :: "u64 option"
  mcs_max_file_size :: "u64 option"

text \<open>A proxy rule and the routes bootstrap as the configuration file states them.\<close>

record proxy_def =
  pd_name :: "string option"
  pd_host :: "string option"
  pd_source :: string
  pd_target :: "string option"
  pd_targets :: "string list option"
  pd_strip_prefix :: "string option"

datatype on_failure = CacheThenFile | FailStart | FileOnly

record routes_bootstrap =
  rb_url :: string
  rb_token_env :: "string option"
  rb_timeout_secs :: "nat option"
  rb_cache_path :: "path option"
  rb_on_failure :: "on_failure option"
  rb_client_id :: "string option"

record advanced =
  ad_headers :: "headers_rule list option"
  ad_rewrites :: "rewrite_rule list option"
  ad_redirects :: "redirect_rule list option"
  ad_virtual_hosts :: "virtual_host list option"
  ad_proxies :: "proxy_rule list option"
  ad_proxy_defs :: "proxy_def list option"
  ad_routes_bootstrap :: "routes_bootstrap option"
  ad_proxy_settings :: proxy_settings
  ad_memory_cache :: "memory_cache_settings option"

definition advanced_default :: advanced where
  "advanced_default = \<lparr>ad_headers = None, ad_rewrites = None, ad_redirects = None,
     ad_virtual_hosts = None, ad_proxies = None, ad_proxy_defs = None, ad_routes_bootstrap = None,
     ad_proxy_settings = proxy_settings_default, ad_memory_cache = None\<rparr>"

section \<open>CORS configuration\<close>

text \<open>Hash sets are lists whose order carries no meaning.\<close>

record cors =
  co_allowed_headers :: "string list"
  co_exposed_headers :: "string list"
  co_max_age :: "nat option"
  co_allowed_methods :: "http_method list"
  co_origins :: "string list option"

record cors_configured =
  cc_cors :: cors
  cc_allowed_headers :: "string list"
  cc_exposed_headers :: "string list"
  cc_methods_header :: "http_method list"

section \<open>Handler options\<close>

datatype dir_list_fmt = DirList_Html | DirList_Json

datatype dir_download_fmt = Targz

record handler_opts =
  root_dir :: path
  memory_cache :: "mem_cache_opts option"
  compression :: bool
  compression_level :: compression_level
  compression_static :: bool
  dir_listing :: bool
  dir_listing_order :: nat
  dir_listing_format :: dir_list_fmt
  dir_listing_download :: "dir_download_fmt list"
  cors_opts :: "cors_configured option"
  security_headers :: bool
  cache_control_headers :: bool
  page404 :: path
  page50x :: path
  page_fallback :: string
  basic_auth :: string
  index_files :: "string list"
  log_remote_address :: bool
  log_x_real_ip :: bool
  log_forwarded_for :: bool
  trusted_proxies :: "string list"
  redirect_trailing_slash :: bool
  ignore_hidden_files :: bool
  disable_symlinks :: bool
  accept_markdown :: bool
  text_charset :: bool
  health :: bool
  metrics_enabled :: bool
  maintenance_mode :: bool
  maintenance_mode_status :: nat
  maintenance_mode_file :: path
  advanced_opts :: "advanced option"
  has_proxy_client :: bool
  proxy_settings_opt :: "proxy_settings option"
  proxy_first :: bool
  upgrade_tunnel_semaphore :: "nat option"

definition handler_opts_default :: handler_opts where
  "handler_opts_default = \<lparr>
     root_dir = ''./public'', memory_cache = None, compression = True,
     compression_level = CL_Default, compression_static = False, dir_listing = False,
     dir_listing_order = 6, dir_listing_format = DirList_Html, dir_listing_download = [],
     cors_opts = None, security_headers = False, cache_control_headers = True,
     page404 = ''./404.html'', page50x = ''./50x.html'', page_fallback = [], basic_auth = [],
     index_files = [''index.html''], log_remote_address = False, log_x_real_ip = False,
     log_forwarded_for = False, trusted_proxies = [], redirect_trailing_slash = True,
     ignore_hidden_files = False, disable_symlinks = False, accept_markdown = False,
     text_charset = True, health = False, metrics_enabled = False, maintenance_mode = False,
     maintenance_mode_status = 503, maintenance_mode_file = [], advanced_opts = None,
     has_proxy_client = False, proxy_settings_opt = None, proxy_first = False,
     upgrade_tunnel_semaphore = None\<rparr>"

lemma handler_opts_default_simps [simp]:
  "basic_auth handler_opts_default = []" "health handler_opts_default = False"
  "metrics_enabled handler_opts_default = False" "maintenance_mode handler_opts_default = False"
  "cors_opts handler_opts_default = None" "compression handler_opts_default = True"
  "compression_static handler_opts_default = False" "text_charset handler_opts_default = True"
  "advanced_opts handler_opts_default = None" "page_fallback handler_opts_default = []"
  "security_headers handler_opts_default = False" "cache_control_headers handler_opts_default = True"
  "page404 handler_opts_default = ''./404.html''" "page50x handler_opts_default = ''./50x.html''"
  "accept_markdown handler_opts_default = False" "proxy_first handler_opts_default = False"
  by (simp_all add: handler_opts_default_def)

end
