(* ===== verification/File_Access.thy ===== *)
theory File_Access
  imports Responses
begin

text \<open>
  Paths of requests (\<open>src/fs/path.rs\<close>) and file lookup (\<open>src/fs/meta.rs\<close>): how a request
  path becomes a file path under the root, the hidden-file and symbolic-link tests, and the
  metadata lookups with the \<open>.html\<close> suffix and the Markdown variants.
\<close>

section \<open>Sanitising a request path\<close>

definition decode_tail_path :: "ext \<Rightarrow> string \<Rightarrow> path" where
  "decode_tail_path X tail = x_pct_decode X (trim_start_matches (CHR ''/'') tail)"

text \<open>One component of the decoded path: only plain names are pushed.\<close>

definition sanitize_step :: "component \<Rightarrow> path \<Rightarrow> path" where
  "sanitize_step c full_path =
     (case c of
        Normal seg \<Rightarrow>
          if list_all is_normal (components seg) then path_push full_path seg else full_path
      | CurDir \<Rightarrow> full_path
      | RootDir \<Rightarrow> full_path
      | ParentDir \<Rightarrow> full_path)"

definition sanitize_path :: "ext \<Rightarrow> path \<Rightarrow> string \<Rightarrow> nat + path" where
  "sanitize_path X base tail = Inr (fold sanitize_step (components (decode_tail_path X tail)) base)"

definition is_hidden :: "path \<Rightarrow> bool" where
  "is_hidden p =
     list_ex (\<lambda>s. s \<noteq> [] \<and> hd s = CHR ''.'')
       (filter valid_utf8 (normal_names (components p)))"

text \<open>
  The loop of \<open>contains_symlink\<close> over the components of the path, with the path walked so far.
\<close>

fun contains_symlink_loop :: "fs \<Rightarrow> path \<Rightarrow> component list \<Rightarrow> bool res" where
  "contains_symlink_loop F current [] = Inr False"
| "contains_symlink_loop F current (Normal c # cs) =
     (let current' = path_push current c
      in case fs_symlink_metadata F current' of
           Inl _ \<Rightarrow> Inl (''unable to get metadata for path '' @ current')
         | Inr meta \<Rightarrow> if is_symlink meta then Inr True else contains_symlink_loop F current' cs)"
| "contains_symlink_loop F current (CurDir # cs) = contains_symlink_loop F current cs"
| "contains_symlink_loop F current (RootDir # cs) = contains_symlink_loop F current cs"
| "contains_symlink_loop F current (ParentDir # cs) = contains_symlink_loop F current cs"

definition contains_symlink :: "fs \<Rightarrow> path \<Rightarrow> path \<Rightarrow> bool res" where
  "contains_symlink F p base = contains_symlink_loop F base (components p)"

section \<open>Metadata lookups\<close>

definition try_metadata :: "fs \<Rightarrow> path \<Rightarrow> nat + (inode \<times> bool)" where
  "try_metadata F p =
     (case fs_metadata F p of Inr meta \<Rightarrow> Inr (meta, is_dir_node meta) | Inl _ \<Rightarrow> Inl 404)"

text \<open>The path after the call and the metadata, if the suffixed path exists.\<close>

definition try_metadata_with_html_suffix :: "fs \<Rightarrow> path \<Rightarrow> path \<times> inode option" where
  "try_metadata_with_html_suffix F p =
     (case path_file_name p of
        Some filename \<Rightarrow>
          (let p1 = set_file_name p (filename @ ''.html'')
           in case try_metadata F p1 of
                Inr (meta, _) \<Rightarrow> (p1, Some meta)
              | Inl _ \<Rightarrow> (set_file_name p1 filename, None))
      | None \<Rightarrow> (p, None))"

definition try_file :: "fs \<Rightarrow> path \<Rightarrow> path option" where
  "try_file F p = (case try_metadata F p of Inr (_, False) \<Rightarrow> Some p | _ \<Rightarrow> None)"

fun try_suffixes :: "fs \<Rightarrow> path \<Rightarrow> string \<Rightarrow> string list \<Rightarrow> path option" where
  "try_suffixes F p filename [] = None"
| "try_suffixes F p filename (sfx # rest) =
     (case try_file F (set_file_name p (filename @ sfx)) of
        Some found \<Rightarrow> Some found
      | None \<Rightarrow> try_suffixes F p filename rest)"

definition try_markdown_variant :: "fs \<Rightarrow> path \<Rightarrow> path option" where
  "try_markdown_variant F p =
     (case (case path_file_name p of
              Some filename \<Rightarrow> try_suffixes F p filename [''.md'', ''.html.md'']
            | None \<Rightarrow> None) of
        Some found \<Rightarrow> Some found
      | None \<Rightarrow> try_file F (path_push p ''index.html.md''))"

section \<open>Lemmas\<close>

lemma component_normal_pushed: "is_normal_name n \<Longrightarrow> sanitize_step (Normal n) p = path_push p n"
  by (simp add: sanitize_step_def components_normal_name is_normal_def)

lemma sanitize_step_other: "\<not> is_normal c \<Longrightarrow> sanitize_step c p = p"
  by (cases c) (simp_all add: sanitize_step_def is_normal_def)

lemma normal_names_simps [simp]:
  "normal_names [] = []"
  "normal_names (Normal n # cs) = n # normal_names cs"
  "normal_names (RootDir # cs) = normal_names cs"
  "normal_names (CurDir # cs) = normal_names cs"
  "normal_names (ParentDir # cs) = normal_names cs"
  by (simp_all add: normal_names_def map_filter_simps)

lemma normal_names_map [simp]: "normal_names (map Normal ns) = ns"
  by (induction ns) simp_all

lemma normal_names_append [simp]: "normal_names (xs @ ys) = normal_names xs @ normal_names ys"
  by (simp add: normal_names_def)

lemma normal_names_components: "n \<in> set (normal_names (components p)) \<Longrightarrow> is_normal_name n"
  using components_names [of n p]
  by (auto simp: normal_names_def List.map_filter_def split: component.splits)

lemma fold_sanitize:
  "\<forall>n. Normal n \<in> set cs \<longrightarrow> is_normal_name n \<Longrightarrow>
   fold sanitize_step cs p = fold (\<lambda>n p. path_push p n) (normal_names cs) p"
proof (induction cs arbitrary: p)
  case (Cons c cs)
  then show ?case
    by (cases c) (simp_all add: component_normal_pushed, simp_all add: sanitize_step_def)
qed simp

lemma sanitize_path_components:
  "sanitize_path X base tail = Inr p \<Longrightarrow>
   components p = components base @ map Normal (normal_names (components (decode_tail_path X tail)))"
  using components_names [of _ "decode_tail_path X tail"]
    normal_names_components [of _ "decode_tail_path X tail"]
  by (auto simp: sanitize_path_def fold_sanitize components_push_names)

lemma contains_symlink_loop_resolve:
  "contains_symlink_loop F cur (map Normal ns) = Inr False \<Longrightarrow> \<forall>n \<in> set ns. is_normal_name n \<Longrightarrow>
   cur \<noteq> [] \<Longrightarrow> resolve F cur = Inr ms \<Longrightarrow>
   resolve F (fold (\<lambda>n p. path_push p n) ns cur) = Inr (ms @ ns)"
proof (induction ns arbitrary: cur ms)
  case (Cons n ns)
  from Cons.prems obtain nd where nd: "fs_symlink_metadata F (path_push cur n) = Inr nd" "\<not> is_symlink nd"
    and rest: "contains_symlink_loop F (path_push cur n) (map Normal ns) = Inr False"
    by (auto simp: Let_def split: sum.splits if_splits)
  have "path_push cur n \<noteq> []" using Cons.prems by (auto simp: path_push_def is_normal_name_def)
  with Cons.IH [OF rest _ _ resolve_push_plain(1) [OF _ Cons.prems(3,4) nd]] Cons.prems(2)
  show ?case by simp
qed simp

lemma components_join_names:
  assumes "\<forall>n \<in> set ns. is_normal_name n"
  shows "components (join ''/'' ns) = map Normal ns"
proof (cases ns)
  case (Cons n rest)
  have sp: "split_on (CHR ''/'') (join ''/'' ns) = ns"
    using assms Cons by (intro split_on_join) (auto simp: is_normal_name_def)
  have n: "is_normal_name n" using assms Cons by simp
  have "join ''/'' ns = n @ (case rest of [] \<Rightarrow> [] | _ \<Rightarrow> ''/'' @ join ''/'' rest)"
    using Cons by (cases rest) simp_all
  then have "\<not> has_root (join ''/'' ns)"
    using n by (cases n) (auto simp: has_root_def is_normal_name_def)
  moreover from this have "\<not> starts_cur_dir (join ''/'' ns)"
    using sp Cons n by (simp add: starts_cur_dir_def is_normal_name_def)
  ultimately show ?thesis using assms by (simp add: components_def sp map_filter_seg_normal)
qed simp

lemma strip_prefix_names:
  "components p = components base @ map Normal ns \<Longrightarrow> \<forall>n \<in> set ns. is_normal_name n \<Longrightarrow>
   \<exists>rel. path_strip_prefix p base = Some rel \<and> components rel = map Normal ns"
  by (auto simp: path_strip_prefix_def path_starts_with_def component_str_def components_join_names
      comp_def)

section \<open>Properties\<close>

text \<open>C12. A request path cannot leave the root: whatever it decodes to, the sanitised path consists of the
  components of the root followed only by plain names, none of them a dot, a double dot, empty,
  or with a separator, and these are the plain names of the decoded request path.\<close>

theorem sanitize_path_contained:
  "\<exists>p ns. sanitize_path X base tail = Inr p \<and> components p = components base @ map Normal ns \<and>
     list_all is_normal_name ns \<and> ns = normal_names (components (decode_tail_path X tail)) \<and>
     path_starts_with p base"
  using sanitize_path_components [of X base tail] normal_names_components
  by (auto simp: sanitize_path_def list_all_iff path_starts_with_def)

text \<open>C14. When no component below the root is a symbolic link, the file that a sanitised path names is the
  one reached from the root's own place by exactly the names of the request.\<close>

theorem no_symlink_stays_below_root:
  assumes "sanitize_path X base tail = Inr p" "base \<noteq> []" "resolve F base = Inr ms"
    and "path_strip_prefix p base = Some rel" "contains_symlink F rel base = Inr False"
  shows "resolve F p = Inr (ms @ normal_names (components (decode_tail_path X tail)))"
proof -
  let ?ns = "normal_names (components (decode_tail_path X tail))"
  have n: "\<forall>n \<in> set ?ns. is_normal_name n" using normal_names_components by blast
  have p: "p = fold (\<lambda>n p. path_push p n) ?ns base"
    using assms(1) components_names by (auto simp: sanitize_path_def fold_sanitize)
  have "components rel = map Normal ?ns"
    using strip_prefix_names [OF sanitize_path_components [OF assms(1)] n] assms(4) by auto
  with assms(5) have "contains_symlink_loop F base (map Normal ?ns) = Inr False"
    by (simp add: contains_symlink_def)
  from contains_symlink_loop_resolve [OF this n assms(2,3)] p show ?thesis by simp
qed

definition demo_dir :: inode where
  "demo_dir = demo_file\<lparr>nd_kind := Directory\<rparr>"

definition demo_link :: "path \<Rightarrow> inode" where
  "demo_link t = demo_file\<lparr>nd_kind := Symlink t\<rparr>"

definition demo_fs :: fs where
  "demo_fs = \<lparr>fs_nodes =
     [([''srv''], demo_dir), ([''srv'', ''a.html''], demo_file), ([''srv'', ''link''], demo_link ''/etc/passwd''),
      ([''etc''], demo_dir), ([''etc'', ''passwd''], demo_file\<lparr>nd_kind := Regular ''root''\<rparr>),
      ([''srv'', ''docs''], demo_dir), ([''srv'', ''docs'', ''index.html''], demo_link ''/etc/passwd'')],
     fs_cwd = []\<rparr>"

lemmas demo_fs_eval = demo_fs_def demo_dir_def demo_link_def demo_file_def

lemma demo_sanitize:
  "sanitize_path demo_ext base s = Inr (fold sanitize_step (components (trim_start_matches (CHR ''/'') s)) base)"
  by (simp add: sanitize_path_def decode_tail_path_def)

theorem no_symlink_stays_below_root_witness:
  "resolve demo_fs ''/srv/a.html'' = Inr [''srv'', ''a.html'']"
proof -
  have "sanitize_path demo_ext ''/srv'' ''/a.html'' = Inr ''/srv/a.html''"
    unfolding demo_sanitize by code_simp
  moreover have "resolve demo_fs ''/srv'' = Inr [''srv'']"
    by (simp add: walk_eval demo_fs_eval)
  moreover have "path_strip_prefix ''/srv/a.html'' ''/srv'' = Some ''a.html''" by code_simp
  moreover have "contains_symlink demo_fs ''a.html'' ''/srv'' = Inr False"
    by (simp add: contains_symlink_def components_def starts_cur_dir_def map_filter_simps seg_component_def
        path_push_def is_symlink_def walk_eval demo_fs_eval)
  moreover have "normal_names (components (decode_tail_path demo_ext ''/a.html'')) = [''a.html'']"
    unfolding decode_tail_path_def demo_ext_simps by code_simp
  ultimately show ?thesis
    using no_symlink_stays_below_root [of demo_ext "''/srv''" "''/a.html''" "''/srv/a.html''" demo_fs
        "[''srv'']" "''a.html''"] by simp
qed

end
