(* ===== verification/Pages.thy ===== *)
theory Pages
  imports Opts File_Access
begin

text \<open>
  The pages the gateway answers with on its own: error pages (\<open>src/error_page.rs\<close>), the
  maintenance page (\<open>src/maintenance_mode.rs\<close>), the health endpoint (\<open>src/health.rs\<close>) and the
  fallback page (\<open>src/fallback_page.rs\<close>), with the file helpers of \<open>src/helpers.rs\<close>. A step
  before the file server answers \<open>None\<close> to let the request pass; \<open>error_response\<close> never
  fails in the source, so it is modelled as a response.
\<close>

section \<open>Helpers\<close>

definition get_valid_dirpath :: "fs \<Rightarrow> path \<Rightarrow> path res" where
  "get_valid_dirpath F p =
     (if \<not> fs_exists F p then Inl (''path '' @ p @ '' was not found or inaccessible'')
      else if \<not> fs_is_dir F p then Inl (''path '' @ p @ '' is not a valid directory'')
      else Inr p)"

definition read_bytes :: "fs \<Rightarrow> path \<Rightarrow> string res" where
  "read_bytes F p =
     (case fs_read F p of Some c \<Rightarrow> Inr c | None \<Rightarrow> Inl (''failed to read file '' @ p))"

definition read_bytes_default :: "fs \<Rightarrow> path \<Rightarrow> string" where
  "read_bytes_default F p = (case fs_read F p of Some c \<Rightarrow> c | None \<Rightarrow> [])"

definition read_file :: "fs \<Rightarrow> path \<Rightarrow> string res" where
  "read_file F p =
     res_bind (read_bytes F p)
       (\<lambda>c. if valid_utf8 c then Inr c else Inl (''path at '' @ p @ '' was not valid utf-8''))"

definition trimmed_page :: "fs \<Rightarrow> path \<Rightarrow> string" where
  "trimmed_page F p = trim (utf8_lossy (read_bytes_default F p))"

section \<open>Error pages\<close>

definition client_error_statuses :: "nat list" where
  "client_error_statuses = [400, 401, 402, 403, 404, 405, 406, 407, 408, 409, 410, 411, 412, 413,
     414, 415, 416, 417]"

definition server_error_statuses :: "nat list" where
  "server_error_statuses = [500, 501, 502, 503, 504, 505, 506, 507, 508]"

text \<open>The custom page of a status; empty when there is none.\<close>

definition error_page_file :: "fs \<Rightarrow> nat \<Rightarrow> path \<Rightarrow> path \<Rightarrow> string" where
  "error_page_file F status p404 p50x =
     (if status \<in> set client_error_statuses
      then (if status = 404 \<and> fs_is_file F p404 then trimmed_page F p404 else [])
      else if status \<in> set server_error_statuses
      then (if fs_is_file F p50x then trimmed_page F p50x else [])
      else [])"

definition error_page_html :: "ext \<Rightarrow> nat \<Rightarrow> string" where
  "error_page_html X status =
     (let reason = (case x_canonical_reason X status of Some r \<Rightarrow> r | None \<Rightarrow> []);
          title = x_html_escape X (show_nat status @ '' '' @ reason)
      in ''<!DOCTYPE html><html><head><meta charset=\"utf-8\"><meta name=\"viewport\" content=\"width=device-width,minimum-scale=1,initial-scale=1\"><title>''
         @ title @ ''</title><style>html { color-scheme: light dark; } body { font-family: sans-serif; text-align: center; }</style></head><body><h1>''
         @ title @ ''</h1></body></html>'')"

text \<open>An HTML answer with its length; HEAD leaves the body out and keeps the headers.\<close>

definition html_page_response :: "http_method \<Rightarrow> nat \<Rightarrow> string \<Rightarrow> response" where
  "html_page_response m status content =
     rs_insert ''accept-ranges'' ''bytes''
       (rs_insert ''content-length'' (show_nat (length content))
         (rs_insert ''content-type'' TEXT_HTML_UTF_8
           ((response_new (body_unless_head m content))\<lparr>rs_status := status\<rparr>)))"

definition error_page_content :: "ext \<Rightarrow> fs \<Rightarrow> nat \<Rightarrow> path \<Rightarrow> path \<Rightarrow> string" where
  "error_page_content X F status p404 p50x =
     (let page = error_page_file F status p404 p50x
      in if page = [] then error_page_html X status else page)"

definition error_response ::
  "ext \<Rightarrow> fs \<Rightarrow> http_method \<Rightarrow> nat \<Rightarrow> path \<Rightarrow> path \<Rightarrow> response" where
  "error_response X F m status p404 p50x =
     html_page_response m status (error_page_content X F status p404 p50x)"

abbreviation error_reply :: "ext \<Rightarrow> fs \<Rightarrow> handler_opts \<Rightarrow> http_method \<Rightarrow> nat \<Rightarrow> response" where
  "error_reply X F opts m status \<equiv> error_response X F m status (page404 opts) (page50x opts)"

section \<open>Maintenance mode\<close>

definition maintenance_mode_init :: "bool \<Rightarrow> nat \<Rightarrow> path \<Rightarrow> handler_opts \<Rightarrow> handler_opts" where
  "maintenance_mode_init mode status file opts =
     opts\<lparr>maintenance_mode := mode, maintenance_mode_status := status, maintenance_mode_file := file\<rparr>"

definition status_display :: "ext \<Rightarrow> nat \<Rightarrow> string" where
  "status_display X status = show_nat status @ '' ''
     @ (case x_canonical_reason X status of Some r \<Rightarrow> r | None \<Rightarrow> ''<unknown status code>'')"

definition maintenance_content :: "ext \<Rightarrow> fs \<Rightarrow> nat \<Rightarrow> path \<Rightarrow> string" where
  "maintenance_content X F status file =
     (if fs_is_file F file then trimmed_page F file
      else ''<html><head><title>'' @ status_display X status
        @ ''</title></head><body><center><h1>The server is in maintenance mode.</h1></center></body></html>'')"

definition maintenance_get_response :: "ext \<Rightarrow> fs \<Rightarrow> http_method \<Rightarrow> nat \<Rightarrow> path \<Rightarrow> response" where
  "maintenance_get_response X F m status file =
     html_page_response m status (maintenance_content X F status file)"

definition maintenance_pre_process :: "ext \<Rightarrow> fs \<Rightarrow> handler_opts \<Rightarrow> request \<Rightarrow> response option" where
  "maintenance_pre_process X F opts req =
     (if maintenance_mode opts
      then Some (maintenance_get_response X F (rq_method req) (maintenance_mode_status opts)
                   (maintenance_mode_file opts))
      else None)"

section \<open>Health endpoint\<close>

definition health_init :: "bool \<Rightarrow> handler_opts \<Rightarrow> handler_opts" where
  "health_init enabled opts = opts\<lparr>health := enabled\<rparr>"

definition is_health_endpoint :: "request \<Rightarrow> bool" where
  "is_health_endpoint req = (uri_path (rq_uri req) = ''/health'')"

definition health_pre_process :: "handler_opts \<Rightarrow> request \<Rightarrow> response option" where
  "health_pre_process opts req =
     (if \<not> health opts then None
      else if \<not> is_health_endpoint req then None
      else if rq_method req = ''HEAD''
      then Some (rs_insert ''content-type'' ''text/html'' (response_new Empty_Body))
      else if rq_method req = ''GET''
      then Some (rs_insert ''content-type'' ''text/html'' (response_new (Bytes_Body ''OK'')))
      else None)"

section \<open>Fallback page\<close>

definition fallback_init :: "fs \<Rightarrow> path \<Rightarrow> handler_opts \<Rightarrow> handler_opts" where
  "fallback_init F file opts =
     (if fs_is_file F file then opts\<lparr>page_fallback := trimmed_page F file\<rparr> else opts)"

definition fallback_response :: "string \<Rightarrow> response" where
  "fallback_response page =
     rs_insert ''accept-ranges'' ''bytes''
       (rs_insert ''content-type'' TEXT_HTML_UTF_8
         (rs_insert ''content-length'' (show_nat (length page)) (response_new (Bytes_Body page))))"

definition fallback_post_process :: "handler_opts \<Rightarrow> request \<Rightarrow> response \<Rightarrow> response" where
  "fallback_post_process opts req resp =
     (if is_get (rq_method req) \<and> rs_status resp = 404 \<and> page_fallback opts \<noteq> []
      then fallback_response (page_fallback opts) else resp)"

section \<open>Lemmas and properties\<close>

lemma html_page_response_simps [simp]:
  "rs_status (html_page_response m s c) = s"
  "rs_body (html_page_response m s c) = body_unless_head m c"
  "rs_get ''content-length'' (html_page_response m s c) = Some (show_nat (length c))"
  "rs_get ''content-type'' (html_page_response m s c) = Some TEXT_HTML_UTF_8"
  by (simp_all add: html_page_response_def headers_simp)

lemma html_page_response_head:
  "rs_headers (html_page_response m s c) = rs_headers (html_page_response m' s c)"
  by (simp add: html_page_response_def)

lemma error_response_status [simp]: "rs_status (error_response X F m s p q) = s"
  by (simp add: error_response_def)

text \<open>The error page and the maintenance page of a status: a HEAD request gets the status and exactly
  the headers of the GET request, with an empty body, and the content length that both
  announce is the length of the body the GET request receives; a custom page is used, trimmed, for
  404 and for the server errors only, and the generated page is never empty.\<close>

theorem pages_head_like_get:
  "rs_headers (error_response X F ''HEAD'' s p q) = rs_headers (error_response X F ''GET'' s p q) \<and>
   rs_status (error_response X F m s p q) = s \<and>
   rs_body (error_response X F ''HEAD'' s p q) = Empty_Body \<and>
   (\<exists>c. rs_body (error_response X F ''GET'' s p q) = Bytes_Body c \<and> c \<noteq> [] \<and>
        rs_get ''content-length'' (error_response X F ''HEAD'' s p q) = Some (show_nat (length c)) \<and>
        (c = error_page_html X s \<or> s = 404 \<and> c = trimmed_page F p \<or>
         500 \<le> s \<and> s \<le> 508 \<and> c = trimmed_page F q)) \<and>
   rs_headers (maintenance_get_response X F ''HEAD'' s p) = rs_headers (maintenance_get_response X F ''GET'' s p) \<and>
   rs_body (maintenance_get_response X F ''HEAD'' s p) = Empty_Body \<and>
   (\<exists>c. rs_body (maintenance_get_response X F ''GET'' s p) = Bytes_Body c \<and>
        rs_get ''content-length'' (maintenance_get_response X F ''HEAD'' s p) = Some (show_nat (length c)))"
proof -
  have ne: "error_page_html X s \<noteq> []" by (simp add: error_page_html_def Let_def)
  have "500 \<le> s \<and> s \<le> 508" if "s \<in> set server_error_statuses"
    using that by (auto simp: server_error_statuses_def)
  then show ?thesis
    using ne html_page_response_head [of "''HEAD''" s _ "''GET''"]
    by (auto simp: error_response_def maintenance_get_response_def body_unless_head_def is_head_def
        error_page_content_def error_page_file_def Let_def)
qed

end
