(* ===== verification/Accept_Headers.thy ===== *)
theory Accept_Headers
  imports Externals
begin

text \<open>
  The headers with quality values (\<open>src/headers_ext/\<close>): parsing an item with its quality,
  the order in which the items are offered, and the \<open>Accept\<close> and \<open>Accept-Encoding\<close> headers
  built on it. The order is a total preorder, interpreted as a \<open>comparison\<close>.
\<close>

section \<open>Quality values\<close>

record quality_meta =
  qm_data :: string
  qm_quality :: nat

text \<open>The loop over the parts of an item: the last well-formed \<open>q=\<close> wins.\<close>

fun quality_loop :: "ext \<Rightarrow> string list \<Rightarrow> nat \<Rightarrow> nat" where
  "quality_loop X [] quality = quality"
| "quality_loop X (part # parts) quality =
     (case strip_prefix ''q='' (trim_start part) of
        None \<Rightarrow> quality_loop X parts quality
      | Some v \<Rightarrow>
          (case x_parse_quality X (trim v) of
             Some q \<Rightarrow> quality_loop X parts q
           | None \<Rightarrow> quality_loop X parts quality))"

definition quality_meta_try_from :: "ext \<Rightarrow> string \<Rightarrow> quality_meta" where
  "quality_meta_try_from X val =
     (let parts = split_on (CHR '';'') val
      in \<lparr>qm_data = trim (hd parts), qm_quality = quality_loop X parts 1000\<rparr>)"

text \<open>The comparison of \<open>sort_by\<close>: quality first, then the priority of the coding, both falling.\<close>

definition quality_le :: "quality_meta \<Rightarrow> quality_meta \<Rightarrow> bool" where
  "quality_le a b =
     (if qm_quality a = qm_quality b
      then coding_priority (coding_from (qm_data b)) \<le> coding_priority (coding_from (qm_data a))
      else qm_quality b < qm_quality a)"

definition quality_items :: "ext \<Rightarrow> string \<Rightarrow> quality_meta list" where
  "quality_items X v =
     (case x_header_str X v of
        Some s \<Rightarrow> map (quality_meta_try_from X) (split_on (CHR '','') s)
      | None \<Rightarrow> [])"

definition quality_value_iter :: "ext \<Rightarrow> string \<Rightarrow> string list" where
  "quality_value_iter X v = map qm_data (sort_by quality_le (quality_items X v))"

text \<open>Several header lines are one value, joined with commas.\<close>

definition try_from_values :: "ext \<Rightarrow> string list \<Rightarrow> string option" where
  "try_from_values X vs =
     (case vs of
        [] \<Rightarrow> Some []
      | [v] \<Rightarrow> Some v
      | v # ws \<Rightarrow> x_header_bytes X (v @ concat (map (\<lambda>w. '', '' @ w) ws)))"

section \<open>Accept and Accept-Encoding\<close>

definition accepts :: "ext \<Rightarrow> string \<Rightarrow> string \<Rightarrow> bool" where
  "accepts X accept media_type =
     list_ex (\<lambda>v. eq_ignore_ascii_case v media_type) (quality_value_iter X accept)"

definition accepts_markdown :: "ext \<Rightarrow> string \<Rightarrow> bool" where
  "accepts_markdown X accept = accepts X accept ''text/markdown''"

definition typed_accept :: "ext \<Rightarrow> headers \<Rightarrow> string option" where
  "typed_accept X h = typed_get (try_from_values X) ''accept'' h"

definition typed_accept_encoding :: "ext \<Rightarrow> headers \<Rightarrow> string option" where
  "typed_accept_encoding X h = typed_get (try_from_values X) ''accept-encoding'' h"

definition sorted_encodings :: "ext \<Rightarrow> string \<Rightarrow> content_coding list" where
  "sorted_encodings X v = map coding_from (quality_value_iter X v)"

section \<open>The order\<close>

interpretation quality: comparison quality_le
  by unfold_locales (auto simp: quality_le_def split: if_splits)

lemma quality_le_equiv:
  "quality_le a b \<and> quality_le b a \<longleftrightarrow>
   qm_quality a = qm_quality b \<and> coding_from (qm_data a) = coding_from (qm_data b)"
  by (auto simp: quality_le_def intro: coding_priority_inj)

lemma quality_items_length:
  "x_header_str X v = Some s \<Longrightarrow> length (quality_value_iter X v) = length (split_on (CHR '','') s)"
  by (simp add: quality_value_iter_def quality_items_def)

lemma quality_loop_no_q:
  "\<forall>p \<in> set parts. strip_prefix ''q='' (trim_start p) = None \<Longrightarrow> quality_loop X parts q = q"
  by (induction parts arbitrary: q) auto

text \<open>The items of a header with quality values are offered in falling order of quality and,
  at the same quality, of the priority of their coding; they are the items of the header, and items
  that neither decides keep the order of the header.\<close>

theorem quality_value_order:
  "\<exists>ms. quality_value_iter X v = map qm_data ms \<and> mset ms = mset (quality_items X v) \<and>
     sorted_wrt (\<lambda>a b. qm_quality b < qm_quality a \<or> qm_quality a = qm_quality b \<and>
        coding_priority (coding_from (qm_data b)) \<le> coding_priority (coding_from (qm_data a))) ms \<and>
     (\<forall>q c. filter (\<lambda>m. qm_quality m = q \<and> coding_from (qm_data m) = c) ms =
            filter (\<lambda>m. qm_quality m = q \<and> coding_from (qm_data m) = c) (quality_items X v))"
proof -
  let ?xs = "quality_items X v" and ?ms = "sort_by quality_le (quality_items X v)"
  have "filter (\<lambda>m. qm_quality m = q \<and> coding_from (qm_data m) = c) ?ms =
      filter (\<lambda>m. qm_quality m = q \<and> coding_from (qm_data m) = c) ?xs" for q c
  proof (cases "\<exists>z \<in> set ?xs. qm_quality z = q \<and> coding_from (qm_data z) = c")
    case True
    then obtain z :: quality_meta where "qm_quality z = q" "coding_from (qm_data z) = c" by blast
    then have "(\<lambda>m. qm_quality m = q \<and> coding_from (qm_data m) = c) = (\<lambda>m :: quality_meta. quality_le z m \<and> quality_le m z)"
      by (auto simp: quality_le_equiv)
    then show ?thesis by (simp only: quality.stable)
  next
    case False
    then show ?thesis by (simp add: filter_empty_conv)
  qed
  moreover have "sorted_wrt (\<lambda>a b. qm_quality b < qm_quality a \<or> qm_quality a = qm_quality b \<and>
        coding_priority (coding_from (qm_data b)) \<le> coding_priority (coding_from (qm_data a))) ?ms"
    by (rule sorted_wrt_mono_rel [OF _ quality.sorted]) (auto simp: quality_le_def split: if_splits)
  ultimately show ?thesis by (intro exI [of _ ?ms]) (simp add: quality_value_iter_def)
qed

end
