(* ===== verification/Stages.thy ===== *)
theory Stages
  imports Opts
begin

text \<open>
  The stages that add headers to a response: media types (\<open>src/mime_ext.rs\<close>), the text charset
  (\<open>src/text_charset.rs\<close>), cache control (\<open>src/control_headers.rs\<close>), the security headers
  (\<open>src/security_headers.rs\<close>) and the custom headers (\<open>src/custom_headers.rs\<close>). The
  interface \<open>response_stage\<close> says what such a stage leaves alone; each stage is an
  interpretation, and composed stages are stages again.
\<close>

locale response_stage =
  fixes stage :: "response \<Rightarrow> response"
    and touched :: "string set"
  assumes keeps_status: "rs_status (stage r) = rs_status r"
    and keeps_body: "rs_body (stage r) = rs_body r"
    and untouched: "k \<notin> touched \<Longrightarrow> rs_get k (stage r) = rs_get k r"
begin

lemma keeps_all:
  "k \<notin> touched \<Longrightarrow> rs_status (stage r) = rs_status r \<and> rs_body (stage r) = rs_body r \<and> rs_get k (stage r) = rs_get k r"
  by (simp add: keeps_status keeps_body untouched)

end

locale two_stages =
  one: response_stage f A + two: response_stage g B
  for f A g B

sublocale two_stages \<subseteq> both: response_stage "\<lambda>r. g (f r)" "A \<union> B"
  by unfold_locales
    (simp_all add: one.keeps_status two.keeps_status one.keeps_body two.keeps_body one.untouched two.untouched)

section \<open>Media types\<close>

definition TEXT_MIME_TYPES :: "string list" where
  "TEXT_MIME_TYPES = [''application/csv'', ''application/graphql'', ''application/javascript'',
     ''application/json'', ''application/rtf'', ''application/sql'', ''application/x-yaml'',
     ''application/xml'', ''application/yaml'']"

definition ADDITIONAL_COMPRESSIBLE_TYPES :: "string list" where
  "ADDITIONAL_COMPRESSIBLE_TYPES = [''application/wasm'', ''application/font-sfnt'',
     ''application/vnd.ms-fontobject'', ''image/x-icon'', ''image/vnd.microsoft.icon'']"

definition is_text_only :: "mime \<Rightarrow> bool" where
  "is_text_only m = (mm_type m = ''text'')"

definition is_text :: "mime \<Rightarrow> bool" where
  "is_text m =
     (if is_text_only m then True
      else case mm_suffix m of
             Some s \<Rightarrow>
               if s = ''json'' \<or> s = ''xml'' \<or> s = ''yaml'' \<or> s = ''svg'' then True
               else mm_essence m \<in> set TEXT_MIME_TYPES
           | None \<Rightarrow> mm_essence m \<in> set TEXT_MIME_TYPES)"

definition contains_text_only :: "string list \<Rightarrow> mime \<Rightarrow> bool" where
  "contains_text_only allowed m =
     (if \<not> is_text_only m then False else mm_essence m \<in> set allowed)"

definition is_compressible :: "mime \<Rightarrow> bool" where
  "is_compressible m =
     (if is_text m then True
      else if mm_type m = ''font'' then mm_essence m \<noteq> ''font/woff2''
      else mm_essence m \<in> set ADDITIONAL_COMPRESSIBLE_TYPES)"

section \<open>Text charset\<close>

definition TEXT_ONLY_TYPES :: "string list" where
  "TEXT_ONLY_TYPES = [''application/atom+xml'', ''application/rss+xml'', ''text/calendar'', ''text/csv'',
     ''text/html'', ''text/markdown'', ''text/plain'', ''text/xml'']"

definition text_charset_value :: "ext \<Rightarrow> response \<Rightarrow> string option" where
  "text_charset_value X resp =
     (case Option.bind (rs_get ''content-type'' resp) (x_header_str X) of
        None \<Rightarrow> None
      | Some s \<Rightarrow>
          (case x_parse_mime X s of
             None \<Rightarrow> None
           | Some m \<Rightarrow>
               if contains_text_only TEXT_ONLY_TYPES m \<and> mm_charset m = None
               then x_header_value X (trim_end_matches (CHR '';'') (trim_end s) @ ''; charset=utf-8'')
               else None))"

definition text_charset_post_process :: "ext \<Rightarrow> handler_opts \<Rightarrow> response \<Rightarrow> response" where
  "text_charset_post_process X opts resp =
     (if \<not> text_charset opts then resp
      else case text_charset_value X resp of
             Some v \<Rightarrow> rs_insert ''content-type'' v resp
           | None \<Rightarrow> resp)"

section \<open>Cache control\<close>

definition MAX_AGE_ONE_HOUR :: nat where "MAX_AGE_ONE_HOUR = 60 * 60"
definition MAX_AGE_ONE_DAY :: nat where "MAX_AGE_ONE_DAY = 60 * 60 * 24"
definition MAX_AGE_ONE_YEAR :: nat where "MAX_AGE_ONE_YEAR = 60 * 60 * 24 * 365"

definition CACHE_EXT_ONE_HOUR :: "string list" where
  "CACHE_EXT_ONE_HOUR = [''atom'', ''json'', ''rss'', ''xml'']"

definition CACHE_EXT_ONE_YEAR :: "string list" where
  "CACHE_EXT_ONE_YEAR = [''avif'', ''bmp'', ''bz2'', ''css'', ''doc'', ''gif'', ''gz'', ''htc'', ''ico'',
     ''jpeg'', ''jpg'', ''js'', ''jxl'', ''map'', ''mjs'', ''mp3'', ''mp4'', ''ogg'', ''ogv'', ''pdf'',
     ''png'', ''rar'', ''rtf'', ''tar'', ''tgz'', ''wav'', ''weba'', ''webm'', ''webp'', ''woff'',
     ''woff2'', ''zip'']"

definition cache_control_init :: "bool \<Rightarrow> handler_opts \<Rightarrow> handler_opts" where
  "cache_control_init enabled opts = opts\<lparr>cache_control_headers := enabled\<rparr>"

definition get_file_extension :: "string \<Rightarrow> string option" where
  "get_file_extension uri = map_option snd (rsplit_once (CHR ''.'') uri)"

definition get_max_age :: "string \<Rightarrow> nat" where
  "get_max_age uri =
     (case get_file_extension uri of
        None \<Rightarrow> MAX_AGE_ONE_DAY
      | Some extension \<Rightarrow>
          if bsearch CACHE_EXT_ONE_HOUR extension \<noteq> None then MAX_AGE_ONE_HOUR
          else if bsearch CACHE_EXT_ONE_YEAR extension \<noteq> None then MAX_AGE_ONE_YEAR
          else MAX_AGE_ONE_DAY)"

definition u32_max :: nat where "u32_max = 4294967295"

definition cache_control_append :: "string \<Rightarrow> response \<Rightarrow> response" where
  "cache_control_append uri resp =
     rs_insert ''cache-control'' (''max-age='' @ show_nat (min (get_max_age uri) u32_max)) resp"

definition cache_control_post_process :: "handler_opts \<Rightarrow> request \<Rightarrow> response \<Rightarrow> response" where
  "cache_control_post_process opts req resp =
     (if cache_control_headers opts then cache_control_append (uri_path (rq_uri req)) resp else resp)"

section \<open>Security headers\<close>

definition security_headers_init :: "bool \<Rightarrow> handler_opts \<Rightarrow> handler_opts" where
  "security_headers_init enabled opts = opts\<lparr>security_headers := enabled\<rparr>"

definition security_append_headers :: "response \<Rightarrow> response" where
  "security_append_headers resp =
     rs_insert ''content-security-policy'' (''frame-ancestors '' @ [CHR 0x27] @ ''self'' @ [CHR 0x27])
       (rs_insert ''x-content-type-options'' ''nosniff''
         (rs_insert ''x-frame-options'' ''DENY''
           (rs_insert ''strict-transport-security'' ''max-age=63072000; includeSubDomains; preload'' resp)))"

definition security_post_process :: "handler_opts \<Rightarrow> response \<Rightarrow> response" where
  "security_post_process opts resp = (if security_headers opts then security_append_headers resp else resp)"

section \<open>Custom headers\<close>

text \<open>The path that the rules are matched against: with the file name when the request names a
  directory, or whenever directories are not redirected.\<close>

definition custom_headers_uri :: "string \<Rightarrow> path option \<Rightarrow> bool \<Rightarrow> string" where
  "custom_headers_uri uri file_path redirect =
     (let auto_index =
        (case file_path of
           None \<Rightarrow> None
         | Some p \<Rightarrow>
             if suffix ''/'' uri \<or> \<not> redirect
             then (case Option.bind (path_file_name p) path_to_str of
                     Some name \<Rightarrow> Some (if uri = ''/'' then ''/'' @ name else uri @ ''/'' @ name)
                   | None \<Rightarrow> None)
             else None)
      in case auto_index of Some s \<Rightarrow> s | None \<Rightarrow> uri)"

definition insert_all :: "headers \<Rightarrow> response \<Rightarrow> response" where
  "insert_all kvs resp = fold (\<lambda>(k, v) r. rs_insert k v r) kvs resp"

fun custom_headers_loop :: "ext \<Rightarrow> string \<Rightarrow> headers_rule list \<Rightarrow> response \<Rightarrow> response" where
  "custom_headers_loop X uri [] resp = resp"
| "custom_headers_loop X uri (e # es) resp =
     custom_headers_loop X uri es
       (if x_glob_match X (hr_source e) uri then insert_all (hr_headers e) resp else resp)"

definition custom_append_headers ::
  "ext \<Rightarrow> string \<Rightarrow> headers_rule list option \<Rightarrow> path option \<Rightarrow> bool \<Rightarrow> response \<Rightarrow> response" where
  "custom_append_headers X uri rules file_path redirect resp =
     (case rules of
        None \<Rightarrow> resp
      | Some es \<Rightarrow> custom_headers_loop X (custom_headers_uri uri file_path redirect) es resp)"

definition custom_headers_post_process ::
  "ext \<Rightarrow> handler_opts \<Rightarrow> request \<Rightarrow> path option \<Rightarrow> response \<Rightarrow> response" where
  "custom_headers_post_process X opts req file_path resp =
     (case advanced_opts opts of
        None \<Rightarrow> resp
      | Some a \<Rightarrow> custom_append_headers X (uri_path (rq_uri req)) (ad_headers a) file_path
                   (redirect_trailing_slash opts) resp)"

section \<open>The stages keep the interface\<close>

interpretation text_charset_stage: response_stage "text_charset_post_process X opts" "{''content-type''}" for X opts
  by unfold_locales
    (auto simp: text_charset_post_process_def headers_simp split: option.split)

interpretation cache_control_stage: response_stage "cache_control_post_process opts req" "{''cache-control''}" for opts req
  by unfold_locales (auto simp: cache_control_post_process_def cache_control_append_def headers_simp)

definition security_names :: "string set" where
  "security_names = {''strict-transport-security'', ''x-frame-options'', ''x-content-type-options'',
     ''content-security-policy''}"

interpretation security_stage: response_stage "security_post_process opts" security_names for opts
  by unfold_locales
    (auto simp: security_post_process_def security_append_headers_def security_names_def headers_simp)

lemma insert_all_keeps [simp]:
  "rs_status (insert_all kvs r) = rs_status r" "rs_body (insert_all kvs r) = rs_body r"
  by (induction kvs arbitrary: r) (auto simp: insert_all_def)

lemma insert_all_untouched: "k \<notin> fst ` set kvs \<Longrightarrow> rs_get k (insert_all kvs r) = rs_get k r"
  by (induction kvs arbitrary: r) (auto simp: insert_all_def headers_simp)

lemma custom_loop_keeps [simp]:
  "rs_status (custom_headers_loop X u es r) = rs_status r" "rs_body (custom_headers_loop X u es r) = rs_body r"
  by (induction es arbitrary: r) auto

lemma custom_loop_untouched:
  "k \<notin> (\<Union>e \<in> set es. fst ` set (hr_headers e)) \<Longrightarrow> rs_get k (custom_headers_loop X u es r) = rs_get k r"
  by (induction es arbitrary: r) (auto simp: insert_all_untouched)

definition custom_names :: "handler_opts \<Rightarrow> string set" where
  "custom_names opts =
     (case advanced_opts opts of
        Some a \<Rightarrow> (case ad_headers a of Some es \<Rightarrow> (\<Union>e \<in> set es. fst ` set (hr_headers e)) | None \<Rightarrow> {})
      | None \<Rightarrow> {})"

interpretation custom_stage: response_stage "custom_headers_post_process X opts req fp" "custom_names opts" for X opts req fp
  by unfold_locales
    (auto simp: custom_headers_post_process_def custom_append_headers_def custom_names_def
      custom_loop_untouched split: option.split)

text \<open>The tail of the pipeline of a file response: cache control, then the security headers.\<close>

interpretation policy_stages:
  two_stages "cache_control_post_process opts req" "{''cache-control''}" "security_post_process opts" security_names
  for opts req
  by unfold_locales

section \<open>Properties\<close>

lemma cache_tables_sorted: "sorted CACHE_EXT_ONE_HOUR" "sorted CACHE_EXT_ONE_YEAR"
  by code_simp+

lemma get_max_age_le: "get_max_age uri \<le> MAX_AGE_ONE_YEAR"
  by (auto simp: get_max_age_def MAX_AGE_ONE_DAY_def MAX_AGE_ONE_HOUR_def MAX_AGE_ONE_YEAR_def
      split: option.split)

text \<open>The cache lifetime of a path: what follows its last dot is looked up by binary search in the
  two extension tables, and the result is exactly membership: one hour for the first table, one
  year for the second, one day for everything else and for paths without a dot. The cap of the
  header value is never reached.\<close>

theorem cache_control_by_extension:
  "rs_get ''cache-control'' (cache_control_append uri resp) =
     Some (''max-age='' @ show_nat
       (case rsplit_once (CHR ''.'') uri of
          None \<Rightarrow> 86400
        | Some (_, e) \<Rightarrow>
            if e \<in> set CACHE_EXT_ONE_HOUR then 3600
            else if e \<in> set CACHE_EXT_ONE_YEAR then 31536000 else 86400))"
proof -
  have "min (get_max_age uri) u32_max = get_max_age uri"
    using get_max_age_le [of uri] by (simp add: u32_max_def MAX_AGE_ONE_YEAR_def)
  moreover have "get_max_age uri = (case rsplit_once (CHR ''.'') uri of None \<Rightarrow> 86400
      | Some (_, e) \<Rightarrow> if e \<in> set CACHE_EXT_ONE_HOUR then 3600
          else if e \<in> set CACHE_EXT_ONE_YEAR then 31536000 else 86400)"
    unfolding get_max_age_def get_file_extension_def bsearch_member [OF cache_tables_sorted(1)]
      bsearch_member [OF cache_tables_sorted(2)]
    by (simp add: MAX_AGE_ONE_DAY_def MAX_AGE_ONE_HOUR_def MAX_AGE_ONE_YEAR_def split: option.split)
  ultimately show ?thesis by (simp add: cache_control_append_def headers_simp)
qed

text \<open>The text charset: a response is changed only when its content type parses as one of the listed
  text types without a charset, and then only its content type, to the same value with the
  charset appended; in particular a type outside \<open>text/*\<close>, such as the listed Atom and RSS types,
  is never changed.\<close>

theorem text_charset_annotates:
  assumes "rs_get ''content-type'' resp = Some ct" "x_header_str X ct = Some s" "x_parse_mime X s = Some m"
    and "text_charset opts"
    and "\<And>t. x_header_value X (t @ ''; charset=utf-8'') = Some (t @ ''; charset=utf-8'')"
  shows "text_charset_post_process X opts resp =
    (if mm_type m = ''text'' \<and> mm_essence m \<in> set TEXT_ONLY_TYPES \<and> mm_charset m = None
     then rs_insert ''content-type'' (trim_end_matches (CHR '';'') (trim_end s) @ ''; charset=utf-8'') resp
     else resp)"
  using assms
  by (auto simp: text_charset_post_process_def text_charset_value_def contains_text_only_def is_text_only_def)

theorem text_charset_annotates_witness:
  "rs_get ''content-type'' (text_charset_post_process demo_ext handler_opts_default
     (rs_insert ''content-type'' ''text/html'' (response_new Empty_Body))) = Some ''text/html; charset=utf-8''"
proof -
  let ?r = "rs_insert ''content-type'' ''text/html'' (response_new Empty_Body)"
  have "x_parse_mime demo_ext ''text/html'' =
      Some \<lparr>mm_type = ''text'', mm_essence = ''text/html'', mm_suffix = None, mm_charset = None\<rparr>"
    by (simp add: demo_mime_def)
  moreover have "rs_get ''content-type'' ?r = Some ''text/html''" by (simp add: headers_simp)
  moreover have "trim_end_matches (CHR '';'') (trim_end ''text/html'') = ''text/html''"
    using trim_end_visible [of "CHR ''l''" "''text/htm''"] by (simp add: visible_def trim_end_matches_def)
  ultimately show ?thesis
    using text_charset_annotates [of ?r "''text/html''" demo_ext "''text/html''" _ handler_opts_default]
    by (simp add: headers_simp TEXT_ONLY_TYPES_def)
qed

text \<open>The custom headers of a directory request: with a rule for the served index file written the
  way the request names it, a request for a sub-directory is matched against a path with a
  doubled slash, and, when directories are not redirected, a request for a file is matched
  against the file name appended to itself.\<close>

theorem custom_headers_path:
  assumes "path_file_name p = Some n" "valid_utf8 n"
  shows "custom_headers_uri ''/'' (Some p) True = ''/'' @ n \<and>
    custom_headers_uri (''/'' @ d @ ''/'') (Some p) True = ''/'' @ d @ ''//'' @ n \<and>
    custom_headers_uri (''/'' @ n) (Some p) False = ''/'' @ n @ ''/'' @ n"
  using assms file_name_normal [OF assms(1)]
  by (simp add: custom_headers_uri_def path_to_str_def suffix_def Let_def is_normal_name_def)

theorem custom_headers_path_witness:
  "custom_headers_uri ''/docs/'' (Some ''public/docs/index.html'') True = ''/docs//index.html''"
proof -
  have "path_file_name ''public/docs/index.html'' = Some ''index.html''"
    by (simp add: path_file_name_def components_def has_root_def starts_cur_dir_def map_filter_simps
        seg_component_def)
  moreover have "valid_utf8 ''index.html''" by (rule valid_utf8_ascii) simp
  ultimately show ?thesis
    using custom_headers_path [of "''public/docs/index.html''" "''index.html''" "''docs''"] by simp
qed

end
