(* ===== verification/Compression.thy ===== *)
theory Compression
  imports Accept_Headers Pages Stages
begin

text \<open>
  Compression of responses on the fly (\<open>src/compression.rs\<close>) and the choice of pre-compressed
  files (\<open>src/compression_static.rs\<close>). The encoders themselves are library code: an encoded body
  is the constructor \<open>Encoded_Body\<close> over the plain one. An \<open>unwrap\<close> on a header value that the
  library rejects is the error \<open>unwrap_panic\<close>.
\<close>

definition unwrap_panic :: anyhow_error where
  "unwrap_panic = ''called `Result::unwrap()` on an `Err` value''"

section \<open>On the fly\<close>

definition AVAILABLE_ENCODINGS :: "content_coding list" where
  "AVAILABLE_ENCODINGS = [DEFLATE, GZIP, BROTLI, ZSTD]"

definition compression_init :: "bool \<Rightarrow> compression_level \<Rightarrow> handler_opts \<Rightarrow> handler_opts" where
  "compression_init enabled level opts = opts\<lparr>compression := enabled, compression_level := level\<rparr>"

definition create_encoding_header :: "ext \<Rightarrow> string option \<Rightarrow> content_coding \<Rightarrow> string" where
  "create_encoding_header X existing coding =
     (case Option.bind existing (x_header_str X) of
        Some s \<Rightarrow> (case x_header_value X (s @ '', '' @ coding_str coding) of
                     Some v \<Rightarrow> v | None \<Rightarrow> coding_str coding)
      | None \<Rightarrow> coding_str coding)"

text \<open>The four encoders differ in the coding and in their default level.\<close>

definition encode_response ::
  "ext \<Rightarrow> content_coding \<Rightarrow> int \<Rightarrow> compression_level \<Rightarrow> response \<Rightarrow> response" where
  "encode_response X coding default_level level resp =
     (let existing = rs_get ''content-encoding'' resp;
          header = create_encoding_header X existing coding
      in rs_insert ''content-encoding'' header
           (rs_remove ''content-length''
             (rs_remove ''content-encoding''
               (resp\<lparr>rs_body := Encoded_Body coding (into_algorithm_level level default_level) (rs_body resp)\<rparr>))))"

definition gzip :: "ext \<Rightarrow> compression_level \<Rightarrow> response \<Rightarrow> response" where
  "gzip X level resp = encode_response X GZIP 4 level resp"

definition deflate :: "ext \<Rightarrow> compression_level \<Rightarrow> response \<Rightarrow> response" where
  "deflate X level resp = encode_response X DEFLATE 4 level resp"

definition brotli :: "ext \<Rightarrow> compression_level \<Rightarrow> response \<Rightarrow> response" where
  "brotli X level resp = encode_response X BROTLI 4 level resp"

definition zstd :: "ext \<Rightarrow> compression_level \<Rightarrow> response \<Rightarrow> response" where
  "zstd X level resp = encode_response X ZSTD 3 level resp"

definition get_preferred_encoding :: "ext \<Rightarrow> headers \<Rightarrow> content_coding option" where
  "get_preferred_encoding X h =
     (case typed_accept_encoding X h of
        None \<Rightarrow> None
      | Some ae \<Rightarrow> find (\<lambda>c. c \<in> set AVAILABLE_ENCODINGS) (sorted_encodings X ae))"

definition get_encodings :: "ext \<Rightarrow> headers \<Rightarrow> content_coding list" where
  "get_encodings X h =
     (case typed_accept_encoding X h of
        None \<Rightarrow> []
      | Some ae \<Rightarrow> filter (\<lambda>c. c \<in> set AVAILABLE_ENCODINGS) (sorted_encodings X ae))"

definition compress_auto :: "ext \<Rightarrow> http_method \<Rightarrow> headers \<Rightarrow> compression_level \<Rightarrow> response \<Rightarrow> response" where
  "compress_auto X m h level resp =
     (if is_head m \<or> is_options m then resp
      else case get_preferred_encoding X h of
             None \<Rightarrow> resp
           | Some encoding \<Rightarrow>
               (case typed_get (x_content_type X) ''content-type'' (rs_headers resp) of
                  Some ct \<Rightarrow>
                    if \<not> is_compressible ct then resp
                    else if encoding = GZIP then gzip X level resp
                    else if encoding = DEFLATE then deflate X level resp
                    else if encoding = BROTLI then brotli X level resp
                    else if encoding = ZSTD then zstd X level resp
                    else resp
                | None \<Rightarrow>
                    if encoding = GZIP then gzip X level resp
                    else if encoding = DEFLATE then deflate X level resp
                    else if encoding = BROTLI then brotli X level resp
                    else if encoding = ZSTD then zstd X level resp
                    else resp))"

definition compression_vary :: "ext \<Rightarrow> response \<Rightarrow> string res" where
  "compression_vary X resp =
     (case rs_get ''vary'' resp of
        None \<Rightarrow> Inr ''accept-encoding''
      | Some h \<Rightarrow>
          (let a = (case x_header_str X h of Some s \<Rightarrow> s | None \<Rightarrow> []);
               a' = (if str_contains ''accept-encoding'' a then a
                     else (if a = [] then a else a @ '','') @ ''accept-encoding'')
           in case x_header_value X a' of Some v \<Rightarrow> Inr v | None \<Rightarrow> Inl unwrap_panic))"

definition compression_post_process :: "ext \<Rightarrow> handler_opts \<Rightarrow> request \<Rightarrow> response \<Rightarrow> response res" where
  "compression_post_process X opts req resp =
     (if \<not> compression opts then Inr resp
      else if rs_get ''content-encoding'' resp \<noteq> None then Inr resp
      else res_bind (compression_vary X resp)
        (\<lambda>v. Inr (compress_auto X (rq_method req) (rq_headers req) (compression_level opts)
                    (rs_insert ''vary'' v resp))))"

section \<open>Pre-compressed files\<close>

record compressed_file_variant =
  cv_file_path :: path
  cv_metadata :: inode
  cv_encoding :: content_coding

definition compression_static_init :: "bool \<Rightarrow> handler_opts \<Rightarrow> handler_opts" where
  "compression_static_init enabled opts = opts\<lparr>compression_static := enabled\<rparr>"

definition compression_static_post_process :: "ext \<Rightarrow> handler_opts \<Rightarrow> response \<Rightarrow> response res" where
  "compression_static_post_process X opts resp =
     (if \<not> compression_static opts then Inr resp
      else case rs_get ''vary'' resp of
             None \<Rightarrow> Inr (rs_insert ''vary'' ''accept-encoding'' resp)
           | Some h \<Rightarrow>
               (let s = (case x_header_str X h of Some s \<Rightarrow> s | None \<Rightarrow> []) @ '','' @ ''accept-encoding''
                in case x_header_value X s of
                     Some v \<Rightarrow> Inr (rs_insert ''vary'' v resp)
                   | None \<Rightarrow> Inl unwrap_panic))"

fun coding_extension :: "content_coding \<Rightarrow> string option" where
  "coding_extension GZIP = Some ''gz''"
| "coding_extension DEFLATE = Some ''gz''"
| "coding_extension BROTLI = Some ''br''"
| "coding_extension ZSTD = Some ''zst''"
| "coding_extension _ = None"

fun variant_loop :: "fs \<Rightarrow> path \<Rightarrow> content_coding list \<Rightarrow> compressed_file_variant option" where
  "variant_loop F p [] = None"
| "variant_loop F p (enc # encs) =
     (case coding_extension enc of
        None \<Rightarrow> variant_loop F p encs
      | Some comp_ext \<Rightarrow>
          (case Option.bind (path_file_name p) path_to_str of
             None \<Rightarrow> variant_loop F p encs
           | Some comp_name \<Rightarrow>
               (let p' = set_file_name p (comp_name @ ''.'' @ comp_ext)
                in case try_metadata F p' of
                     Inl _ \<Rightarrow> variant_loop F p encs
                   | Inr (meta, is_dir) \<Rightarrow>
                       if is_dir then variant_loop F p encs
                       else Some \<lparr>cv_file_path = p', cv_metadata = meta, cv_encoding = enc\<rparr>)))"

definition precompressed_variant :: "ext \<Rightarrow> fs \<Rightarrow> path \<Rightarrow> headers \<Rightarrow> compressed_file_variant option" where
  "precompressed_variant X F p h =
     (case typed_accept_encoding X h of
        Some ae \<Rightarrow> variant_loop F p (sorted_encodings X ae)
      | None \<Rightarrow> None)"

section \<open>Lemmas\<close>

lemma encode_response_simps [simp]:
  "rs_status (encode_response X c d l r) = rs_status r"
  "rs_body (encode_response X c d l r) = Encoded_Body c (into_algorithm_level l d) (rs_body r)"
  "rs_get ''content-length'' (encode_response X c d l r) = None"
  by (simp_all add: encode_response_def Let_def headers_simp)

lemma encode_response_untouched:
  "k \<notin> {''content-encoding'', ''content-length''} \<Longrightarrow> rs_get k (encode_response X c d l r) = rs_get k r"
  by (simp add: encode_response_def Let_def headers_simp)

lemma encode_response_frame:
  "k \<notin> {''content-encoding'', ''content-length''} \<Longrightarrow>
   hget_all k (rs_headers (encode_response X c d l r)) = hget_all k (rs_headers r)"
  by (simp add: encode_response_def Let_def hget_all_hinsert hget_all_hremove)

lemma encode_response_header:
  "rs_get ''content-encoding'' r = None \<Longrightarrow> rs_get ''content-encoding'' (encode_response X c d l r) = Some (coding_str c)"
  by (simp add: encode_response_def Let_def headers_simp create_encoding_header_def)

lemma preferred_available:
  "get_preferred_encoding X h = Some c \<Longrightarrow> c \<in> set AVAILABLE_ENCODINGS \<and>
   (\<exists>ae. typed_accept_encoding X h = Some ae \<and> c \<in> set (sorted_encodings X ae))"
  by (auto simp: get_preferred_encoding_def find_Some_iff split: option.splits)

lemmas encoder_defs = gzip_def deflate_def brotli_def zstd_def

lemma compress_auto_cases:
  "compress_auto X m h level r = r \<or>
   (\<exists>c d. \<not> is_head m \<and> \<not> is_options m \<and> get_preferred_encoding X h = Some c \<and>
      compress_auto X m h level r = encode_response X c d level r \<and>
      (case typed_get (x_content_type X) ''content-type'' (rs_headers r) of Some ct \<Rightarrow> is_compressible ct | None \<Rightarrow> True))"
proof (cases "get_preferred_encoding X h")
  case (Some c)
  then have "c \<in> set AVAILABLE_ENCODINGS" using preferred_available by blast
  with Some show ?thesis
    by (auto simp: compress_auto_def AVAILABLE_ENCODINGS_def encoder_defs split: option.split)
qed (simp add: compress_auto_def)

lemma variant_loop_Some:
  "variant_loop F p encs = Some v \<Longrightarrow>
   \<exists>n e. cv_encoding v \<in> set encs \<and> coding_extension (cv_encoding v) = Some e \<and> path_file_name p = Some n \<and>
     cv_file_path v = set_file_name p (n @ ''.'' @ e) \<and>
     fs_metadata F (cv_file_path v) = Inr (cv_metadata v) \<and> \<not> is_dir_node (cv_metadata v)"
proof (induction encs)
  case (Cons enc encs)
  then show ?case
    by (auto simp: Let_def try_metadata_def path_to_str_def bind_eq_Some_conv
        split: option.splits sum.splits if_splits)
qed simp

lemma str_contains_suffix: "str_contains pat (a @ pat)"
  by (induction a) auto

lemma compression_vary_contains:
  assumes "compression_vary X resp = Inr v" "\<And>s w. x_header_value X s = Some w \<Longrightarrow> w = s"
  shows "str_contains ''accept-encoding'' v"
proof -
  have "str_contains ''accept-encoding'' (a @ '',accept-encoding'')" for a
    using str_contains_suffix [of "''accept-encoding''" "a @ '',''"] by simp
  then show ?thesis
    using assms(1) by (auto simp: compression_vary_def Let_def dest!: assms(2) split: option.splits if_splits)
qed

lemma sorted_encodings_items:
  "sorted_encodings X ae = map (\<lambda>m. coding_from (qm_data m)) (sort_by quality_le (quality_items X ae))"
  by (simp add: sorted_encodings_def quality_value_iter_def)

lemma find_sorted_wrt:
  "sorted_wrt R xs \<Longrightarrow> find P xs = Some x \<Longrightarrow> \<forall>y \<in> set xs. P y \<longrightarrow> y = x \<or> R x y"
  by (induction xs) (auto split: if_splits)

lemma find_Some_member: "find P xs = Some x \<Longrightarrow> x \<in> set xs \<and> P x"
  by (induction xs) (auto split: if_splits)

lemma find_map: "find P (map f xs) = map_option f (find (\<lambda>x. P (f x)) xs)"
  by (induction xs) auto

section \<open>Properties\<close>

lemma encode_response_status: "rs_status (encode_response X c d lv r) = rs_status r"
  by (simp add: encode_response_def)

lemma compress_auto_status: "rs_status (compress_auto X m h lv r) = rs_status r"
  by (simp add: compress_auto_def encode_response_status gzip_def deflate_def brotli_def zstd_def Let_def
      split: option.split)

lemma compression_post_process_status: "compression_post_process X opts req resp = Inr r \<Longrightarrow> rs_status r = rs_status resp"
  by (auto simp: compression_post_process_def res_bind_Inr_iff compress_auto_status split: if_splits)

text \<open>The body is passed on, or put behind one encoder.\<close>

definition passes_body :: "response \<Rightarrow> response \<Rightarrow> bool" where
  "passes_body resp r = (rs_body r = rs_body resp \<or> (\<exists>c lv. rs_body r = Encoded_Body c lv (rs_body resp)))"

lemma compress_auto_body: "passes_body resp (compress_auto X m h lv resp)"
  using compress_auto_cases [of X m h lv resp] by (auto simp: passes_body_def encode_response_def Let_def)

lemma compression_post_process_body: "compression_post_process X opts req resp = Inr r \<Longrightarrow> passes_body resp r"
  using compress_auto_body [of "rs_insert ''vary'' v resp" X "rq_method req" "rq_headers req" "compression_level opts" for v]
  by (auto simp: passes_body_def compression_post_process_def res_bind_Inr_iff split: if_splits)

lemma compression_static_body: "compression_static_post_process X opts resp = Inr r \<Longrightarrow> rs_body r = rs_body resp"
  by (auto simp: compression_static_post_process_def Let_def split: if_splits option.splits)

text \<open>C23. Compression on the fly is transparent: the status is kept, and either the body, its length and
  its coding are untouched, or the body is the old one behind the encoder of a coding that the request
  accepts and the gateway supports, announced as the only content coding, without a content
  length; this never happens to HEAD and OPTIONS requests, to a response that was encoded already, or
  to a media type that is not compressible. Unless the response was encoded already, it then varies on
  the accepted encodings. Every header but these three keeps all of its values, and a response that was encoded
  already, or any response when compression is off, is not touched at all.\<close>

theorem compression_transparent:
  assumes "compression_post_process X opts req resp = Inr r"
    and "\<And>s w. x_header_value X s = Some w \<Longrightarrow> w = s"
  shows "rs_status r = rs_status resp \<and>
    (rs_body r = rs_body resp \<and> rs_get ''content-length'' r = rs_get ''content-length'' resp \<and>
       rs_get ''content-encoding'' r = rs_get ''content-encoding'' resp
     \<or> (\<exists>c lv. rs_body r = Encoded_Body c lv (rs_body resp) \<and> get_preferred_encoding X (rq_headers req) = Some c \<and>
          c \<in> set AVAILABLE_ENCODINGS \<and> rs_get ''content-encoding'' resp = None \<and>
          rs_get ''content-encoding'' r = Some (coding_str c) \<and> rs_get ''content-length'' r = None \<and>
          \<not> is_head (rq_method req) \<and> \<not> is_options (rq_method req) \<and>
          (case typed_get (x_content_type X) ''content-type'' (rs_headers resp) of
             Some ct \<Rightarrow> is_compressible ct | None \<Rightarrow> True))) \<and>
    (compression opts \<and> rs_get ''content-encoding'' resp = None \<longrightarrow>
       (\<exists>v. rs_get ''vary'' r = Some v \<and> str_contains ''accept-encoding'' v)) \<and>
    (\<forall>k. k \<notin> {''vary'', ''content-encoding'', ''content-length''} \<longrightarrow>
       hget_all k (rs_headers r) = hget_all k (rs_headers resp)) \<and>
    (\<not> compression opts \<or> rs_get ''content-encoding'' resp \<noteq> None \<longrightarrow> r = resp)"
proof (cases "compression opts \<and> rs_get ''content-encoding'' resp = None")
  case True
  with assms(1) obtain v where v: "compression_vary X resp = Inr v"
    and r: "r = compress_auto X (rq_method req) (rq_headers req) (compression_level opts) (rs_insert ''vary'' v resp)"
    by (auto simp: compression_post_process_def res_bind_Inr_iff)
  have ct: "typed_get f ''content-type'' (hinsert ''vary'' v (rs_headers resp)) = typed_get f ''content-type'' (rs_headers resp)"
    for f :: "string list \<Rightarrow> mime option"
    by (simp add: typed_get_def hget_all_hinsert)
  have sc: "str_contains ''accept-encoding'' v" using compression_vary_contains [OF v assms(2)] .
  from compress_auto_cases [of X "rq_method req" "rq_headers req" "compression_level opts" "rs_insert ''vary'' v resp"]
  show ?thesis
  proof
    assume "compress_auto X (rq_method req) (rq_headers req) (compression_level opts) (rs_insert ''vary'' v resp)
      = rs_insert ''vary'' v resp"
    with r sc True show ?thesis by (simp add: headers_simp hget_all_hinsert)
  next
    assume "\<exists>c d. \<not> is_head (rq_method req) \<and> \<not> is_options (rq_method req) \<and>
      get_preferred_encoding X (rq_headers req) = Some c \<and>
      compress_auto X (rq_method req) (rq_headers req) (compression_level opts) (rs_insert ''vary'' v resp)
        = encode_response X c d (compression_level opts) (rs_insert ''vary'' v resp) \<and>
      (case typed_get (x_content_type X) ''content-type'' (rs_headers (rs_insert ''vary'' v resp)) of
         Some ct \<Rightarrow> is_compressible ct | None \<Rightarrow> True)"
    then obtain c d where c: "\<not> is_head (rq_method req)" "\<not> is_options (rq_method req)"
      "get_preferred_encoding X (rq_headers req) = Some c"
      "r = encode_response X c d (compression_level opts) (rs_insert ''vary'' v resp)"
      "case typed_get (x_content_type X) ''content-type'' (rs_headers resp) of
         Some ct \<Rightarrow> is_compressible ct | None \<Rightarrow> True"
      by (auto simp: r ct)
    have e: "rs_get ''content-encoding'' (rs_insert ''vary'' v resp) = None"
      using True by (simp add: headers_simp)
    from c preferred_available [OF c(3)] encode_response_header [OF e] True sc show ?thesis
      by (simp add: encode_response_untouched encode_response_frame headers_simp hget_all_hinsert)
  qed
qed (use assms(1) in \<open>auto simp: compression_post_process_def split: if_splits\<close>)

definition demo_request :: "http_method \<Rightarrow> string \<Rightarrow> headers \<Rightarrow> request" where
  "demo_request m p h = \<lparr>rq_method = m, rq_uri = demo_uri p, rq_headers = h, rq_body = Empty_Body\<rparr>"

lemma demo_request_simps [simp]:
  "rq_method (demo_request m p h) = m" "rq_headers (demo_request m p h) = h"
  "uri_path (rq_uri (demo_request m p h)) = p"
  by (simp_all add: demo_request_def demo_uri_def)

lemma demo_encodings:
  "get_preferred_encoding demo_ext [(''accept-encoding'', v)] =
     find (\<lambda>c. c \<in> set AVAILABLE_ENCODINGS) (sorted_encodings demo_ext v)"
  by (simp add: get_preferred_encoding_def typed_accept_encoding_def typed_get_def hget_all_simps try_from_values_def)

theorem compression_transparent_witness:
  "\<exists>r. compression_post_process demo_ext handler_opts_default
         (demo_request ''GET'' ''/a'' [(''accept-encoding'', ''gzip'')])
         (rs_insert ''content-type'' ''text/html'' (response_new (Bytes_Body ''hello''))) = Inr r \<and> rs_status r = 200 \<and>
     hget_all ''content-type'' (rs_headers r) = [''text/html'']"
proof -
  let ?q = "demo_request ''GET'' ''/a'' [(''accept-encoding'', ''gzip'')]"
  let ?r = "rs_insert ''content-type'' ''text/html'' (response_new (Bytes_Body ''hello''))"
  obtain r where r: "compression_post_process demo_ext handler_opts_default ?q ?r = Inr r"
    by (simp add: compression_post_process_def compression_vary_def headers_simp)
  moreover have "rs_status r = rs_status ?r"
    "hget_all ''content-type'' (rs_headers r) = hget_all ''content-type'' (rs_headers ?r)"
    using compression_transparent [OF r] by simp_all
  ultimately show ?thesis by (simp add: hget_all_hinsert)
qed

text \<open>C24. The coding chosen for a request: an available coding of its accept-encoding header such that no other
  item of the header with an available coding has a higher quality, or the same quality and a
  higher priority; none is chosen exactly when no item names an available coding. The quality
  itself is never compared with zero.\<close>

theorem preferred_encoding_best:
  assumes "typed_accept_encoding X h = Some ae"
  shows "(case get_preferred_encoding X h of
      None \<Rightarrow> \<forall>m \<in> set (quality_items X ae). coding_from (qm_data m) \<notin> set AVAILABLE_ENCODINGS
    | Some c \<Rightarrow> c \<in> set AVAILABLE_ENCODINGS \<and>
        (\<exists>m \<in> set (quality_items X ae). coding_from (qm_data m) = c \<and>
           (\<forall>m' \<in> set (quality_items X ae). coding_from (qm_data m') \<in> set AVAILABLE_ENCODINGS \<longrightarrow>
              qm_quality m' < qm_quality m \<or>
              qm_quality m' = qm_quality m \<and> coding_from (qm_data m') \<le> c)))"
proof -
  let ?xs = "sort_by quality_le (quality_items X ae)"
  let ?P = "\<lambda>m :: quality_meta. coding_from (qm_data m) \<in> set AVAILABLE_ENCODINGS"
  have g: "get_preferred_encoding X h = map_option (\<lambda>m. coding_from (qm_data m)) (find ?P ?xs)"
    by (simp add: get_preferred_encoding_def assms sorted_encodings_items find_map)
  show ?thesis
  proof (cases "find ?P ?xs")
    case None
    with g show ?thesis by (simp add: find_None_iff)
  next
    case (Some m)
    from find_Some_member [OF Some] have m: "m \<in> set (quality_items X ae)" "?P m" by simp_all
    have "\<forall>y \<in> set ?xs. ?P y \<longrightarrow> y = m \<or> quality_le m y"
      by (rule find_sorted_wrt [OF quality.sorted Some])
    then have "\<forall>y \<in> set (quality_items X ae). ?P y \<longrightarrow>
        qm_quality y < qm_quality m \<or> qm_quality y = qm_quality m \<and> coding_from (qm_data y) \<le> coding_from (qm_data m)"
      by (auto simp: quality_le_def less_eq_content_coding_def split: if_splits)
    with g Some m show ?thesis by auto
  qed
qed

lemma demo_gzip_items:
  "quality_items demo_ext ''gzip;q=0'' = [\<lparr>qm_data = ''gzip'', qm_quality = 0\<rparr>]"
proof -
  have "trim ''gzip'' = ''gzip''" "trim_start ''gzip'' = ''gzip''" "trim_start ''q=0'' = ''q=0''" "trim ''0'' = ''0''"
    by (simp_all add: trim_visible trim_start_visible visible_def)
  then show ?thesis by (simp add: quality_items_def quality_meta_try_from_def strip_prefix_def)
qed

lemma demo_typed_ae: "typed_accept_encoding demo_ext [(''accept-encoding'', v)] = Some v"
  by (simp add: typed_accept_encoding_def typed_get_def hget_all_simps try_from_values_def)

theorem preferred_encoding_best_witness:
  "get_preferred_encoding demo_ext [(''accept-encoding'', ''gzip;q=0'')] \<noteq> None"
  using preferred_encoding_best [OF demo_typed_ae [of "''gzip;q=0''"]]
  by (cases "get_preferred_encoding demo_ext [(''accept-encoding'', ''gzip;q=0'')]")
    (simp_all add: demo_gzip_items coding_from_def coding_from_str_def all_codings_def AVAILABLE_ENCODINGS_def)

text \<open>A coding that the client refuses with quality zero is still used: for the header
  \<open>gzip;q=0\<close> a compressible GET response is sent through the gzip encoder.\<close>

theorem refused_coding_is_used:
  assumes "x_parse_quality X ''0'' = Some 0" "\<And>v. x_header_str X v = Some v"
    and "rq_headers req = [(''accept-encoding'', ''gzip;q=0'')]" "is_get (rq_method req)" "compression opts"
    and "rs_headers resp = []"
  shows "\<exists>r lv. compression_post_process X opts req resp = Inr r \<and> rs_body r = Encoded_Body GZIP lv (rs_body resp) \<and>
    rs_get ''content-encoding'' r = Some ''gzip''"
proof -
  have t: "trim ''gzip'' = ''gzip''" "trim_start ''gzip'' = ''gzip''" "trim_start ''q=0'' = ''q=0''" "trim ''0'' = ''0''"
    by (simp_all add: trim_visible trim_start_visible visible_def)
  have "quality_items X ''gzip;q=0'' = [\<lparr>qm_data = ''gzip'', qm_quality = 0\<rparr>]"
    using t assms(1,2) by (simp add: quality_items_def quality_meta_try_from_def strip_prefix_def)
  then have "get_preferred_encoding X (rq_headers req) = Some GZIP"
    by (simp add: get_preferred_encoding_def assms(3) typed_accept_encoding_def typed_get_def hget_all_simps
        try_from_values_def sorted_encodings_items coding_from_def coding_from_str_def all_codings_def
        AVAILABLE_ENCODINGS_def)
  moreover have "\<not> is_head (rq_method req)" "\<not> is_options (rq_method req)"
    using assms(4) by (auto simp: is_get_def is_head_def is_options_def)
  moreover have "typed_get f ''content-type'' (hinsert ''vary'' v []) = None" for f :: "string list \<Rightarrow> mime option" and v
    by (simp add: typed_get_def hget_all_hinsert hget_all_simps)
  ultimately show ?thesis
    using assms(5,6)
    by (auto simp: compression_post_process_def compression_vary_def compress_auto_def gzip_def headers_simp
        encode_response_header)
qed

theorem refused_coding_is_used_witness:
  "\<exists>r lv. compression_post_process demo_ext handler_opts_default
       (demo_request ''GET'' ''/a'' [(''accept-encoding'', ''gzip;q=0'')])
       (response_new (Bytes_Body ''hello'')) = Inr r \<and> rs_body r = Encoded_Body GZIP lv (Bytes_Body ''hello'')"
proof -
  have "\<exists>r lv. compression_post_process demo_ext handler_opts_default
       (demo_request ''GET'' ''/a'' [(''accept-encoding'', ''gzip;q=0'')])
       (response_new (Bytes_Body ''hello'')) = Inr r \<and>
       rs_body r = Encoded_Body GZIP lv (rs_body (response_new (Bytes_Body ''hello''))) \<and>
       rs_get ''content-encoding'' r = Some ''gzip''"
    by (rule refused_coding_is_used) (simp_all add: is_get_def)
  then show ?thesis by (elim exE conjE) (intro exI conjI, simp_all)
qed

text \<open>A pre-compressed variant that is found is an existing non-directory whose name is the requested
  name with the extension of a coding the request accepts; the deflate coding is served from the
  gzip file, so a client that accepts only deflate gets gzip data announced as deflate.\<close>

theorem precompressed_variant_sound:
  assumes "precompressed_variant X F p h = Some v"
  shows "\<exists>ae n e. typed_accept_encoding X h = Some ae \<and> cv_encoding v \<in> set (sorted_encodings X ae) \<and>
    path_file_name p = Some n \<and> coding_extension (cv_encoding v) = Some e \<and>
    cv_file_path v = set_file_name p (n @ ''.'' @ e) \<and>
    fs_metadata F (cv_file_path v) = Inr (cv_metadata v) \<and> \<not> is_dir_node (cv_metadata v) \<and>
    (cv_encoding v = DEFLATE \<longrightarrow> e = ''gz'')"
proof -
  from assms obtain ae where ae: "typed_accept_encoding X h = Some ae" "variant_loop F p (sorted_encodings X ae) = Some v"
    by (auto simp: precompressed_variant_def split: option.splits)
  from variant_loop_Some [OF ae(2)] ae(1) show ?thesis by auto
qed

definition demo_gz_fs :: fs where
  "demo_gz_fs = \<lparr>fs_nodes = [([''a.html''], demo_file), ([''a.html.gz''], demo_file)], fs_cwd = []\<rparr>"

lemma demo_deflate_encodings: "sorted_encodings demo_ext ''deflate'' = [DEFLATE]"
proof -
  have "trim ''deflate'' = ''deflate''" "trim_start ''deflate'' = ''deflate''"
    by (simp_all add: trim_visible trim_start_visible visible_def)
  then show ?thesis
    by (simp add: sorted_encodings_items quality_items_def quality_meta_try_from_def strip_prefix_def
        coding_from_def coding_from_str_def all_codings_def)
qed

lemmas path_eval =
  path_file_name_def components_def has_root_def starts_cur_dir_def map_filter_simps seg_component_def
  set_file_name_def path_pop_def path_parent_def before_body_def drop_skipped_def skip_seg_def path_push_def

theorem precompressed_variant_sound_witness:
  "\<exists>v. precompressed_variant demo_ext demo_gz_fs ''/a.html'' [(''accept-encoding'', ''deflate'')] = Some v \<and>
     cv_encoding v = DEFLATE \<and> cv_file_path v = ''/a.html.gz'' \<and> \<not> is_dir_node (cv_metadata v)"
proof -
  have u: "valid_utf8 ''a.html''" by (rule valid_utf8_ascii) simp
  have p: "set_file_name ''/a.html'' ''a.html.gz'' = ''/a.html.gz''" "path_file_name ''/a.html'' = Some ''a.html''"
    by (simp_all add: path_eval)
  have m: "fs_metadata demo_gz_fs ''/a.html.gz'' = Inr demo_file"
    by (simp add: walk_eval demo_gz_fs_def demo_file_def)
  obtain v where v: "precompressed_variant demo_ext demo_gz_fs ''/a.html'' [(''accept-encoding'', ''deflate'')] = Some v"
    "cv_encoding v = DEFLATE" "cv_file_path v = ''/a.html.gz''"
    using u p m by (simp add: precompressed_variant_def demo_typed_ae demo_deflate_encodings path_to_str_def
        try_metadata_def is_dir_node_def demo_file_def)
  with precompressed_variant_sound [OF v(1)] show ?thesis by blast
qed

end
