(* ===== verification/Access_Control.thy ===== *)
theory Access_Control
  imports Pages Compression
begin

text \<open>
  Who may send a request: cross-origin requests (\<open>src/cors.rs\<close>) and basic authentication
  (\<open>src/basic_auth.rs\<close>). Building the CORS configuration panics on malformed settings; a panic
  is an error value here. The hash sets of the configuration are lists without duplicates.
\<close>

section \<open>CORS configuration\<close>

definition cors_empty :: cors where
  "cors_empty = \<lparr>co_allowed_headers = [], co_exposed_headers = [], co_max_age = None,
     co_allowed_methods = [], co_origins = None\<rparr>"

definition expect :: "string \<Rightarrow> 'a option \<Rightarrow> 'a res" where
  "expect msg v = (case v of Some a \<Rightarrow> Inr a | None \<Rightarrow> Inl msg)"

definition allow_methods :: "ext \<Rightarrow> string list \<Rightarrow> cors \<Rightarrow> cors res" where
  "allow_methods X methods c =
     res_bind (collect_res (\<lambda>m. expect ''cors: illegal method'' (x_method_from_bytes X m)) methods)
       (\<lambda>ms. Inr (c\<lparr>co_allowed_methods := remdups (co_allowed_methods c @ ms)\<rparr>))"

definition allow_any_origin :: "cors \<Rightarrow> cors" where
  "allow_any_origin c = c\<lparr>co_origins := None\<rparr>"

text \<open>\<open>splitn(2, sep)\<close> with both parts required.\<close>

fun split_at_str :: "string \<Rightarrow> string \<Rightarrow> (string \<times> string) option" where
  "split_at_str sep [] = None"
| "split_at_str sep (c # s) =
     (if sep \<noteq> [] \<and> prefix sep (c # s) then Some ([], drop (length sep) (c # s))
      else map_option (\<lambda>(a, b). (c # a, b)) (split_at_str sep s))"

definition into_origin :: "ext \<Rightarrow> string \<Rightarrow> string res" where
  "into_origin X s =
     res_bind (expect ''cors::into_origin: missing url scheme'' (split_at_str ''://'' s))
       (\<lambda>(scheme, rest). expect ''cors::into_origin: invalid Origin'' (x_origin_parts X scheme rest))"

definition allow_origins :: "ext \<Rightarrow> string list \<Rightarrow> cors \<Rightarrow> cors res" where
  "allow_origins X origins c =
     res_bind (collect_res (\<lambda>s. res_bind (into_origin X s)
         (\<lambda>o1. expect ''cors: Origin is always a valid HeaderValue'' (x_header_value X o1))) origins)
       (\<lambda>os. Inr (c\<lparr>co_origins := Some (remdups ((case co_origins c of Some v \<Rightarrow> v | None \<Rightarrow> []) @ os))\<rparr>))"

definition allow_headers :: "ext \<Rightarrow> string list \<Rightarrow> cors \<Rightarrow> cors res" where
  "allow_headers X hs c =
     res_bind (collect_res (\<lambda>h. expect ''cors: illegal Header'' (x_header_name X h)) hs)
       (\<lambda>ns. Inr (c\<lparr>co_allowed_headers := remdups (co_allowed_headers c @ ns)\<rparr>))"

definition expose_headers :: "ext \<Rightarrow> string list \<Rightarrow> cors \<Rightarrow> cors res" where
  "expose_headers X hs c =
     res_bind (collect_res (\<lambda>h. expect ''cors: illegal Header'' (x_header_name X h)) hs)
       (\<lambda>ns. Inr (c\<lparr>co_exposed_headers := remdups (co_exposed_headers c @ ns)\<rparr>))"

definition cors_build :: "cors option \<Rightarrow> cors_configured option" where
  "cors_build c =
     (case c of
        None \<Rightarrow> None
      | Some c \<Rightarrow> Some \<lparr>cc_cors = c, cc_allowed_headers = co_allowed_headers c,
          cc_exposed_headers = co_exposed_headers c, cc_methods_header = co_allowed_methods c\<rparr>)"

definition cors_names :: "string \<Rightarrow> string list" where
  "cors_names s = (if s = [] then [''origin'', ''content-type''] else map trim (split_on (CHR '','') s))"

definition cors_new :: "ext \<Rightarrow> string \<Rightarrow> string \<Rightarrow> string \<Rightarrow> cors_configured option res" where
  "cors_new X origins allow expose =
     (if origins = [] then Inr (cors_build None)
      else res_bind
        (if origins = ''*'' then Inr (allow_any_origin cors_empty)
         else allow_origins X (map trim (split_on (CHR '','') origins)) cors_empty)
        (\<lambda>c. res_bind (allow_headers X (cors_names allow) c)
        (\<lambda>c. res_bind (expose_headers X (cors_names expose) c)
        (\<lambda>c. res_bind (allow_methods X [''GET'', ''HEAD'', ''OPTIONS''] c)
        (\<lambda>c. Inr (cors_build (Some c)))))))"

definition cors_init :: "ext \<Rightarrow> string \<Rightarrow> string \<Rightarrow> string \<Rightarrow> handler_opts \<Rightarrow> handler_opts res" where
  "cors_init X origins allow expose opts =
     res_bind (cors_new X (trim origins) (trim allow) (trim expose)) (\<lambda>c. Inr (opts\<lparr>cors_opts := c\<rparr>))"

section \<open>CORS requests\<close>

datatype validated = Preflight string | Simple string | NotCors

datatype forbidden = Forbidden_Origin | Forbidden_Method | Forbidden_Header

definition is_method_allowed :: "ext \<Rightarrow> cors_configured \<Rightarrow> string \<Rightarrow> bool" where
  "is_method_allowed X c v =
     (case x_method_from_bytes X v of Some m \<Rightarrow> m \<in> set (co_allowed_methods (cc_cors c)) | None \<Rightarrow> False)"

definition is_header_allowed :: "ext \<Rightarrow> cors_configured \<Rightarrow> string \<Rightarrow> bool" where
  "is_header_allowed X c h =
     (if h = [] then False
      else case x_header_name X h of Some n \<Rightarrow> n \<in> set (co_allowed_headers (cc_cors c)) | None \<Rightarrow> False)"

definition is_origin_allowed :: "cors_configured \<Rightarrow> string \<Rightarrow> bool" where
  "is_origin_allowed c origin =
     (if origin = [] then False
      else case co_origins (cc_cors c) of Some allowed \<Rightarrow> origin \<in> set allowed | None \<Rightarrow> True)"

definition append_preflight_headers :: "cors_configured \<Rightarrow> headers \<Rightarrow> headers" where
  "append_preflight_headers c h =
     (let h1 = hinsert ''access-control-allow-headers'' (join '', '' (cc_allowed_headers c)) h;
          h2 = hinsert ''access-control-expose-headers'' (join '', '' (cc_exposed_headers c)) h1;
          h3 = hinsert ''access-control-allow-methods'' (join '', '' (cc_methods_header c)) h2
      in case co_max_age (cc_cors c) of
           Some n \<Rightarrow> hinsert ''access-control-max-age'' (show_nat n) h3
         | None \<Rightarrow> h3)"

definition cors_answer_headers :: "cors_configured \<Rightarrow> string \<Rightarrow> headers" where
  "cors_answer_headers c origin =
     hinsert ''access-control-allow-origin'' origin (append_preflight_headers c [])"

text \<open>The request-headers check of a preflight request, name by name.\<close>

fun check_header_names :: "ext \<Rightarrow> cors_configured \<Rightarrow> string list \<Rightarrow> bool" where
  "check_header_names X c [] = True"
| "check_header_names X c (h # hs) =
     (if \<not> is_header_allowed X c (trim h) then False else check_header_names X c hs)"

definition check_preflight :: "ext \<Rightarrow> cors_configured \<Rightarrow> string \<Rightarrow> headers \<Rightarrow> forbidden + (headers \<times> validated)" where
  "check_preflight X c origin h =
     (if \<not> is_origin_allowed c origin then Inl Forbidden_Origin
      else case hget ''access-control-request-method'' h of
        None \<Rightarrow> Inl Forbidden_Method
      | Some req_method \<Rightarrow>
          if \<not> is_method_allowed X c req_method then Inl Forbidden_Method
          else case hget ''access-control-request-headers'' h of
            None \<Rightarrow> Inr (cors_answer_headers c origin, Preflight origin)
          | Some rh \<Rightarrow>
              (case x_header_str X rh of
                 None \<Rightarrow> Inl Forbidden_Header
               | Some s \<Rightarrow>
                   if check_header_names X c (split_on (CHR '','') s)
                   then Inr (cors_answer_headers c origin, Preflight origin)
                   else Inl Forbidden_Header))"

definition cors_check_request ::
  "ext \<Rightarrow> cors_configured \<Rightarrow> http_method \<Rightarrow> headers \<Rightarrow> forbidden + (headers \<times> validated)" where
  "cors_check_request X c m h =
     (case hget ''origin'' h of
        Some origin \<Rightarrow>
          if m = ''OPTIONS'' then check_preflight X c origin h
          else if is_origin_allowed c origin
          then Inr (cors_answer_headers c origin, Simple origin)
          else Inl Forbidden_Origin
      | None \<Rightarrow> Inr ([], NotCors))"

definition cors_pre_process :: "ext \<Rightarrow> fs \<Rightarrow> handler_opts \<Rightarrow> request \<Rightarrow> response option" where
  "cors_pre_process X F opts req =
     (case cors_opts opts of
        None \<Rightarrow> None
      | Some c \<Rightarrow>
          (case cors_check_request X c (rq_method req) (rq_headers req) of
             Inr _ \<Rightarrow> None
           | Inl _ \<Rightarrow> Some (error_reply X F opts (rq_method req) 403)))"

definition cors_post_process :: "ext \<Rightarrow> handler_opts \<Rightarrow> request \<Rightarrow> response \<Rightarrow> response" where
  "cors_post_process X opts req resp =
     (case cors_opts opts of
        None \<Rightarrow> resp
      | Some c \<Rightarrow>
          (case cors_check_request X c (rq_method req) (rq_headers req) of
             Inr (hs, _) \<Rightarrow>
               if hs = [] then resp
               else rs_remove ''allow'' (rs_insert ''vary'' ''origin'' (insert_all hs resp))
           | Inl _ \<Rightarrow> resp))"

section \<open>Basic authentication\<close>

definition basic_auth_init :: "string \<Rightarrow> handler_opts \<Rightarrow> handler_opts" where
  "basic_auth_init credentials opts = opts\<lparr>basic_auth := trim credentials\<rparr>"

definition auth_check_request :: "ext \<Rightarrow> headers \<Rightarrow> string \<Rightarrow> string \<Rightarrow> nat + unit" where
  "auth_check_request X h userid password =
     (case typed_get (x_basic_credentials X) ''authorization'' h of
        None \<Rightarrow> Inl 401
      | Some (user, pass) \<Rightarrow>
          (let user_match = (user = userid);
               password_match = (case x_bcrypt_verify X pass password of Some b \<Rightarrow> b | None \<Rightarrow> False)
           in if user_match \<and> password_match then Inr () else Inl 401))"

definition www_authenticate :: string where
  "www_authenticate = ''Basic realm=\"WeaveGate\", charset=\"UTF-8\"''"

definition auth_pre_process :: "ext \<Rightarrow> fs \<Rightarrow> handler_opts \<Rightarrow> request \<Rightarrow> response option" where
  "auth_pre_process X F opts req =
     (if basic_auth opts = [] then None
      else if is_options (rq_method req) then None
      else case split_once (CHR '':'') (basic_auth opts) of
        Some (user_id, password) \<Rightarrow>
          (case auth_check_request X (rq_headers req) user_id password of
             Inr _ \<Rightarrow> None
           | Inl _ \<Rightarrow> Some (rs_insert ''www-authenticate'' www_authenticate
                              (error_reply X F opts (rq_method req) 401)))
      | None \<Rightarrow> Some (error_reply X F opts (rq_method req) 500))"

section \<open>Lemmas\<close>

lemma cors_post_process_status: "rs_status (cors_post_process X opts req resp) = rs_status resp"
  by (simp add: cors_post_process_def split: option.split sum.split prod.split)

lemma check_header_names_all:
  "check_header_names X c hs \<longleftrightarrow> list_all (\<lambda>h. is_header_allowed X c (trim h)) hs"
  by (induction hs) auto

lemma cors_answer_headers_get:
  "hget ''access-control-allow-origin'' (cors_answer_headers c o1) = Some o1" "cors_answer_headers c o1 \<noteq> []"
proof -
  show g: "hget ''access-control-allow-origin'' (cors_answer_headers c o1) = Some o1"
    by (simp add: cors_answer_headers_def headers_simp)
  show "cors_answer_headers c o1 \<noteq> []"
    using g hdr.get_none by (metis option.distinct(1))
qed

lemma cors_check_answer:
  "cors_check_request X c m h = Inr (hs, v) \<Longrightarrow>
   (hget ''origin'' h = None \<and> hs = [] \<or>
    (\<exists>o1. hget ''origin'' h = Some o1 \<and> is_origin_allowed c o1 \<and> hs = cors_answer_headers c o1))"
  by (auto simp: cors_check_request_def check_preflight_def split: option.splits if_splits)

lemma cors_names_distinct:
  "distinct (map fst (cors_answer_headers c o1))"
  by (cases "co_max_age (cc_cors c)")
    (simp_all add: cors_answer_headers_def append_preflight_headers_def Let_def hinsert.simps)

lemma insert_all_get:
  "distinct (map fst kvs) \<Longrightarrow> rs_get k (insert_all kvs r) = (case map_of kvs k of Some v \<Rightarrow> Some v | None \<Rightarrow> rs_get k r)"
proof (induction kvs arbitrary: r)
  case (Cons kv kvs)
  obtain n v where kv: "kv = (n, v)" by fastforce
  have step: "insert_all ((n, v) # kvs) r = insert_all kvs (rs_insert n v r)" by (simp add: insert_all_def)
  show ?case
  proof (cases "k = n")
    case True
    with Cons.prems kv have "map_of kvs k = None" by (simp add: map_of_eq_None_iff)
    with Cons True kv step show ?thesis by (simp add: headers_simp)
  next
    case False
    with Cons kv step show ?thesis by (auto simp: headers_simp split: option.split)
  qed
qed (simp add: insert_all_def)

lemma hget_map_of: "hget k h = map_of h k"
  by (induction h) (auto simp: hget_def)

lemma allow_origins_members:
  "allow_origins X os c = Inr c' \<Longrightarrow> co_origins c = None \<Longrightarrow>
   \<exists>as. co_origins c' = Some as \<and> (\<forall>a \<in> set as. \<exists>s \<in> set os. \<exists>o1. into_origin X s = Inr o1 \<and> x_header_value X o1 = Some a)"
proof -
  assume "allow_origins X os c = Inr c'" "co_origins c = None"
  then obtain vs where vs: "collect_res (\<lambda>s. res_bind (into_origin X s)
      (\<lambda>o1. expect ''cors: Origin is always a valid HeaderValue'' (x_header_value X o1))) os = Inr vs"
    and c': "co_origins c' = Some (remdups vs)"
    by (auto simp: allow_origins_def res_bind_Inr_iff)
  have "\<exists>s \<in> set os. \<exists>o1. into_origin X s = Inr o1 \<and> x_header_value X o1 = Some a" if "a \<in> set vs" for a
    using collect_res_set [OF vs that] by (auto simp: res_bind_Inr_iff expect_def split: option.splits)
  with c' show ?thesis by auto
qed

lemma cors_setters_keep_origins:
  "allow_headers X hs c = Inr c' \<Longrightarrow> co_origins c' = co_origins c"
  "expose_headers X hs c = Inr c' \<Longrightarrow> co_origins c' = co_origins c"
  "allow_methods X hs c = Inr c' \<Longrightarrow> co_origins c' = co_origins c"
  by (auto simp: allow_headers_def expose_headers_def allow_methods_def res_bind_Inr_iff)

lemma cors_new_origins:
  assumes "cors_new X origins allow expose = Inr (Some c)" "origins \<noteq> ''*''" "is_origin_allowed c a"
  shows "\<exists>s \<in> set (split_on (CHR '','') origins). \<exists>o1. into_origin X (trim s) = Inr o1 \<and> x_header_value X o1 = Some a"
proof -
  from assms(1,2) obtain c1 c2 c3 c4 where
    "allow_origins X (map trim (split_on (CHR '','') origins)) cors_empty = Inr c1"
    "allow_headers X (cors_names allow) c1 = Inr c2" "expose_headers X (cors_names expose) c2 = Inr c3"
    "allow_methods X [''GET'', ''HEAD'', ''OPTIONS''] c3 = Inr c4" "cc_cors c = c4"
    by (auto simp: cors_new_def cors_build_def res_bind_Inr_iff split: if_splits)
  with allow_origins_members cors_setters_keep_origins assms(3) show ?thesis
    by (fastforce simp: cors_empty_def is_origin_allowed_def split: if_splits)
qed

lemma cors_new_max_age:
  assumes "cors_new X origins allow expose = Inr (Some c)"
  shows "co_max_age (cc_cors c) = None"
proof -
  have keeps: "allow_origins X hs c0 = Inr c' \<Longrightarrow> co_max_age c' = co_max_age c0"
    "allow_headers X hs c0 = Inr c' \<Longrightarrow> co_max_age c' = co_max_age c0"
    "expose_headers X hs c0 = Inr c' \<Longrightarrow> co_max_age c' = co_max_age c0"
    "allow_methods X hs c0 = Inr c' \<Longrightarrow> co_max_age c' = co_max_age c0" for hs c0 c'
    by (auto simp: allow_origins_def allow_headers_def expose_headers_def allow_methods_def res_bind_Inr_iff)
  from assms show ?thesis
    by (auto simp: cors_new_def cors_build_def res_bind_Inr_iff cors_empty_def allow_any_origin_def
        dest!: keeps split: if_splits)
qed

lemma insert_all_rest: "rs_status (insert_all kvs r) = rs_status r" "rs_body (insert_all kvs r) = rs_body r"
  by (induction kvs arbitrary: r) (auto simp: insert_all_def)

lemma cors_post_process_body: "rs_body (cors_post_process X opts req resp) = rs_body resp"
  by (simp add: cors_post_process_def insert_all_rest split: option.split sum.split prod.split)

section \<open>Properties\<close>

text \<open>C25. A request passes the cross-origin check exactly when it has no origin, or its origin is allowed
  and, for a preflight request, the method it asks for and every header it asks for are
  allowed as well; otherwise it is answered with a 403 page.\<close>

theorem cors_pre_process_iff:
  "cors_pre_process X F opts req =
     (case cors_opts opts of
        None \<Rightarrow> None
      | Some c \<Rightarrow>
          if (case hget ''origin'' (rq_headers req) of
                None \<Rightarrow> True
              | Some o1 \<Rightarrow> is_origin_allowed c o1 \<and>
                  (if is_options (rq_method req)
                   then (case hget ''access-control-request-method'' (rq_headers req) of
                           None \<Rightarrow> False | Some m \<Rightarrow> is_method_allowed X c m) \<and>
                        (case hget ''access-control-request-headers'' (rq_headers req) of
                           None \<Rightarrow> True
                         | Some rh \<Rightarrow> (case x_header_str X rh of
                             None \<Rightarrow> False
                           | Some s \<Rightarrow> list_all (\<lambda>h. is_header_allowed X c (trim h)) (split_on (CHR '','') s)))
                   else True))
          then None else Some (error_reply X F opts (rq_method req) 403))"
  by (auto simp: cors_pre_process_def cors_check_request_def check_preflight_def check_header_names_all
      is_options_def split: option.splits)

text \<open>C26. A response gets cross-origin headers only for a configured origin: it is left as it was, unless the request has a
  non-empty origin that is the serialisation of one of the listed ones, or any origin when the
  configuration is a star. Then it names exactly that origin, lists the configured methods and header names,
  varies on the origin and loses \<open>allow\<close>; its status, its body and all its other headers are kept. Without
  configured origins no response is changed.\<close>

theorem cors_answers_only_configured_origins:
  assumes "cors_init X origins allow expose opts0 = Inr opts"
  shows "cors_post_process X opts req resp = resp \<or>
    (\<exists>c a. cors_opts opts = Some c \<and> hget ''origin'' (rq_headers req) = Some a \<and> a \<noteq> [] \<and> trim origins \<noteq> [] \<and>
       (trim origins = ''*'' \<or>
        (\<exists>s \<in> set (split_on (CHR '','') (trim origins)). \<exists>o1. into_origin X (trim s) = Inr o1 \<and> x_header_value X o1 = Some a)) \<and>
       (\<forall>k. rs_get k (cors_post_process X opts req resp) =
          (if k = ''access-control-allow-origin'' then Some a
           else if k = ''access-control-allow-methods'' then Some (join '', '' (cc_methods_header c))
           else if k = ''access-control-allow-headers'' then Some (join '', '' (cc_allowed_headers c))
           else if k = ''access-control-expose-headers'' then Some (join '', '' (cc_exposed_headers c))
           else if k = ''vary'' then Some ''origin''
           else if k = ''allow'' then None
           else rs_get k resp)) \<and>
       rs_status (cors_post_process X opts req resp) = rs_status resp \<and>
       rs_body (cors_post_process X opts req resp) = rs_body resp)"
proof (cases "cors_post_process X opts req resp = resp")
  case False
  then obtain c hs v where c: "cors_opts opts = Some c"
    and h: "cors_check_request X c (rq_method req) (rq_headers req) = Inr (hs, v)" "hs \<noteq> []"
    by (auto simp: cors_post_process_def split: option.splits sum.splits prod.splits if_splits)
  with cors_check_answer [OF h(1)] obtain a where a: "hget ''origin'' (rq_headers req) = Some a"
    "is_origin_allowed c a" "hs = cors_answer_headers c a" by auto
  have post: "cors_post_process X opts req resp = rs_remove ''allow'' (rs_insert ''vary'' ''origin'' (insert_all hs resp))"
    using c h by (simp add: cors_post_process_def)
  have new: "cors_new X (trim origins) (trim allow) (trim expose) = Inr (Some c)"
    using assms c by (auto simp: cors_init_def res_bind_Inr_iff)
  then have "trim origins \<noteq> []" by (auto simp: cors_new_def cors_build_def)
  moreover have "a \<noteq> []" using a(2) by (auto simp: is_origin_allowed_def)
  moreover have "trim origins = ''*'' \<or>
      (\<exists>s \<in> set (split_on (CHR '','') (trim origins)). \<exists>o1. into_origin X (trim s) = Inr o1 \<and> x_header_value X o1 = Some a)"
    using cors_new_origins [OF new _ a(2)] by blast
  moreover have "rs_get k (insert_all hs resp) = (case hget k (cors_answer_headers c a) of Some w \<Rightarrow> Some w | None \<Rightarrow> rs_get k resp)" for k
    using insert_all_get [OF cors_names_distinct, of k c a resp] by (simp only: a(3) hget_map_of [of k "cors_answer_headers c a"])
  ultimately show ?thesis
    using c a(1) cors_new_max_age [OF new]
    by (auto simp: post cors_answer_headers_def append_preflight_headers_def Let_def headers_simp insert_all_rest)
qed simp

definition demo_cors :: cors_configured where
  "demo_cors = \<lparr>cc_cors = \<lparr>co_allowed_headers = [''origin'', ''content-type''],
       co_exposed_headers = [''origin'', ''content-type''], co_max_age = None,
       co_allowed_methods = [''GET'', ''HEAD'', ''OPTIONS''], co_origins = Some [''https://a.b'']\<rparr>,
     cc_allowed_headers = [''origin'', ''content-type''], cc_exposed_headers = [''origin'', ''content-type''],
     cc_methods_header = [''GET'', ''HEAD'', ''OPTIONS'']\<rparr>"

lemma demo_cors_init:
  "cors_init demo_ext ''https://a.b'' [] [] handler_opts_default = Inr (handler_opts_default\<lparr>cors_opts := Some demo_cors\<rparr>)"
proof -
  have "trim ''https://a.b'' = ''https://a.b''" by (simp add: trim_visible visible_def)
  then show ?thesis
    by (simp add: cors_init_def cors_new_def allow_origins_def into_origin_def expect_def allow_headers_def
        expose_headers_def allow_methods_def cors_names_def cors_empty_def cors_build_def demo_cors_def
        to_ascii_lowercase_def lower_char_def)
qed

text \<open>A request from another origin gets its response as it was, one from the listed origin gets its headers.\<close>

theorem cors_answers_only_configured_origins_witness:
  "cors_post_process demo_ext (handler_opts_default\<lparr>cors_opts := Some demo_cors\<rparr>)
     (demo_request ''GET'' ''/'' [(''origin'', ''https://evil'')]) (response_new Empty_Body) = response_new Empty_Body \<and>
   rs_get ''access-control-allow-origin'' (cors_post_process demo_ext (handler_opts_default\<lparr>cors_opts := Some demo_cors\<rparr>)
     (demo_request ''GET'' ''/'' [(''origin'', ''https://a.b'')]) (response_new Empty_Body)) = Some ''https://a.b''"
proof -
  let ?o = "handler_opts_default\<lparr>cors_opts := Some demo_cors\<rparr>"
  let ?q = "\<lambda>a. demo_request ''GET'' ''/'' [(''origin'', a)]"
  have t: "trim ''https://a.b'' = ''https://a.b''" by (simp add: trim_visible visible_def)
  note only = cors_answers_only_configured_origins [OF demo_cors_init, where resp = "response_new Empty_Body"]
  have "cors_post_process demo_ext ?o (?q ''https://evil'') (response_new Empty_Body) = response_new Empty_Body"
    using only [of "?q ''https://evil''"] by (auto simp: t hget_def into_origin_def expect_def)
  moreover have "is_origin_allowed demo_cors ''https://a.b''" by (simp add: is_origin_allowed_def demo_cors_def)
  then have "rs_get ''vary'' (cors_post_process demo_ext ?o (?q ''https://a.b'') (response_new Empty_Body)) = Some ''origin''"
    using cors_answer_headers_get(2) [of demo_cors]
    by (simp add: cors_post_process_def cors_check_request_def hget_def [of "''origin''"] headers_simp)
  then have "cors_post_process demo_ext ?o (?q ''https://a.b'') (response_new Empty_Body) \<noteq> response_new Empty_Body"
    by (metis hdr.get_none option.distinct(1) response_new_simps(3))
  with only [of "?q ''https://a.b''"]
  have "rs_get ''access-control-allow-origin'' (cors_post_process demo_ext ?o (?q ''https://a.b'') (response_new Empty_Body)) = Some ''https://a.b''"
    by (auto simp: hget_def)
  ultimately show ?thesis ..
qed

text \<open>Basic authentication lets a request pass exactly when no credentials are configured, when the
  method is OPTIONS, or when the request carries the configured user name with a password that the
  stored hash verifies; a request that fails is a 401 that asks for credentials, and a
  configuration without a colon is a 500.\<close>

theorem auth_gate:
  "case auth_pre_process X F opts req of
     None \<Rightarrow> basic_auth opts = [] \<or> is_options (rq_method req) \<or>
       (\<exists>u h p. split_once (CHR '':'') (basic_auth opts) = Some (u, h) \<and>
          typed_get (x_basic_credentials X) ''authorization'' (rq_headers req) = Some (u, p) \<and>
          x_bcrypt_verify X p h = Some True)
   | Some r \<Rightarrow> basic_auth opts \<noteq> [] \<and> rq_method req \<noteq> ''OPTIONS'' \<and>
       (if CHR '':'' \<in> set (basic_auth opts)
        then rs_status r = 401 \<and> rs_get ''www-authenticate'' r = Some www_authenticate \<and>
          \<not> (\<exists>u h p. split_once (CHR '':'') (basic_auth opts) = Some (u, h) \<and>
               typed_get (x_basic_credentials X) ''authorization'' (rq_headers req) = Some (u, p) \<and>
               x_bcrypt_verify X p h = Some True)
        else rs_status r = 500)"
proof (cases "split_once (CHR '':'') (basic_auth opts)")
  case None
  then have "CHR '':'' \<notin> set (basic_auth opts)" by (simp add: split_once_None)
  with None show ?thesis by (simp add: auth_pre_process_def is_options_def)
next
  case (Some uh)
  obtain u h where uh: "split_once (CHR '':'') (basic_auth opts) = Some (u, h)" using Some by (cases uh) auto
  then have c: "CHR '':'' \<in> set (basic_auth opts)" using split_once_Some by fastforce
  with uh show ?thesis
    by (auto simp: auth_pre_process_def is_options_def auth_check_request_def headers_simp Let_def
        split: option.splits if_splits)
qed

end
