(* ===== verification/Routing.thy ===== *)
theory Routing
  imports Access_Control
begin

text \<open>
  What happens to a request before the file server sees it: redirects (\<open>src/redirects.rs\<close>),
  rewrites (\<open>src/rewrites.rs\<close>), virtual hosts (\<open>src/virtual_hosts.rs\<close>), the Markdown variant
  (\<open>src/markdown.rs\<close>), the HTTPS redirect server (\<open>src/https_redirect.rs\<close>) and the request log
  line (\<open>src/log_addr.rs\<close>). The three rule tables are searched for their first match; the
  interface \<open>first_match\<close> is interpreted on each search.
\<close>

locale first_match =
  fixes hits :: "'rule \<Rightarrow> bool"
    and pick :: "'rule list \<Rightarrow> 'rule option"
  assumes pick_Nil: "pick [] = None"
    and pick_Cons: "pick (r # rs) = (if hits r then Some r else pick rs)"
begin

lemma pick_find: "pick rs = find hits rs"
  by (induction rs) (simp_all add: pick_Nil pick_Cons)

lemma pick_Some:
  "pick rs = Some r \<longleftrightarrow> (\<exists>xs ys. rs = xs @ r # ys \<and> hits r \<and> (\<forall>x \<in> set xs. \<not> hits x))"
proof (induction rs)
  case (Cons a rs)
  show ?case
  proof (cases "hits a")
    case True
    then show ?thesis
      by (auto simp: pick_Cons Cons_eq_append_conv)
  next
    case False
    with Cons show ?thesis
      by (auto simp: pick_Cons Cons_eq_append_conv)
        (metis append_Cons set_ConsD)
  qed
qed (simp add: pick_Nil)

lemma pick_None: "pick rs = None \<longleftrightarrow> (\<forall>x \<in> set rs. \<not> hits x)"
  by (auto simp: pick_find find_None_iff)

lemma pick_append: "pick (rs @ rs') = (case pick rs of Some r \<Rightarrow> Some r | None \<Rightarrow> pick rs')"
  by (induction rs) (simp_all add: pick_Nil pick_Cons)

end

section \<open>Redirects\<close>

definition regex_is_match :: "ext \<Rightarrow> string \<Rightarrow> string \<Rightarrow> bool" where
  "regex_is_match X re s = (x_regex_captures X re s \<noteq> None)"

fun get_redirection :: "ext \<Rightarrow> string \<Rightarrow> string \<Rightarrow> redirect_rule list \<Rightarrow> redirect_rule option" where
  "get_redirection X host uri [] = None"
| "get_redirection X host uri (e # es) =
     (if (case rd_host e of Some h \<Rightarrow> h \<noteq> host | None \<Rightarrow> False) then get_redirection X host uri es
      else if regex_is_match X (rd_source e) uri then Some e
      else get_redirection X host uri es)"

text \<open>The placeholders are \<open>$0\<close>, \<open>$1\<close> and so on, one for each group of the match.\<close>

definition placeholder :: "nat \<Rightarrow> string" where
  "placeholder i = ''$'' @ show_nat i"

definition replace_placeholders :: "ext \<Rightarrow> string \<Rightarrow> string \<Rightarrow> string \<Rightarrow> string res" where
  "replace_placeholders X orig re dest =
     (case x_regex_captures X re orig of
        None \<Rightarrow> Inl (''regex did not match, extracting captures failed'')
      | Some groups \<Rightarrow>
          (let caps = map (\<lambda>g. case g of Some s \<Rightarrow> s | None \<Rightarrow> []) groups;
               patterns = map placeholder [0..<length groups]
           in case x_replace_all X patterns dest caps of
                Some s \<Rightarrow> Inr s | None \<Rightarrow> Inl ''failed replacing captures''))"

abbreviation handle_error :: "ext \<Rightarrow> fs \<Rightarrow> handler_opts \<Rightarrow> request \<Rightarrow> response" where
  "handle_error X F opts req \<equiv> error_reply X F opts (rq_method req) 500"

definition host_with_port :: "string \<Rightarrow> nat option \<Rightarrow> string" where
  "host_with_port host port = (case port of Some p \<Rightarrow> host @ '':'' @ show_nat p | None \<Rightarrow> host)"

definition redirect_host :: "ext \<Rightarrow> request \<Rightarrow> string" where
  "redirect_host X req =
     (let header = (case Option.bind (hget ''host'' (rq_headers req)) (x_header_str X) of Some h \<Rightarrow> h | None \<Rightarrow> []);
          host = (case uri_host (rq_uri req) of Some h \<Rightarrow> h | None \<Rightarrow> header)
      in host_with_port host (uri_port (rq_uri req)))"

definition redirect_response :: "nat \<Rightarrow> string \<Rightarrow> response" where
  "redirect_response status loc = (rs_insert ''location'' loc (response_new Empty_Body))\<lparr>rs_status := status\<rparr>"

definition redirects_pre_process :: "ext \<Rightarrow> fs \<Rightarrow> handler_opts \<Rightarrow> request \<Rightarrow> response option" where
  "redirects_pre_process X F opts req =
     (case Option.bind (advanced_opts opts) ad_redirects of
        None \<Rightarrow> None
      | Some redirects \<Rightarrow>
          (case get_redirection X (redirect_host X req) (uri_path (rq_uri req)) redirects of
             None \<Rightarrow> None
           | Some matched \<Rightarrow>
               (case replace_placeholders X (uri_path (rq_uri req)) (rd_source matched) (rd_destination matched) of
                  Inl _ \<Rightarrow> Some (handle_error X F opts req)
                | Inr dest \<Rightarrow>
                    (case x_header_value X dest of
                       Some loc \<Rightarrow> Some (redirect_response (rd_kind matched) loc)
                     | None \<Rightarrow> Some (handle_error X F opts req)))))"

section \<open>Rewrites\<close>

fun rewrite_uri_path :: "ext \<Rightarrow> string \<Rightarrow> rewrite_rule list \<Rightarrow> rewrite_rule option" where
  "rewrite_uri_path X uri [] = None"
| "rewrite_uri_path X uri (e # es) =
     (if regex_is_match X (rw_source e) uri then Some e else rewrite_uri_path X uri es)"

definition merge_uris :: "ext \<Rightarrow> uri \<Rightarrow> string \<Rightarrow> uri res" where
  "merge_uris X orig new_uri =
     (case x_uri_parts X new_uri of
        None \<Rightarrow> Inl ''invalid uri''
      | Some p0 \<Rightarrow>
          (let p1 = (if up_scheme p0 = None then p0\<lparr>up_scheme := uri_scheme orig\<rparr> else p0);
               p2 = (if up_authority p1 = None then p1\<lparr>up_authority := uri_authority orig\<rparr> else p1);
               p3 = (if up_path_and_query p2 = None
                     then p2\<lparr>up_path_and_query := x_uri_path_and_query X orig\<rparr> else p2);
               p4 = (case up_path_and_query p3 of
                       None \<Rightarrow> Inr p3
                     | Some pq \<Rightarrow>
                         (case (x_path_query X pq, uri_query orig) of
                            (None, Some q) \<Rightarrow>
                              (case x_parse_path_and_query X (pq @ [CHR 0x3F] @ q) of
                                 Some pq' \<Rightarrow> Inr (p3\<lparr>up_path_and_query := Some pq'\<rparr>)
                               | None \<Rightarrow> Inl ''invalid uri'')
                          | _ \<Rightarrow> Inr p3))
           in res_bind p4 (\<lambda>p. case x_uri_from_parts X p of Some u \<Rightarrow> Inr u | None \<Rightarrow> Inl ''invalid uri parts'')))"

text \<open>The answer, if there is one, and the request with its new target and host.\<close>

definition rewrites_pre_process ::
  "ext \<Rightarrow> fs \<Rightarrow> handler_opts \<Rightarrow> request \<Rightarrow> response option \<times> request" where
  "rewrites_pre_process X F opts req =
     (case Option.bind (advanced_opts opts) ad_rewrites of
        None \<Rightarrow> (None, req)
      | Some rewrites \<Rightarrow>
          (case rewrite_uri_path X (uri_path (rq_uri req)) rewrites of
             None \<Rightarrow> (None, req)
           | Some matched \<Rightarrow>
               (case replace_placeholders X (uri_path (rq_uri req)) (rw_source matched) (rw_destination matched) of
                  Inl _ \<Rightarrow> (Some (handle_error X F opts req), req)
                | Inr dest \<Rightarrow>
                    (case rw_redirect matched of
                       Some kind \<Rightarrow>
                         (case x_header_value X dest of
                            Some loc \<Rightarrow> (Some (redirect_response (redirects_kind_code kind) loc), req)
                          | None \<Rightarrow> (Some (handle_error X F opts req), req))
                     | None \<Rightarrow>
                         (case merge_uris X (rq_uri req) dest of
                            Inl _ \<Rightarrow> (Some (handle_error X F opts req), req)
                          | Inr u \<Rightarrow>
                              (let req1 = req\<lparr>rq_uri := u\<rparr>
                               in case uri_host u of
                                    None \<Rightarrow> (None, req1)
                                  | Some host \<Rightarrow>
                                      (case x_header_value X (host_with_port host (uri_port u)) of
                                         Some v \<Rightarrow> (None, req1\<lparr>rq_headers := hinsert ''host'' v (rq_headers req1)\<rparr>)
                                       | None \<Rightarrow> (None, req1))))))))"

section \<open>Virtual hosts\<close>

text \<open>The host of the request: of the target's authority, or of the host header without its port.\<close>

definition header_host :: "string \<Rightarrow> string" where
  "header_host h =
     (case rsplit_once (CHR '':'') h of
        Some (host, port) \<Rightarrow> if parse_uint 65535 port \<noteq> None then host else h
      | None \<Rightarrow> h)"

definition request_host :: "ext \<Rightarrow> request \<Rightarrow> string option" where
  "request_host X req =
     (case uri_authority (rq_uri req) of
        Some _ \<Rightarrow> uri_host (rq_uri req)
      | None \<Rightarrow> map_option header_host (Option.bind (hget ''host'' (rq_headers req)) (x_header_str X)))"

fun vhost_loop :: "string \<Rightarrow> virtual_host list \<Rightarrow> virtual_host option" where
  "vhost_loop host [] = None"
| "vhost_loop host (v # vs) = (if vh_host v = host then Some v else vhost_loop host vs)"

definition get_real_root :: "ext \<Rightarrow> request \<Rightarrow> virtual_host list option \<Rightarrow> path option" where
  "get_real_root X req vhosts =
     (case vhosts of
        None \<Rightarrow> None
      | Some vs \<Rightarrow>
          if vs = [] then None
          else (case request_host X req of
                  None \<Rightarrow> None
                | Some host \<Rightarrow> map_option vh_root (vhost_loop host vs)))"

section \<open>Markdown\<close>

definition markdown_pre_process :: "ext \<Rightarrow> fs \<Rightarrow> request \<Rightarrow> path \<Rightarrow> string \<Rightarrow> string option" where
  "markdown_pre_process X F req base uri =
     (let wants = (case typed_accept X (rq_headers req) of
                     Some accept \<Rightarrow> accepts_markdown X accept | None \<Rightarrow> False)
      in if \<not> wants then None
         else
           (let sanitized = trim_start_matches (CHR ''/'') uri;
                file_path = (if sanitized = [] then base else path_push base sanitized)
            in case try_markdown_variant F file_path of
                 None \<Rightarrow> None
               | Some md \<Rightarrow>
                   (case Option.bind (path_strip_prefix md base) path_to_str of
                      Some s \<Rightarrow> Some (''/'' @ s)
                    | None \<Rightarrow> None)))"

definition markdown_post_process :: "ext \<Rightarrow> bool \<Rightarrow> handler_opts \<Rightarrow> response \<Rightarrow> response" where
  "markdown_post_process X is_variant opts resp =
     (if \<not> is_variant \<or> \<not> accept_markdown opts then resp
      else case x_header_value X ''text/markdown; charset=utf-8'' of
             Some v \<Rightarrow> rs_insert ''content-type'' v resp
           | None \<Rightarrow> resp)"

section \<open>HTTPS redirect\<close>

record redirect_opts =
  ro_https_hostname :: string
  ro_https_port :: nat
  ro_allowed_hosts :: "string list"

definition redirect_to_https :: "ext \<Rightarrow> request \<Rightarrow> redirect_opts \<Rightarrow> (nat + response) res" where
  "redirect_to_https X req opts =
     (case typed_get (x_host_name X) ''host'' (rq_headers req) of
        None \<Rightarrow> Inr (Inl 400)
      | Some from_hostname \<Rightarrow>
          if from_hostname \<notin> set (ro_allowed_hosts opts) then Inr (Inl 400)
          else (let url = ''https://'' @ ro_https_hostname opts @ '':'' @ show_nat (ro_https_port opts)
                      @ x_uri_str X (rq_uri req)
                in case x_header_value X url of
                     Some loc \<Rightarrow> Inr (Inr (redirect_response 301 loc))
                   | None \<Rightarrow> Inl unwrap_panic))"

section \<open>Request log\<close>

text \<open>The peer: its IP address and its printed socket address.\<close>

record peer =
  peer_ip :: string
  peer_display :: string

definition log_addr_init :: "bool \<Rightarrow> handler_opts \<Rightarrow> handler_opts" where
  "log_addr_init enabled opts = opts\<lparr>log_remote_address := enabled\<rparr>"

definition peer_trusted :: "handler_opts \<Rightarrow> peer option \<Rightarrow> bool" where
  "peer_trusted opts remote =
     (trusted_proxies opts = [] \<or> (case remote of Some p \<Rightarrow> peer_ip p \<in> set (trusted_proxies opts) | None \<Rightarrow> False))"

definition log_real_ip :: "ext \<Rightarrow> request \<Rightarrow> string option" where
  "log_real_ip X req =
     Option.bind (Option.bind (hget ''x-real-ip'' (rq_headers req)) (x_header_str X))
       (\<lambda>s. x_parse_ip X (trim s))"

definition log_forwarded_ip :: "ext \<Rightarrow> request \<Rightarrow> string option" where
  "log_forwarded_ip X req =
     Option.bind (Option.bind (hget ''x-forwarded-for'' (rq_headers req)) (x_header_str X))
       (\<lambda>s. x_parse_ip X (trim (hd (split_on (CHR '','') s))))"

definition log_remote_addrs :: "ext \<Rightarrow> handler_opts \<Rightarrow> request \<Rightarrow> peer option \<Rightarrow> string" where
  "log_remote_addrs X opts req remote =
     (case remote of
        Some p \<Rightarrow> if log_remote_address opts then '' remote_addr='' @ peer_display p else []
      | None \<Rightarrow> [])
     @ (if log_x_real_ip opts \<and> peer_trusted opts remote
        then (case log_real_ip X req of Some ip \<Rightarrow> '' x_real_ip='' @ ip | None \<Rightarrow> []) else [])
     @ (if log_forwarded_for opts \<and> peer_trusted opts remote
        then (case log_forwarded_ip X req of Some ip \<Rightarrow> '' real_remote_ip='' @ ip | None \<Rightarrow> []) else [])"

datatype log_level = Log_Debug | Log_Info

definition log_addr_pre_process :: "ext \<Rightarrow> handler_opts \<Rightarrow> request \<Rightarrow> peer option \<Rightarrow> log_level \<times> string" where
  "log_addr_pre_process X opts req remote =
     ((if health opts \<and> is_health_endpoint req then Log_Debug else Log_Info),
      ''incoming request: method='' @ rq_method req @ '' uri='' @ x_uri_str X (rq_uri req)
        @ log_remote_addrs X opts req remote)"

section \<open>The searches are first-match searches\<close>

definition redirect_hits :: "ext \<Rightarrow> string \<Rightarrow> string \<Rightarrow> redirect_rule \<Rightarrow> bool" where
  "redirect_hits X host uri e =
     ((case rd_host e of Some h \<Rightarrow> h = host | None \<Rightarrow> True) \<and> regex_is_match X (rd_source e) uri)"

interpretation redirects: first_match "redirect_hits X host uri" "get_redirection X host uri" for X host uri
  by unfold_locales (auto simp: redirect_hits_def split: option.splits)

interpretation rewr: first_match "\<lambda>e. regex_is_match X (rw_source e) uri" "rewrite_uri_path X uri" for X uri
  by unfold_locales auto

interpretation vhosts: first_match "\<lambda>v. vh_host v = host" "vhost_loop host" for host
  by unfold_locales auto

interpretation markdown_stage: response_stage "markdown_post_process X v opts" "{''content-type''}" for X v opts
  by unfold_locales (auto simp: markdown_post_process_def headers_simp split: option.split)

section \<open>Properties\<close>

text \<open>Redirects answer with the first rule whose host, if it has one, is the request's host and whose
  pattern matches the path: the location is that rule's destination with its placeholders replaced
  by the groups of the match and the status is the rule's; a destination that is not a header value
  is a 500, and without such a rule the request goes on.\<close>

theorem redirects_first_match:
  assumes "advanced_opts opts = Some a" "ad_redirects a = Some rules"
  shows "case redirects_pre_process X F opts req of
      None \<Rightarrow> list_all (\<lambda>e. \<not> redirect_hits X (redirect_host X req) (uri_path (rq_uri req)) e) rules
    | Some r \<Rightarrow> (\<exists>xs e ys. rules = xs @ e # ys \<and> redirect_hits X (redirect_host X req) (uri_path (rq_uri req)) e \<and>
        list_all (\<lambda>x. \<not> redirect_hits X (redirect_host X req) (uri_path (rq_uri req)) x) xs \<and>
        (case replace_placeholders X (uri_path (rq_uri req)) (rd_source e) (rd_destination e) of
           Inr dest \<Rightarrow> (case x_header_value X dest of
             Some loc \<Rightarrow> rs_status r = rd_kind e \<and> rs_get ''location'' r = Some loc \<and> rs_body r = Empty_Body
           | None \<Rightarrow> rs_status r = 500)
         | Inl _ \<Rightarrow> rs_status r = 500))"
proof (cases "get_redirection X (redirect_host X req) (uri_path (rq_uri req)) rules")
  case None
  then have "list_all (\<lambda>e. \<not> redirect_hits X (redirect_host X req) (uri_path (rq_uri req)) e) rules"
    by (simp add: redirects.pick_None list_all_iff)
  with None assms show ?thesis by (simp add: redirects_pre_process_def)
next
  case (Some e)
  then obtain xs ys where e: "rules = xs @ e # ys" "redirect_hits X (redirect_host X req) (uri_path (rq_uri req)) e"
    "list_all (\<lambda>x. \<not> redirect_hits X (redirect_host X req) (uri_path (rq_uri req)) x) xs"
    by (auto simp: redirects.pick_Some list_all_iff)
  obtain r where r: "redirects_pre_process X F opts req = Some r"
    "case replace_placeholders X (uri_path (rq_uri req)) (rd_source e) (rd_destination e) of
       Inr dest \<Rightarrow> (case x_header_value X dest of
         Some loc \<Rightarrow> rs_status r = rd_kind e \<and> rs_get ''location'' r = Some loc \<and> rs_body r = Empty_Body
       | None \<Rightarrow> rs_status r = 500)
     | Inl _ \<Rightarrow> rs_status r = 500"
    using Some assms that
    by (cases "replace_placeholders X (uri_path (rq_uri req)) (rd_source e) (rd_destination e)";
        cases "x_header_value X (projr (replace_placeholders X (uri_path (rq_uri req)) (rd_source e) (rd_destination e)))")
      (auto simp: redirects_pre_process_def redirect_response_def headers_simp)
  with e show ?thesis by auto
qed

definition demo_redirect :: redirect_rule where
  "demo_redirect = \<lparr>rd_host = Some ''a.org'', rd_source = ''/old'', rd_destination = ''/new'', rd_kind = 301\<rparr>"

lemma demo_request_uri_simps [simp]:
  "uri_host (rq_uri (demo_request m p h)) = None" "uri_port (rq_uri (demo_request m p h)) = None"
  "uri_authority (rq_uri (demo_request m p h)) = None" "uri_query (rq_uri (demo_request m p h)) = None"
  by (simp_all add: demo_request_def demo_uri_def)

theorem redirects_first_match_witness:
  "redirects_pre_process demo_ext demo_fs (handler_opts_default\<lparr>advanced_opts :=
      Some (advanced_default\<lparr>ad_redirects := Some [demo_redirect]\<rparr>)\<rparr>)
    (demo_request ''GET'' ''/old'' [(''host'', ''a.org'')]) \<noteq> None"
proof -
  have "redirect_hits demo_ext ''a.org'' ''/old'' demo_redirect"
    by (simp add: redirect_hits_def demo_redirect_def regex_is_match_def)
  moreover have "redirect_host demo_ext (demo_request ''GET'' ''/old'' [(''host'', ''a.org'')]) = ''a.org''"
    by (simp add: redirect_host_def host_with_port_def hget_def)
  ultimately show ?thesis
    using redirects_first_match [of "handler_opts_default\<lparr>advanced_opts :=
      Some (advanced_default\<lparr>ad_redirects := Some [demo_redirect]\<rparr>)\<rparr>" _ "[demo_redirect]" demo_ext
      "demo_request ''GET'' ''/old'' [(''host'', ''a.org'')]" demo_fs]
    by (auto split: option.splits)
qed

lemma header_host_no_colon: "CHR '':'' \<notin> set h \<Longrightarrow> header_host h = h"
  by (simp add: header_host_def rsplit_once_None [THEN iffD2])

text \<open>Virtual hosts: the root of a request is the one of the first virtual host with the name of the
  request, which is the name in its host header without a decimal port of 16 bits, when the
  target carries no authority; the comparison keeps the case of the letters, and without such
  a host the default root stays.\<close>

theorem virtual_host_first_match:
  assumes "uri_authority (rq_uri req) = None" "x_header_str X h = Some s" "hget ''host'' (rq_headers req) = Some h"
    and "s = name \<or> (\<exists>port n. s = name @ '':'' @ port \<and> parse_uint 65535 port = Some n)"
    and "CHR '':'' \<notin> set name"
  shows "get_real_root X req (Some vs) = map_option vh_root (find (\<lambda>v. vh_host v = name) vs)"
proof -
  have "header_host s = name"
  proof (cases "s = name")
    case False
    then obtain port n where s: "s = name @ '':'' @ port" and p: "parse_uint 65535 port = Some n"
      using assms(4) by auto
    have "CHR '':'' \<notin> set port"
    proof
      assume c: "CHR '':'' \<in> set port"
      define ds where "ds = (if port \<noteq> [] \<and> hd port = CHR ''+'' then tl port else port)"
      have "CHR '':'' \<in> set ds" using c by (cases port) (auto simp: ds_def)
      then have "digits_val a ds = None" for a
        by (induction ds arbitrary: a) (auto simp: is_digit_def)
      with p show False by (auto simp: parse_uint_def ds_def [symmetric] Let_def split: if_splits)
    qed
    with s have "rsplit_once (CHR '':'') s = Some (name, port)" by (simp add: rsplit_once_Some)
    with p show ?thesis by (simp add: header_host_def)
  qed (use assms(5) header_host_no_colon in simp)
  with assms show ?thesis by (cases vs) (simp_all add: get_real_root_def request_host_def vhosts.pick_find)
qed

theorem virtual_host_first_match_witness:
  "get_real_root demo_ext (demo_request ''GET'' ''/'' [(''host'', ''b.org:8080'')])
     (Some [\<lparr>vh_host = ''a.org'', vh_root = ''/a''\<rparr>, \<lparr>vh_host = ''b.org'', vh_root = ''/b''\<rparr>]) = Some ''/b''"
proof -
  have "parse_uint 65535 ''8080'' = Some 8080"
    by (simp add: parse_uint_def is_digit_def)
  then have "\<exists>port n. ''b.org:8080'' = ''b.org'' @ '':'' @ port \<and> parse_uint 65535 port = Some n"
    by (intro exI [of _ "''8080''"]) simp
  then show ?thesis
    using virtual_host_first_match [of "demo_request ''GET'' ''/'' [(''host'', ''b.org:8080'')]" demo_ext
        "''b.org:8080''" "''b.org:8080''" "''b.org''"]
    by (simp add: hget_def)
qed

text \<open>The client address that the request log takes from a forwarding header is believed only when no
  proxies are configured as trusted or the peer is one of them: for any other peer the logged
  addresses do not depend on the headers of the request, whatever is enabled.\<close>

theorem untrusted_forwarding_ignored:
  assumes "trusted_proxies opts \<noteq> []" "case remote of Some p \<Rightarrow> peer_ip p \<notin> set (trusted_proxies opts) | None \<Rightarrow> True"
  shows "log_remote_addrs X opts req remote = log_remote_addrs X opts (req\<lparr>rq_headers := h\<rparr>) remote"
  using assms by (auto simp: log_remote_addrs_def peer_trusted_def split: option.split)

theorem untrusted_forwarding_ignored_witness:
  "log_remote_addrs demo_ext (handler_opts_default\<lparr>trusted_proxies := [''10.0.0.1''], log_x_real_ip := True\<rparr>)
     (demo_request ''GET'' ''/'' [(''x-real-ip'', ''1.2.3.4'')]) (Some \<lparr>peer_ip = ''10.9.9.9'', peer_display = ''10.9.9.9:1''\<rparr>)
   = log_remote_addrs demo_ext (handler_opts_default\<lparr>trusted_proxies := [''10.0.0.1''], log_x_real_ip := True\<rparr>)
     (demo_request ''GET'' ''/'' [(''x-real-ip'', ''1.2.3.4'')]\<lparr>rq_headers := []\<rparr>)
     (Some \<lparr>peer_ip = ''10.9.9.9'', peer_display = ''10.9.9.9:1''\<rparr>)"
  by (rule untrusted_forwarding_ignored) simp_all

text \<open>The HTTPS redirect server answers only for the allowed host names, with a permanent redirect to the
  configured host and port at the target of the request, and every other request is a 400.\<close>

theorem https_redirect_allowed_hosts:
  assumes "\<And>s. x_header_value X s = Some s"
  shows "redirect_to_https X req opts =
    (case typed_get (x_host_name X) ''host'' (rq_headers req) of
       Some name \<Rightarrow>
         if name \<in> set (ro_allowed_hosts opts)
         then Inr (Inr \<lparr>rs_status = 301,
           rs_headers = [(''location'', ''https://'' @ ro_https_hostname opts @ '':''
              @ show_nat (ro_https_port opts) @ x_uri_str X (rq_uri req))],
           rs_body = Empty_Body\<rparr>)
         else Inr (Inl 400)
     | None \<Rightarrow> Inr (Inl 400))"
  by (simp add: redirect_to_https_def redirect_response_def rs_insert_def response_new_def assms
      hinsert.simps split: option.split)

theorem https_redirect_allowed_hosts_witness:
  "redirect_to_https demo_ext (demo_request ''GET'' ''/x'' [(''host'', ''evil.org'')])
     \<lparr>ro_https_hostname = ''a.org'', ro_https_port = 443, ro_allowed_hosts = [''a.org'']\<rparr> = Inr (Inl 400)"
  using https_redirect_allowed_hosts [of demo_ext "demo_request ''GET'' ''/x'' [(''host'', ''evil.org'')]"
      "\<lparr>ro_https_hostname = ''a.org'', ro_https_port = 443, ro_allowed_hosts = [''a.org'']\<rparr>"]
  by (simp add: typed_get_def hget_all_simps)

end
