(* ===== verification/Routes.thy ===== *)
theory Routes
  imports Opts
begin

text \<open>
  The routes of the control plane: the document (\<open>src/routes/document.rs\<close>) and its bootstrap at
  start (\<open>src/routes/bootstrap.rs\<close>), which fetches it once, keeps a copy in a cache file and
  falls back to that copy or to the configuration file. The files that the bootstrap writes are
  an explicit store; the environment, the HTTP client and the JSON library are the
  parameters of the record \<open>boot_env\<close>.
\<close>

section \<open>The document\<close>

record route_entry =
  re_name :: "string option"
  re_host :: "string option"
  re_source :: string
  re_target :: "string option"
  re_targets :: "string list option"
  re_strip_prefix :: "string option"

record app_routes =
  ar_id :: string
  ar_routes :: "route_entry list"

record routes_document =
  doc_version :: nat
  doc_apps :: "app_routes list"

definition validate_route_source :: "string \<Rightarrow> string \<Rightarrow> unit res" where
  "validate_route_source source app_id =
     (if \<not> prefix ''/'' source then Inl (''routes bootstrap: source must start with a slash (app='' @ app_id @ ''): '' @ source)
      else if str_contains ''..'' source
      then Inl (''routes bootstrap: source must not contain a double dot (app='' @ app_id @ ''): '' @ source)
      else Inr ())"

definition route_def :: "string \<Rightarrow> route_entry \<Rightarrow> proxy_def res" where
  "route_def app_id r =
     res_bind (validate_route_source (re_source r) app_id) (\<lambda>_.
       if (case re_strip_prefix r of Some p \<Rightarrow> \<not> prefix ''/'' p | None \<Rightarrow> False)
       then Inl (''routes bootstrap: strip-prefix must start with a slash (app='' @ app_id @ '', source='' @ re_source r @ '')'')
       else Inr \<lparr>pd_name = re_name r, pd_host = re_host r, pd_source = re_source r, pd_target = re_target r,
                 pd_targets = re_targets r, pd_strip_prefix = re_strip_prefix r\<rparr>)"

definition into_proxy_defs :: "routes_document \<Rightarrow> proxy_def list res" where
  "into_proxy_defs doc =
     (if doc_version doc \<noteq> 1
      then Inl (''routes bootstrap: unsupported document version '' @ show_nat (doc_version doc) @ '' (expected 1)'')
      else res_bind (collect_res (\<lambda>a. collect_res (route_def (ar_id a)) (ar_routes a)) (doc_apps doc))
             (\<lambda>dss. Inr (concat dss)))"

section \<open>The environment of the bootstrap\<close>

text \<open>What the bootstrap asks for when it runs; \<open>be_timed_out\<close> says that the deadline passed first.\<close>

record boot_env =
  be_var :: "string \<Rightarrow> string option"
    \<comment> \<open>\<open>std::env::var\<close>\<close>
  be_client :: "proxy_tls_settings \<Rightarrow> unit res"
    \<comment> \<open>\<open>build_bootstrap_client\<close>\<close>
  be_request :: "request \<Rightarrow> response res"
  be_body :: "response \<Rightarrow> string res"
    \<comment> \<open>\<open>hyper::body::to_bytes\<close>\<close>
  be_timed_out :: "nat \<Rightarrow> bool"
  be_url_encode :: "string \<Rightarrow> string"
    \<comment> \<open>\<open>form_urlencoded::byte_serialize\<close>\<close>
  be_parse_doc :: "string \<Rightarrow> routes_document option"
    \<comment> \<open>\<open>serde_json::from_slice\<close>\<close>
  be_print_doc :: "routes_document \<Rightarrow> string option"
    \<comment> \<open>\<open>serde_json::to_vec_pretty\<close>\<close>
  be_mkdir_ok :: "path \<Rightarrow> bool"
  be_write_ok :: "path \<Rightarrow> bool"
  be_rename_ok :: "path \<Rightarrow> path \<Rightarrow> bool"

type_synonym files = "path \<rightharpoonup> string"

section \<open>The cache file\<close>

text \<open>
  A write that fails may leave any bytes in the temporary file, here \<open>partial\<close>; the file of
  the cache itself is only touched by the rename.
\<close>

definition write_cache :: "boot_env \<Rightarrow> string \<Rightarrow> path \<Rightarrow> routes_document \<Rightarrow> files \<Rightarrow> unit res \<times> files" where
  "write_cache E partial p doc fs =
     (case be_print_doc E doc of
        None \<Rightarrow> (Inl ''json'', fs)
      | Some json \<Rightarrow>
          (let parent = (case path_parent p of Some q \<Rightarrow> if q = [] then None else Some q | None \<Rightarrow> None);
               tmp = path_with_extension p ''tmp''
           in if (case parent of Some d \<Rightarrow> \<not> be_mkdir_ok E d | None \<Rightarrow> False) then (Inl ''create dir'', fs)
              else if \<not> be_write_ok E tmp then (Inl ''write'', fs(tmp \<mapsto> partial))
              else if \<not> be_rename_ok E tmp p then (Inl ''rename'', fs(tmp \<mapsto> json))
              else (Inr (), fs(tmp := None, p \<mapsto> json))))"

definition read_cache :: "boot_env \<Rightarrow> path \<Rightarrow> files \<Rightarrow> routes_document res" where
  "read_cache E p fs =
     (case fs p of
        None \<Rightarrow> Inl (''routes bootstrap: cannot read cache '' @ p)
      | Some data \<Rightarrow> (case be_parse_doc E data of Some doc \<Rightarrow> Inr doc | None \<Rightarrow> Inl ''routes bootstrap: invalid cache JSON''))"

section \<open>The bootstrap\<close>

definition build_bootstrap_uri :: "ext \<Rightarrow> boot_env \<Rightarrow> string \<Rightarrow> string option \<Rightarrow> string \<Rightarrow> uri res" where
  "build_bootstrap_uri X E base client_id version =
     (let sep = (if str_contains [CHR 0x3F] base then ''&'' else [CHR 0x3F]);
          url0 = base @ sep @ ''weavegate='' @ be_url_encode E version;
          url = (case client_id of
                   Some c \<Rightarrow> if c \<noteq> [] then url0 @ ''&client='' @ be_url_encode E c else url0
                 | None \<Rightarrow> url0)
      in case x_parse_uri X url of Some u \<Rightarrow> Inr u | None \<Rightarrow> Inl (''routes bootstrap: invalid URL: '' @ url))"

definition bootstrap_headers :: "string \<Rightarrow> string option \<Rightarrow> headers" where
  "bootstrap_headers version token =
     [(''accept'', ''application/json''), (''user-agent'', ''weavegate/'' @ version)]
     @ (case token of Some t \<Rightarrow> if t \<noteq> [] then [(''authorization'', ''Bearer '' @ t)] else [] | None \<Rightarrow> [])"

definition bootstrap_token :: "boot_env \<Rightarrow> routes_bootstrap \<Rightarrow> string option res" where
  "bootstrap_token E config =
     (case rb_token_env config of
        None \<Rightarrow> Inr None
      | Some name \<Rightarrow>
          (case be_var E name of
             Some t \<Rightarrow> Inr (Some t)
           | None \<Rightarrow> Inl (''routes bootstrap: environment variable '' @ name @ '' is not set'')))"

text \<open>A token that is not a header value fails when the request is built.\<close>

definition http_fetch_document ::
  "ext \<Rightarrow> boot_env \<Rightarrow> routes_bootstrap \<Rightarrow> string \<Rightarrow> proxy_tls_settings \<Rightarrow> routes_document res" where
  "http_fetch_document X E config version tls =
     res_bind (build_bootstrap_uri X E (rb_url config) (rb_client_id config) version) (\<lambda>u.
     res_bind (be_client E tls) (\<lambda>_.
     res_bind (bootstrap_token E config) (\<lambda>token.
     if list_ex (\<lambda>(_, v). x_header_value X v = None) (bootstrap_headers version token) then Inl ''invalid header value''
     else
     res_bind (be_request E \<lparr>rq_method = ''GET'', rq_uri = u, rq_headers = bootstrap_headers version token,
                             rq_body = Empty_Body\<rparr>) (\<lambda>resp.
     if \<not> (200 \<le> rs_status resp \<and> rs_status resp < 300)
     then Inl (''routes bootstrap: control plane returned HTTP '' @ show_nat (rs_status resp))
     else
     res_bind (be_body E resp) (\<lambda>data.
       case be_parse_doc E data of Some doc \<Rightarrow> Inr doc | None \<Rightarrow> Inl ''routes bootstrap: invalid JSON response'')))))"

definition on_failure_or_default :: "routes_bootstrap \<Rightarrow> on_failure" where
  "on_failure_or_default config = (case rb_on_failure config of Some f \<Rightarrow> f | None \<Rightarrow> CacheThenFile)"

definition handle_fetch_failure ::
  "boot_env \<Rightarrow> routes_bootstrap \<Rightarrow> anyhow_error \<Rightarrow> files \<Rightarrow> proxy_def list option res" where
  "handle_fetch_failure E config err fs =
     (let fallback = (case on_failure_or_default config of
                        FailStart \<Rightarrow> Inl (''routes bootstrap: fetch failed and no cache available: '' @ err)
                      | CacheThenFile \<Rightarrow> Inr None
                      | FileOnly \<Rightarrow> Inr None)
      in case rb_cache_path config of
           None \<Rightarrow> fallback
         | Some p \<Rightarrow>
             (case read_cache E p fs of
                Inr doc \<Rightarrow> res_bind (into_proxy_defs doc) (\<lambda>defs. Inr (Some defs))
              | Inl _ \<Rightarrow> fallback))"

definition fetch_routes_defs ::
  "ext \<Rightarrow> boot_env \<Rightarrow> string \<Rightarrow> routes_bootstrap \<Rightarrow> string \<Rightarrow> proxy_tls_settings \<Rightarrow> files
   \<Rightarrow> proxy_def list option res \<times> files" where
  "fetch_routes_defs X E partial config version tls fs =
     (if on_failure_or_default config = FileOnly then (Inr None, fs)
      else
        (let timeout = (case rb_timeout_secs config of Some n \<Rightarrow> n | None \<Rightarrow> 5)
         in if be_timed_out E timeout
            then (handle_fetch_failure E config ''routes bootstrap request timed out'' fs, fs)
            else case http_fetch_document X E config version tls of
                   Inl err \<Rightarrow> (handle_fetch_failure E config err fs, fs)
                 | Inr doc \<Rightarrow>
                     (let fs' = (case rb_cache_path config of
                                   Some p \<Rightarrow> snd (write_cache E partial p doc fs) | None \<Rightarrow> fs)
                      in (res_bind (into_proxy_defs doc) (\<lambda>defs. Inr (Some defs)), fs'))))"

section \<open>Properties\<close>

lemma collect_res_concat:
  "collect_res (\<lambda>a. collect_res (f a) (g a)) as = Inr dss \<Longrightarrow>
   length (concat dss) = (\<Sum>a\<leftarrow>as. length (g a)) \<and>
   (\<forall>d \<in> set (concat dss). \<exists>a \<in> set as. \<exists>r \<in> set (g a). f a r = Inr d)"
proof (induction as arbitrary: dss)
  case (Cons a as)
  then obtain ds dss' where d: "dss = ds # dss'" "collect_res (f a) (g a) = Inr ds"
    "collect_res (\<lambda>a. collect_res (f a) (g a)) as = Inr dss'"
    by (auto simp: res_bind_Inr_iff)
  from Cons.IH [OF d(3)] collect_res_set [OF d(2)] collect_res_length [OF d(2)] d(1)
  show ?case by (auto split del: if_split)
qed simp

lemma into_proxy_defs_Inr:
  "into_proxy_defs doc = Inr defs \<Longrightarrow>
   doc_version doc = 1 \<and> length defs = (\<Sum>a\<leftarrow>doc_apps doc. length (ar_routes a)) \<and>
   (\<forall>d \<in> set defs. \<exists>a \<in> set (doc_apps doc). \<exists>r \<in> set (ar_routes a). route_def (ar_id a) r = Inr d)"
proof -
  assume a: "into_proxy_defs doc = Inr defs"
  then obtain dss where d: "doc_version doc = 1" "defs = concat dss"
    "collect_res (\<lambda>a. collect_res (route_def (ar_id a)) (ar_routes a)) (doc_apps doc) = Inr dss"
    by (auto simp: into_proxy_defs_def res_bind_Inr_iff split: if_splits)
  with collect_res_concat [OF d(3)] show ?thesis by simp
qed

text \<open>A routes document becomes one proxy rule per route of its applications, and only when its version
  is 1 and every route is well formed: every rule has a pattern that starts with a slash
  and contains no double dot, and a prefix to strip, if any, that starts with a slash.\<close>

theorem document_rules_well_formed:
  assumes "into_proxy_defs doc = Inr defs"
  shows "doc_version doc = 1 \<and> length defs = (\<Sum>a\<leftarrow>doc_apps doc. length (ar_routes a)) \<and>
    list_all (\<lambda>d. prefix ''/'' (pd_source d) \<and> \<not> str_contains ''..'' (pd_source d) \<and>
      (case pd_strip_prefix d of Some p \<Rightarrow> prefix ''/'' p | None \<Rightarrow> True)) defs"
  using into_proxy_defs_Inr [OF assms]
  by (fastforce simp: list_all_iff route_def_def validate_route_source_def res_bind_Inr_iff
      split: if_splits option.splits)

definition demo_doc :: "nat \<Rightarrow> routes_document" where
  "demo_doc v = \<lparr>doc_version = v, doc_apps = [\<lparr>ar_id = ''shop'', ar_routes =
     [\<lparr>re_name = None, re_host = None, re_source = ''/api/**'', re_target = Some ''http://10.0.0.1'',
       re_targets = None, re_strip_prefix = Some ''/api''\<rparr>]\<rparr>]\<rparr>"

definition demo_defs :: "proxy_def list" where
  "demo_defs = [\<lparr>pd_name = None, pd_host = None, pd_source = ''/api/**'', pd_target = Some ''http://10.0.0.1'',
     pd_targets = None, pd_strip_prefix = Some ''/api''\<rparr>]"

lemma demo_into: "into_proxy_defs (demo_doc 1) = Inr demo_defs" "is_ok (into_proxy_defs (demo_doc 2)) = False"
  by (simp_all add: into_proxy_defs_def demo_doc_def demo_defs_def route_def_def validate_route_source_def)

theorem document_rules_well_formed_witness:
  "list_all (\<lambda>d. prefix ''/'' (pd_source d)) demo_defs"
  using document_rules_well_formed [OF demo_into(1)] by (simp add: list_all_iff)

lemma write_cache_ok:
  assumes "be_print_doc E doc = Some json" "\<And>d. be_mkdir_ok E d" "\<And>q. be_write_ok E q" "\<And>q r. be_rename_ok E q r"
  shows "snd (write_cache E partial p doc fs) p = Some json"
  using assms by (auto simp: write_cache_def Let_def split: option.splits)


text \<open>C31. The cache replays the last fetch: after a bootstrap that fetched rules and could write its cache, a
  later start whose fetch fails, or times out, gets exactly the same rules, also when the failure
  policy is to fail.\<close>

theorem cache_replays_last_fetch:
  assumes "rb_cache_path config = Some p"
    and "fetch_routes_defs X E partial config version tls fs = (Inr (Some defs), fs')"
    and "http_fetch_document X E config version tls = Inr doc" "\<not> be_timed_out E (case rb_timeout_secs config of Some n \<Rightarrow> n | None \<Rightarrow> 5)"
    and "be_print_doc E doc = Some json" "be_parse_doc E' json = Some doc"
    and "\<And>d. be_mkdir_ok E d" "\<And>q. be_write_ok E q" "\<And>q r. be_rename_ok E q r"
    and "be_timed_out E' (case rb_timeout_secs config of Some n \<Rightarrow> n | None \<Rightarrow> 5) \<or>
         http_fetch_document X' E' config version' tls' = Inl err"
  shows "fetch_routes_defs X' E' partial' config version' tls' fs' = (Inr (Some defs), fs')"
proof -
  have np: "on_failure_or_default config \<noteq> FileOnly" using assms(2) by (auto simp: fetch_routes_defs_def)
  with assms have d: "into_proxy_defs doc = Inr defs" and fs: "fs' = snd (write_cache E partial p doc fs)"
    by (auto simp: fetch_routes_defs_def Let_def res_bind_Inr_iff)
  from fs write_cache_ok [OF assms(5,7-9)] have c: "fs' p = Some json" by simp
  have "handle_fetch_failure E' config e fs' = Inr (Some defs)" for e
    using assms(1,6) c d by (simp add: handle_fetch_failure_def read_cache_def)
  with np assms(10) show ?thesis by (auto simp: fetch_routes_defs_def Let_def split: sum.splits)
qed

text \<open>A document that does not validate is written to the cache before it is validated: the start that
  fetched it fails, and so does every later start whose fetch fails, although the default policy
  is to fall back to the configuration file.\<close>

theorem invalid_document_blocks_fallback:
  assumes "rb_cache_path config = Some p" "on_failure_or_default config = CacheThenFile"
    and "http_fetch_document X E config version tls = Inr doc" "\<not> be_timed_out E (case rb_timeout_secs config of Some n \<Rightarrow> n | None \<Rightarrow> 5)"
    and "into_proxy_defs doc = Inl bad"
    and "be_print_doc E doc = Some json" "be_parse_doc E' json = Some doc"
    and "\<And>d. be_mkdir_ok E d" "\<And>q. be_write_ok E q" "\<And>q r. be_rename_ok E q r"
    and "http_fetch_document X' E' config version' tls' = Inl err"
  shows "\<exists>fs'. fetch_routes_defs X E partial config version tls fs = (Inl bad, fs') \<and>
    fetch_routes_defs X' E' partial' config version' tls' fs' = (Inl bad, fs')"
proof -
  let ?fs = "snd (write_cache E partial p doc fs)"
  have c: "?fs p = Some json" using write_cache_ok [OF assms(6,8-10)] .
  have "fetch_routes_defs X E partial config version tls fs = (Inl bad, ?fs)"
    using assms by (simp add: fetch_routes_defs_def Let_def)
  moreover have "handle_fetch_failure E' config e ?fs = Inl bad" for e
    using assms(1,5,7) c by (simp add: handle_fetch_failure_def read_cache_def)
  then have "fetch_routes_defs X' E' partial' config version' tls' ?fs = (Inl bad, ?fs)"
    using assms(2,11) by (simp add: fetch_routes_defs_def Let_def)
  ultimately show ?thesis by blast
qed

section \<open>Concrete starts\<close>

definition demo_config :: routes_bootstrap where
  "demo_config = \<lparr>rb_url = ''http://cp'', rb_token_env = None, rb_timeout_secs = None, rb_cache_path = Some ''routes.json'',
     rb_on_failure = None, rb_client_id = None\<rparr>"

text \<open>A control plane that answers with a document of the version \<open>v\<close>, or does not answer.\<close>

definition demo_env :: "nat option \<Rightarrow> boot_env" where
  "demo_env v = \<lparr>be_var = (\<lambda>_. None), be_client = (\<lambda>_. Inr ()),
     be_request = (\<lambda>_. if v = None then Inl ''refused'' else Inr (response_new Empty_Body)),
     be_body = (\<lambda>_. Inr (show_nat (the v))), be_timed_out = (\<lambda>_. False), be_url_encode = (\<lambda>s. s),
     be_parse_doc = (\<lambda>s. map_option demo_doc (parse_uint 99 s)), be_print_doc = (\<lambda>d. Some (show_nat (doc_version d))),
     be_mkdir_ok = (\<lambda>_. True), be_write_ok = (\<lambda>_. True), be_rename_ok = (\<lambda>_ _. True)\<rparr>"

lemma demo_fetch:
  "v \<le> 99 \<Longrightarrow> http_fetch_document demo_ext (demo_env (Some v)) demo_config ''1'' tls = Inr (demo_doc v)"
  "http_fetch_document demo_ext (demo_env None) demo_config ''1'' tls = Inl ''refused''"
  by (simp_all add: http_fetch_document_def demo_env_def demo_config_def build_bootstrap_uri_def Let_def
      bootstrap_token_def bootstrap_headers_def parse_uint_show_nat)

lemma demo_env_files:
  "be_print_doc (demo_env v) d = Some (show_nat (doc_version d))" "be_mkdir_ok (demo_env v) q"
  "be_write_ok (demo_env v) q" "be_rename_ok (demo_env v) q r" "\<not> be_timed_out (demo_env v) n"
  "be_parse_doc (demo_env v) (show_nat 1) = Some (demo_doc 1)" "be_parse_doc (demo_env v) (show_nat 2) = Some (demo_doc 2)"
  "doc_version (demo_doc n) = n" "rb_cache_path demo_config = Some ''routes.json''"
  "on_failure_or_default demo_config = CacheThenFile"
  by (simp_all add: demo_env_def parse_uint_show_nat demo_doc_def demo_config_def on_failure_or_default_def)


theorem cache_replays_last_fetch_witness:
  "\<exists>fs. fetch_routes_defs demo_ext (demo_env None) [] demo_config ''1'' proxy_tls_settings_default fs = (Inr (Some demo_defs), fs)"
proof -
  obtain fs where f: "fetch_routes_defs demo_ext (demo_env (Some 1)) [] demo_config ''1'' proxy_tls_settings_default Map.empty = (Inr (Some demo_defs), fs)"
    by (simp add: fetch_routes_defs_def demo_fetch demo_env_files demo_into del: One_nat_def)
  from cache_replays_last_fetch [OF demo_env_files(9) f demo_fetch(1) demo_env_files(5,1) _ demo_env_files(2-4),
      where E' = "demo_env None" and X' = demo_ext and version' = "''1''" and tls' = proxy_tls_settings_default and err = "''refused''"
        and partial' = "[]"]
  show ?thesis by (auto simp: demo_env_files demo_fetch simp del: One_nat_def)
qed

theorem invalid_document_blocks_fallback_witness:
  "\<exists>bad fs. fetch_routes_defs demo_ext (demo_env None) [] demo_config ''1'' proxy_tls_settings_default fs = (Inl bad, fs)"
proof -
  obtain bad where bad: "into_proxy_defs (demo_doc 2) = Inl bad"
    using demo_into(2) by (cases "into_proxy_defs (demo_doc 2)") auto
  from invalid_document_blocks_fallback [OF demo_env_files(9,10) demo_fetch(1) demo_env_files(5) bad demo_env_files(1) _
      demo_env_files(2-4) demo_fetch(2), where tls = proxy_tls_settings_default and tls' = proxy_tls_settings_default and partial = "[]" and partial' = "[]"
        and fs = Map.empty]
  show ?thesis by (auto simp: demo_env_files)
qed

end
