(* ===== verification/Proxy.thy ===== *)
theory Proxy
  imports Routing Routes
begin

text \<open>
  The reverse proxy: the order of the rules (\<open>src/proxy_sort.rs\<close>), their compilation
  (\<open>src/proxy_compile.rs\<close>), the round-robin balancer and the URI templates (\<open>src/settings/mod.rs\<close>),
  the HTTP client (\<open>src/proxy_client.rs\<close>) and the forwarding of requests (\<open>src/proxy.rs\<close>). The
  counter of a balancer is a 64-bit word; every operation that draws from it returns the rule with the
  new counter. What the upstream answers is a parameter.
\<close>

section \<open>Order of the rules\<close>

definition specificity_key :: "string \<Rightarrow> nat \<times> nat" where
  "specificity_key source = (length source, length (filter (\<lambda>c. c = CHR ''*'') source))"

definition more_specific :: "proxy_def \<Rightarrow> proxy_def \<Rightarrow> bool" where
  "more_specific a b = (specificity_key (pd_source b) \<le> specificity_key (pd_source a))"

definition sort_proxy_defs_by_specificity :: "proxy_def list \<Rightarrow> proxy_def list" where
  "sort_proxy_defs_by_specificity defs = sort_by more_specific defs"

section \<open>Balancer\<close>

definition proxy_balancer_new :: "string option \<Rightarrow> uri list \<Rightarrow> proxy_balancer res" where
  "proxy_balancer_new name targets =
     (if targets = [] then Inl ''proxy service must have at least one upstream target''
      else Inr \<lparr>pb_name = name, pb_targets = targets, pb_next = 0\<rparr>)"

text \<open>\<open>fetch_add\<close> returns the old counter and wraps around.\<close>

definition next_index :: "proxy_balancer \<Rightarrow> nat \<times> proxy_balancer" where
  "next_index b = (unat (pb_next b) mod length (pb_targets b), b\<lparr>pb_next := pb_next b + 1\<rparr>)"

definition balancer_next :: "proxy_balancer \<Rightarrow> uri \<times> proxy_balancer" where
  "balancer_next b = (let (i, b') = next_index b in (pb_targets b ! i, b'))"

definition balancer_len :: "proxy_balancer \<Rightarrow> nat" where
  "balancer_len b = length (pb_targets b)"

section \<open>URI templates\<close>

definition upstream_uri_template :: "uri \<Rightarrow> string option \<Rightarrow> uri_template res" where
  "upstream_uri_template base strip =
     (case uri_authority base of
        None \<Rightarrow> Inl ''upstream URI has no authority''
      | Some authority \<Rightarrow>
          (case uri_scheme base of
             None \<Rightarrow> Inl ''upstream URI has no scheme''
           | Some scheme \<Rightarrow>
               Inr \<lparr>ut_origin = scheme @ ''://'' @ authority,
                    ut_base_path = (if uri_path base = [] then ''/'' else uri_path base),
                    ut_strip_prefix = strip\<rparr>))"

text \<open>The path and query that the upstream gets, or the error of a stripped path without a slash.\<close>

definition merged_path :: "uri_template \<Rightarrow> string \<Rightarrow> string res" where
  "merged_path t path_and_query =
     (let stripped = (case ut_strip_prefix t of
                        Some p \<Rightarrow> (case strip_prefix p path_and_query of Some r \<Rightarrow> r | None \<Rightarrow> path_and_query)
                      | None \<Rightarrow> path_and_query)
      in if stripped \<noteq> [] \<and> \<not> prefix ''/'' stripped
         then Inl (''invalid path after strip-prefix: '' @ stripped)
         else (let pq = (if stripped = [] then ''/'' else stripped)
               in Inr (if ut_base_path t = [] \<or> ut_base_path t = ''/'' then pq
                       else trim_end_matches (CHR ''/'') (ut_base_path t) @ pq)))"

definition build_upstream_uri_from_template :: "ext \<Rightarrow> uri_template \<Rightarrow> uri \<Rightarrow> uri res" where
  "build_upstream_uri_from_template X t req_uri =
     (let path_and_query = (case x_uri_path_and_query X req_uri of Some pq \<Rightarrow> pq | None \<Rightarrow> ''/'')
      in res_bind (merged_path t path_and_query) (\<lambda>p.
           case x_parse_uri X (ut_origin t @ p) of
             Some u \<Rightarrow> Inr u
           | None \<Rightarrow> Inl (''invalid upstream URI: '' @ ut_origin t @ p)))"

definition upstream_uri_for_rule :: "ext \<Rightarrow> proxy_rule \<Rightarrow> uri \<Rightarrow> uri res \<times> proxy_rule" where
  "upstream_uri_for_rule X rule req_uri =
     (let (index, b) = next_index (pr_balancer rule);
          rule' = rule\<lparr>pr_balancer := b\<rparr>
      in (if index < length (pr_uri_templates rule)
          then build_upstream_uri_from_template X (pr_uri_templates rule ! index) req_uri
          else Inl ''proxy URI template index out of range'', rule'))"

section \<open>Compilation\<close>

definition parse_proxy_target_url :: "ext \<Rightarrow> string \<Rightarrow> string \<Rightarrow> uri res" where
  "parse_proxy_target_url X url ctx =
     (case x_parse_uri X (trim url) of
        None \<Rightarrow> Inl (''invalid proxy target URL ('' @ ctx @ ''): '' @ url)
      | Some target \<Rightarrow>
          if uri_scheme target = None then Inl (''proxy target must include a scheme ('' @ ctx @ ''): '' @ url)
          else if uri_authority target = None then Inl (''proxy target must include a host ('' @ ctx @ ''): '' @ url)
          else Inr target)"

definition has_target :: "proxy_def \<Rightarrow> bool" where
  "has_target e = (case pd_target e of Some t \<Rightarrow> trim t \<noteq> [] | None \<Rightarrow> False)"

definition has_targets :: "proxy_def \<Rightarrow> bool" where
  "has_targets e = (case pd_targets e of Some ts \<Rightarrow> ts \<noteq> [] | None \<Rightarrow> False)"

definition compile_proxy_targets :: "ext \<Rightarrow> proxy_def \<Rightarrow> uri list res" where
  "compile_proxy_targets X e =
     (case (has_target e, has_targets e) of
        (True, True) \<Rightarrow> Inl (''proxy rule '' @ pd_source e @ '' must use either target or targets, not both'')
      | (False, False) \<Rightarrow> Inl (''proxy rule '' @ pd_source e @ '' must define target or targets'')
      | (True, False) \<Rightarrow>
          res_bind (parse_proxy_target_url X (the (pd_target e)) (pd_source e)) (\<lambda>u. Inr [u])
      | (False, True) \<Rightarrow>
          collect_res (\<lambda>(i, url). parse_proxy_target_url X url (pd_source e @ ''#'' @ show_nat i))
            (zip [0..<length (the (pd_targets e))] (the (pd_targets e))))"

definition compile_proxy_rule :: "ext \<Rightarrow> proxy_def \<Rightarrow> proxy_rule res" where
  "compile_proxy_rule X e =
     (if \<not> x_glob_valid X (pd_source e)
      then Inl (''can not compile glob pattern for proxy source: '' @ pd_source e)
      else if (case pd_strip_prefix e of Some p \<Rightarrow> \<not> prefix ''/'' p | None \<Rightarrow> False)
      then Inl (''proxy strip-prefix must start with a slash'')
      else
        res_bind (compile_proxy_targets X e) (\<lambda>upstreams.
        res_bind (collect_res (\<lambda>u. upstream_uri_template u (pd_strip_prefix e)) upstreams) (\<lambda>templates.
        res_bind (proxy_balancer_new (pd_name e) upstreams) (\<lambda>balancer.
        Inr \<lparr>pr_host = pd_host e, pr_source = pd_source e, pr_balancer = balancer,
             pr_strip_prefix = pd_strip_prefix e, pr_uri_templates = templates\<rparr>))))"

definition compile_proxy_rules :: "ext \<Rightarrow> proxy_def list \<Rightarrow> proxy_rule list res" where
  "compile_proxy_rules X entries = collect_res (compile_proxy_rule X) entries"

section \<open>Resolving the rules at start\<close>

definition resolve_rules ::
  "ext \<Rightarrow> boot_env \<Rightarrow> string \<Rightarrow> string \<Rightarrow> advanced option \<Rightarrow> files \<Rightarrow> advanced option res \<times> files" where
  "resolve_rules X E partial version advanced fs =
     (case advanced of
        None \<Rightarrow> (Inr None, fs)
      | Some adv \<Rightarrow>
          if ad_proxies adv \<noteq> None then (Inr (Some adv), fs)
          else
            (let defs = (case ad_proxy_defs adv of Some ds \<Rightarrow> ds | None \<Rightarrow> []);
                 (remote, fs') =
                   (case ad_routes_bootstrap adv of
                      None \<Rightarrow> (Inr None, fs)
                    | Some bootstrap \<Rightarrow>
                        fetch_routes_defs X E partial bootstrap version (ps_tls (ad_proxy_settings adv)) fs)
             in (res_bind remote (\<lambda>r.
                   let all_defs = defs @ (case r of Some rs \<Rightarrow> rs | None \<Rightarrow> [])
                   in if all_defs = [] then Inr (Some adv)
                      else res_bind (compile_proxy_rules X (sort_proxy_defs_by_specificity all_defs)) (\<lambda>rules.
                             Inr (Some (adv\<lparr>ad_proxies := Some rules\<rparr>)))), fs')))"

section \<open>Headers of the upstream request\<close>

definition is_hop_by_hop_header :: "string \<Rightarrow> bool" where
  "is_hop_by_hop_header name =
     (name \<in> set [''connection'', ''keep-alive'', ''proxy-authenticate'', ''proxy-authorization'', ''te'',
        ''trailers'', ''transfer-encoding'', ''upgrade'', ''proxy-connection''])"

definition copy_forwardable_headers :: "headers \<Rightarrow> headers \<Rightarrow> headers" where
  "copy_forwardable_headers src dst =
     fold (\<lambda>(n, v) h. if is_hop_by_hop_header n \<or> n = ''host'' then h else hinsert n v h) src dst"

definition copy_upgrade_request_headers :: "headers \<Rightarrow> headers \<Rightarrow> headers" where
  "copy_upgrade_request_headers src dst =
     fold (\<lambda>(n, v) h. if n = ''host'' then h else hinsert n v h) src dst"

definition set_upstream_host :: "ext \<Rightarrow> uri \<Rightarrow> headers \<Rightarrow> headers res" where
  "set_upstream_host X upstream_uri h =
     (case uri_authority upstream_uri of
        None \<Rightarrow> Inl ''upstream URI has no authority''
      | Some authority \<Rightarrow>
          (case x_header_value X authority of
             Some v \<Rightarrow> Inr (hinsert ''host'' v h)
           | None \<Rightarrow> Inl (''invalid upstream Host header value: '' @ authority)))"

definition forwarded_proto :: "ext \<Rightarrow> request \<Rightarrow> string" where
  "forwarded_proto X req =
     (case hget ''x-forwarded-proto'' (rq_headers req) of
        Some v \<Rightarrow> v
      | None \<Rightarrow> (case Option.bind (uri_scheme (rq_uri req)) (x_header_value X) of Some v \<Rightarrow> v | None \<Rightarrow> ''http''))"

definition append_forwarded_headers :: "ext \<Rightarrow> request \<Rightarrow> peer option \<Rightarrow> headers \<Rightarrow> headers" where
  "append_forwarded_headers X req remote h =
     (let h1 = (case remote of
                  Some p \<Rightarrow> (case x_header_value X (peer_ip p) of
                               Some v \<Rightarrow> hinsert ''x-forwarded-for'' v h | None \<Rightarrow> h)
                | None \<Rightarrow> (case hget ''x-forwarded-for'' (rq_headers req) of
                             Some v \<Rightarrow> hinsert ''x-forwarded-for'' v h | None \<Rightarrow> h));
          h2 = hinsert ''x-forwarded-proto'' (forwarded_proto X req) h1
      in case hget ''host'' (rq_headers req) of
           Some v \<Rightarrow> hinsert ''x-forwarded-host'' v h2 | None \<Rightarrow> h2)"

definition hop_by_hop_request_names :: "string list" where
  "hop_by_hop_request_names = [''connection'', ''proxy-authorization'', ''te'', ''trailer'', ''transfer-encoding'',
     ''upgrade'', ''keep-alive'', ''proxy-authenticate'', ''proxy-connection'']"

definition remove_hop_by_hop_request_headers :: "headers \<Rightarrow> headers" where
  "remove_hop_by_hop_request_headers h = fold hremove hop_by_hop_request_names h"

definition remove_hop_by_hop_response_headers :: "headers \<Rightarrow> headers" where
  "remove_hop_by_hop_response_headers h = remove_hop_by_hop_request_headers h"

definition preserve_streaming_response_headers :: "headers \<Rightarrow> headers" where
  "preserve_streaming_response_headers h =
     fold hremove [''proxy-authorization'', ''proxy-authenticate'', ''proxy-connection''] h"

section \<open>Matching and forwarding\<close>

definition connection_header_has_token :: "ext \<Rightarrow> headers \<Rightarrow> string \<Rightarrow> bool" where
  "connection_header_has_token X h token =
     (case Option.bind (hget ''connection'' h) (x_header_str X) of
        None \<Rightarrow> False
      | Some v \<Rightarrow> list_ex (\<lambda>part. eq_ignore_ascii_case (trim part) token) (split_on (CHR '','') v))"

definition is_protocol_upgrade :: "ext \<Rightarrow> request \<Rightarrow> bool" where
  "is_protocol_upgrade X req =
     (if \<not> hcontains ''upgrade'' (rq_headers req) then False
      else connection_header_has_token X (rq_headers req) ''upgrade'')"

definition is_streaming_request :: "ext \<Rightarrow> request \<Rightarrow> bool" where
  "is_streaming_request X req =
     (case Option.bind (hget ''accept'' (rq_headers req)) (x_header_str X) of
        None \<Rightarrow> False
      | Some accept \<Rightarrow> str_contains ''text/event-stream'' (to_ascii_lowercase accept))"

definition proxy_request_host :: "ext \<Rightarrow> request \<Rightarrow> string option" where
  "proxy_request_host X req =
     (case uri_authority (rq_uri req) of
        Some _ \<Rightarrow> uri_host (rq_uri req)
      | None \<Rightarrow> map_option header_host (Option.bind (hget ''host'' (rq_headers req)) (x_header_str X)))"

definition proxy_rule_hits :: "ext \<Rightarrow> string \<Rightarrow> string \<Rightarrow> proxy_rule \<Rightarrow> bool" where
  "proxy_rule_hits X host upath rule =
     ((case pr_host rule of Some h \<Rightarrow> h = host | None \<Rightarrow> True) \<and> x_glob_match X (pr_source rule) upath)"

text \<open>The search for a rule, with its position, so that its balancer can be put back.\<close>

fun find_rule_loop :: "ext \<Rightarrow> string \<Rightarrow> string \<Rightarrow> nat \<Rightarrow> proxy_rule list \<Rightarrow> (nat \<times> proxy_rule) option" where
  "find_rule_loop X host upath i [] = None"
| "find_rule_loop X host upath i (rule # rules) =
     (if (case pr_host rule of Some h \<Rightarrow> h \<noteq> host | None \<Rightarrow> False)
      then find_rule_loop X host upath (Suc i) rules
      else if x_glob_match X (pr_source rule) upath then Some (i, rule)
      else find_rule_loop X host upath (Suc i) rules)"

definition find_rule :: "ext \<Rightarrow> handler_opts \<Rightarrow> request \<Rightarrow> (nat \<times> proxy_rule) option" where
  "find_rule X opts req =
     (case Option.bind (advanced_opts opts) ad_proxies of
        None \<Rightarrow> None
      | Some proxies \<Rightarrow>
          (case proxy_request_host X req of
             None \<Rightarrow> None
           | Some host \<Rightarrow> find_rule_loop X host (uri_path (rq_uri req)) 0 proxies))"

text \<open>
  \<open>up\<close> is what the client returns for an upstream request. The body of the request is taken.
\<close>

definition forward_http ::
  "ext \<Rightarrow> (request \<Rightarrow> response res) \<Rightarrow> proxy_rule \<Rightarrow> request \<Rightarrow> peer option
   \<Rightarrow> response res \<times> request \<times> proxy_rule" where
  "forward_http X up rule req remote =
     (case upstream_uri_for_rule X rule (rq_uri req) of
        (Inl e, rule') \<Rightarrow> (Inl e, req, rule')
      | (Inr upstream_uri, rule') \<Rightarrow>
          (let req' = req\<lparr>rq_body := Empty_Body\<rparr>
           in case set_upstream_host X upstream_uri (copy_forwardable_headers (rq_headers req) []) of
                Inl e \<Rightarrow> (Inl e, req', rule')
              | Inr h \<Rightarrow>
                  (let upstream_req =
                         \<lparr>rq_method = rq_method req, rq_uri = upstream_uri,
                          rq_headers = remove_hop_by_hop_request_headers (append_forwarded_headers X req remote h),
                          rq_body = rq_body req\<rparr>
                   in case up upstream_req of
                        Inl e \<Rightarrow> (Inl (''proxy request failed for upstream'' @ e), req', rule')
                      | Inr resp \<Rightarrow>
                          (Inr (resp\<lparr>rs_headers :=
                             if is_streaming_request X req then preserve_streaming_response_headers (rs_headers resp)
                             else remove_hop_by_hop_response_headers (rs_headers resp)\<rparr>), req', rule'))))"

text \<open>The last component tells whether a tunnel was started, which keeps the permit until it ends.\<close>

definition forward_upgrade_inner ::
  "ext \<Rightarrow> (request \<Rightarrow> response res) \<Rightarrow> proxy_rule \<Rightarrow> request \<Rightarrow> peer option
   \<Rightarrow> response res \<times> request \<times> proxy_rule \<times> bool" where
  "forward_upgrade_inner X up rule req remote =
     (case upstream_uri_for_rule X rule (rq_uri req) of
        (Inl e, rule') \<Rightarrow> (Inl e, req, rule', False)
      | (Inr upstream_uri, rule') \<Rightarrow>
          (let req' = req\<lparr>rq_body := Empty_Body\<rparr>
           in case set_upstream_host X upstream_uri (copy_upgrade_request_headers (rq_headers req) []) of
                Inl e \<Rightarrow> (Inl e, req', rule', False)
              | Inr h \<Rightarrow>
                  (let upstream_req =
                         \<lparr>rq_method = rq_method req, rq_uri = upstream_uri,
                          rq_headers = append_forwarded_headers X req remote h, rq_body = rq_body req\<rparr>
                   in case up upstream_req of
                        Inl e \<Rightarrow> (Inl (''proxy upgrade request failed for upstream'' @ e), req', rule', False)
                      | Inr resp \<Rightarrow>
                          if rs_status resp \<noteq> 101 then (Inr resp, req', rule', False)
                          else (Inr (resp\<lparr>rs_body := Empty_Body\<rparr>), req', rule', True))))"

text \<open>
  \<open>try_acquire_owned\<close> on the semaphore, if there is one, and what becomes of the permit when the request
  is answered: a tunnel keeps it, otherwise it is dropped.
\<close>

definition acquire_permit :: "nat option \<Rightarrow> nat option option" where
  "acquire_permit permits =
     (case permits of None \<Rightarrow> Some None | Some 0 \<Rightarrow> None | Some (Suc n) \<Rightarrow> Some (Some n))"

definition settle_permit :: "bool \<Rightarrow> nat option \<Rightarrow> nat option" where
  "settle_permit tunnel permits = (if tunnel then permits else map_option Suc permits)"

text \<open>The permits left, and whether this request started a tunnel that holds one.\<close>

definition forward_upgrade ::
  "ext \<Rightarrow> (request \<Rightarrow> response res) \<Rightarrow> nat option \<Rightarrow> proxy_rule \<Rightarrow> request \<Rightarrow> peer option
   \<Rightarrow> response res \<times> request \<times> proxy_rule \<times> nat option \<times> bool" where
  "forward_upgrade X up permits rule req remote =
     (case acquire_permit permits of
        None \<Rightarrow> (Inr ((response_new Empty_Body)\<lparr>rs_status := 503\<rparr>), req, rule, permits, False)
      | Some left \<Rightarrow>
          (case forward_upgrade_inner X up rule req remote of
             (r, req', rule', tunnel) \<Rightarrow> (r, req', rule', settle_permit tunnel left, tunnel)))"

text \<open>
  The task of a tunnel: the two upgrades are awaited together (\<open>handshake\<close>), then the bytes are copied
  both ways until a side ends or fails; in every case the permit goes back when the task ends. The
  result is what is logged.
\<close>

definition tunnel_upgrades :: "unit res \<Rightarrow> (nat \<times> nat) res \<Rightarrow> string \<Rightarrow> unit res" where
  "tunnel_upgrades handshake copied upgrade_kind =
     (case handshake of
        Inl e \<Rightarrow> Inl (''failed to complete protocol upgrade handshake ('' @ upgrade_kind @ '')'')
      | Inr _ \<Rightarrow> (case copied of Inr (client_bytes, server_bytes) \<Rightarrow> Inr () | Inl e \<Rightarrow> Inr ()))"

definition tunnel_task :: "unit res \<Rightarrow> (nat \<times> nat) res \<Rightarrow> string \<Rightarrow> nat option \<Rightarrow> unit res \<times> nat option" where
  "tunnel_task handshake copied upgrade_kind permits =
     (tunnel_upgrades handshake copied upgrade_kind, map_option Suc permits)"

definition put_rule :: "nat \<Rightarrow> proxy_rule \<Rightarrow> handler_opts \<Rightarrow> handler_opts" where
  "put_rule i rule opts =
     opts\<lparr>advanced_opts := map_option (\<lambda>a. a\<lparr>ad_proxies := map_option (\<lambda>rs. rs[i := rule]) (ad_proxies a)\<rparr>)
                            (advanced_opts opts)\<rparr>"

text \<open>
  The answer, if a rule matches, with the request and the options after the call: the counter of the
  rule has moved and a tunnel holds its permit.
\<close>

definition proxy_pre_process ::
  "ext \<Rightarrow> (request \<Rightarrow> response res) \<Rightarrow> handler_opts \<Rightarrow> request \<Rightarrow> peer option
   \<Rightarrow> response res option \<times> request \<times> handler_opts" where
  "proxy_pre_process X up opts req remote =
     (case find_rule X opts req of
        None \<Rightarrow> (None, req, opts)
      | Some (i, rule) \<Rightarrow>
          if \<not> has_proxy_client opts then (None, req, opts)
          else if is_protocol_upgrade X req
          then (case forward_upgrade X up (upgrade_tunnel_semaphore opts) rule req remote of
                  (r, req', rule', permits, tunnel) \<Rightarrow>
                    (Some r, req', (put_rule i rule' opts)\<lparr>upgrade_tunnel_semaphore := permits\<rparr>))
          else (case forward_http X up rule req remote of
                  (r, req', rule') \<Rightarrow> (Some r, req', put_rule i rule' opts)))"

section \<open>The client\<close>

record client_env =
  ce_pem_certs :: "string \<Rightarrow> string list option"
    \<comment> \<open>\<open>rustls_pemfile::certs\<close>\<close>
  ce_add_root :: "string \<Rightarrow> bool"
    \<comment> \<open>\<open>RootCertStore::add\<close> accepts the certificate\<close>
  ce_webpki_roots :: "string list"

datatype trust_roots = Webpki_Roots | Root_Store "string list"

fun add_roots :: "client_env \<Rightarrow> string list \<Rightarrow> string list \<Rightarrow> string list res" where
  "add_roots C [] roots = Inr roots"
| "add_roots C (der # ders) roots =
     (if ce_add_root C der then add_roots C ders (roots @ [der]) else Inl ''bad certificate'')"

definition load_pem_ca_file :: "client_env \<Rightarrow> fs \<Rightarrow> path \<Rightarrow> string list \<Rightarrow> string list res" where
  "load_pem_ca_file C F p roots =
     (case fs_open F p of
        Inl _ \<Rightarrow> Inl (''proxy-tls: cannot open CA file '' @ p)
      | Inr _ \<Rightarrow>
          (case Option.bind (fs_read F p) (ce_pem_certs C) of
             None \<Rightarrow> Inl (''proxy-tls: cannot read PEM from CA file '' @ p)
           | Some ders \<Rightarrow>
               if ders = [] then Inl (''proxy-tls: no certificates found in CA file '' @ p)
               else add_roots C ders roots))"

fun load_ca_files :: "client_env \<Rightarrow> fs \<Rightarrow> path list \<Rightarrow> string list \<Rightarrow> string list res" where
  "load_ca_files C F [] roots = Inr roots"
| "load_ca_files C F (p # ps) roots = res_bind (load_pem_ca_file C F p roots) (load_ca_files C F ps)"

definition load_root_cert_store :: "client_env \<Rightarrow> fs \<Rightarrow> proxy_tls_settings \<Rightarrow> string list res" where
  "load_root_cert_store C F tls =
     (let roots0 = (if pt_use_webpki_roots tls then ce_webpki_roots C else [])
      in res_bind (load_ca_files C F (pt_ca_files tls) roots0) (\<lambda>roots.
           if roots = [] then Inl ''proxy-tls: no trust anchors loaded'' else Inr roots))"

definition build_https_connector :: "client_env \<Rightarrow> fs \<Rightarrow> proxy_tls_settings \<Rightarrow> trust_roots res" where
  "build_https_connector C F tls =
     (if pt_ca_files tls = [] then Inr Webpki_Roots
      else res_bind (load_root_cert_store C F tls) (\<lambda>roots. Inr (Root_Store roots)))"

record proxy_client =
  pc_pool_max_idle :: nat
  pc_pool_idle_timeout :: nat
  pc_keepalive :: nat
  pc_roots :: trust_roots

definition build_proxy_client :: "client_env \<Rightarrow> fs \<Rightarrow> proxy_settings \<Rightarrow> proxy_client res" where
  "build_proxy_client C F settings =
     res_bind (build_https_connector C F (ps_tls settings)) (\<lambda>roots.
       Inr \<lparr>pc_pool_max_idle = ps_pool_max_idle_per_host settings,
            pc_pool_idle_timeout = ps_pool_idle_timeout_secs settings,
            pc_keepalive = ps_pool_idle_timeout_secs settings, pc_roots = roots\<rparr>)"

definition proxy_init :: "client_env \<Rightarrow> fs \<Rightarrow> handler_opts \<Rightarrow> handler_opts res" where
  "proxy_init C F opts =
     (case Option.bind (advanced_opts opts) ad_proxies of
        None \<Rightarrow> Inr opts
      | Some rules \<Rightarrow>
          if rules = [] then Inr opts
          else
            (let settings = (case advanced_opts opts of Some a \<Rightarrow> ad_proxy_settings a | None \<Rightarrow> proxy_settings_default)
             in res_bind (build_proxy_client C F settings) (\<lambda>client.
                  Inr (opts\<lparr>has_proxy_client := True, proxy_settings_opt := Some settings,
                            proxy_first := ps_proxy_first settings,
                            upgrade_tunnel_semaphore := ps_max_upgrade_tunnels settings\<rparr>))))"

section \<open>Interpretations\<close>

interpretation specificity: comparison more_specific
  by unfold_locales (auto simp: more_specific_def)

lemma find_rule_loop_snd:
  "map_option snd (find_rule_loop X host upath i rules) = find (proxy_rule_hits X host upath) rules"
  by (induction rules arbitrary: i) (auto simp: proxy_rule_hits_def split: option.splits)

lemma find_rule_loop_position:
  "case find_rule_loop X host upath k rs of
      None \<Rightarrow> \<forall>r \<in> set rs. \<not> proxy_rule_hits X host upath r
    | Some (i, r) \<Rightarrow> k \<le> i \<and> i - k < length rs \<and> rs ! (i - k) = r \<and> proxy_rule_hits X host upath r \<and>
        (\<forall>j < i - k. \<not> proxy_rule_hits X host upath (rs ! j))"
proof (induction rs arbitrary: k)
  case (Cons r rs)
  show ?case
  proof (cases "proxy_rule_hits X host upath r")
    case True
    then have "find_rule_loop X host upath k (r # rs) = Some (k, r)"
      by (auto simp: proxy_rule_hits_def split: option.splits)
    with True show ?thesis by simp
  next
    case False
    then have "find_rule_loop X host upath k (r # rs) = find_rule_loop X host upath (Suc k) rs"
      by (auto simp: proxy_rule_hits_def split: option.splits)
    note step = this
    show ?thesis
    proof (cases "find_rule_loop X host upath (Suc k) rs")
      case None
      with Cons.IH [of "Suc k"] False step show ?thesis by (simp del: find_rule_loop.simps)
    next
      case (Some q)
      obtain i r' where q: "q = (i, r')" by fastforce
      with Cons.IH [of "Suc k"] Some obtain m where m: "i = Suc k + m" "m < length rs" "rs ! m = r'"
        "proxy_rule_hits X host upath r'" "\<forall>j < m. \<not> proxy_rule_hits X host upath (rs ! j)"
        by (auto simp: le_iff_add)
      then have "i - k = Suc m" by simp
      with m False Some q step show ?thesis
        by (simp add: less_Suc_eq_0_disj del: find_rule_loop.simps) auto
    qed
  qed
qed simp

interpretation proxies: first_match "proxy_rule_hits X host upath"
    "\<lambda>rs. map_option snd (find_rule_loop X host upath 0 rs)" for X host upath
  by unfold_locales (simp_all only: find_rule_loop_snd find.simps)

section \<open>Compiled rules\<close>

text \<open>A rule whose balancer and templates fit together, whatever its counter.\<close>

definition rule_wf :: "proxy_rule \<Rightarrow> bool" where
  "rule_wf r = (0 < balancer_len (pr_balancer r) \<and> length (pr_uri_templates r) = balancer_len (pr_balancer r) \<and>
     list_all2 (\<lambda>u t. upstream_uri_template u (pr_strip_prefix r) = Inr t)
       (pb_targets (pr_balancer r)) (pr_uri_templates r))"

lemma collect_res_all2: "collect_res f xs = Inr ys \<Longrightarrow> list_all2 (\<lambda>x y. f x = Inr y) xs ys"
  by (induction xs arbitrary: ys) (auto simp: res_bind_Inr_iff)

lemma compile_proxy_rule_Inr:
  "compile_proxy_rule X e = Inr r \<Longrightarrow>
   pr_host r = pd_host e \<and> pr_source r = pd_source e \<and> pb_next (pr_balancer r) = 0 \<and> rule_wf r"
proof -
  assume "compile_proxy_rule X e = Inr r"
  then obtain ups ts where c: "collect_res (\<lambda>u. upstream_uri_template u (pd_strip_prefix e)) ups = Inr ts" "ups \<noteq> []"
    "r = \<lparr>pr_host = pd_host e, pr_source = pd_source e, pr_balancer = \<lparr>pb_name = pd_name e, pb_targets = ups, pb_next = 0\<rparr>,
             pr_strip_prefix = pd_strip_prefix e, pr_uri_templates = ts\<rparr>"
    by (auto simp: compile_proxy_rule_def res_bind_Inr_iff proxy_balancer_new_def split: if_splits)
  with collect_res_all2 [OF c(1)] collect_res_length [OF c(1)] show ?thesis
    by (simp add: rule_wf_def balancer_len_def)
qed

lemma compile_proxy_rules_all2:
  "compile_proxy_rules X ds = Inr rs \<Longrightarrow>
   list_all2 (\<lambda>d r. pr_host r = pd_host d \<and> pr_source r = pd_source d \<and> rule_wf r) ds rs"
  unfolding compile_proxy_rules_def
  by (drule collect_res_all2, erule list_all2_mono) (use compile_proxy_rule_Inr in blast)

text \<open>A compiled rule always finds the template of the target it draws: whatever the counter of its balancer
  has reached, the upstream of a request is built from the template of the target number counter
  modulo the number of targets, so the error of an index out of range is unreachable, and the counter
  moves by one.\<close>

theorem compiled_rule_template_in_range:
  assumes "compile_proxy_rules X ds = Inr rules" "rule \<in> set rules" "pr_balancer rule' = (pr_balancer rule)\<lparr>pb_next := c\<rparr>"
    and "pr_uri_templates rule' = pr_uri_templates rule"
  shows "\<exists>i u t. i = unat c mod balancer_len (pr_balancer rule) \<and> i < length (pr_uri_templates rule) \<and>
    u = pb_targets (pr_balancer rule) ! i \<and> t = pr_uri_templates rule ! i \<and>
    upstream_uri_template u (pr_strip_prefix rule) = Inr t \<and>
    upstream_uri_for_rule X rule' q =
      (build_upstream_uri_from_template X t q, rule'\<lparr>pr_balancer := (pr_balancer rule)\<lparr>pb_next := c + 1\<rparr>\<rparr>)"
proof -
  from compile_proxy_rules_all2 [OF assms(1)] assms(2) have wf: "rule_wf rule"
    by (auto simp: list_all2_conv_all_nth in_set_conv_nth)
  define n where "n = balancer_len (pr_balancer rule)"
  from wf have n: "unat c mod n < n" "length (pr_uri_templates rule) = n" "length (pb_targets (pr_balancer rule)) = n"
    by (auto simp: rule_wf_def n_def balancer_len_def)
  from wf have "upstream_uri_template (pb_targets (pr_balancer rule) ! (unat c mod n)) (pr_strip_prefix rule)
      = Inr (pr_uri_templates rule ! (unat c mod n))"
    using n by (auto simp: rule_wf_def list_all2_conv_all_nth)
  with n assms(3,4) show ?thesis
    by (simp add: upstream_uri_for_rule_def next_index_def n_def)
qed

section \<open>The rule that is found\<close>

lemma specificity_le:
  "specificity_key a \<le> specificity_key b \<longleftrightarrow>
   length a < length b \<or> length a = length b \<and> count_list a (CHR ''*'') \<le> count_list b (CHR ''*'')"
proof -
  have "(\<lambda>c. c = CHR ''*'') = (=) (CHR ''*'')" by auto
  then show ?thesis by (auto simp: specificity_key_def count_list_eq_length_filter)
qed

text \<open>C27. The rule that handles a request is the first of those that match in the order of the code: among all the
  rules of the configuration and of the control plane whose host and pattern match, none has a longer
  pattern than the rule that is found, and none of the same length has more wildcards; no rule is found only
  when none matches. So of two patterns of one length the one with more wildcards wins, where the
  comment in the source and the documentation promise the one with fewer.\<close>

theorem longest_rule_then_more_wildcards:
  assumes "compile_proxy_rules X (sort_proxy_defs_by_specificity defs) = Inr rules"
  shows "case find_rule_loop X host upath 0 rules of
      None \<Rightarrow> list_all (\<lambda>d. \<not> ((case pd_host d of Some h \<Rightarrow> h = host | None \<Rightarrow> True) \<and> x_glob_match X (pd_source d) upath)) defs
    | Some (i, r) \<Rightarrow> i < length rules \<and> rules ! i = r \<and> proxy_rule_hits X host upath r \<and>
        list_all (\<lambda>d. length (pd_source d) < length (pr_source r) \<or>
            length (pd_source d) = length (pr_source r) \<and>
            count_list (pd_source d) (CHR ''*'') \<le> count_list (pr_source r) (CHR ''*''))
          (filter (\<lambda>d. (case pd_host d of Some h \<Rightarrow> h = host | None \<Rightarrow> True) \<and> x_glob_match X (pd_source d) upath) defs)"
proof -
  let ?ds = "sort_proxy_defs_by_specificity defs"
  let ?P = "\<lambda>d. (case pd_host d of Some h \<Rightarrow> h = host | None \<Rightarrow> True) \<and> x_glob_match X (pd_source d) upath"
  note all2 = compile_proxy_rules_all2 [OF assms]
  have set: "set ?ds = set defs" by (simp add: sort_proxy_defs_by_specificity_def)
  have sorted: "sorted_wrt more_specific ?ds"
    by (simp add: sort_proxy_defs_by_specificity_def specificity.sorted)
  have hits: "proxy_rule_hits X host upath (rules ! j) \<longleftrightarrow> ?P (?ds ! j)" "pr_source (rules ! j) = pd_source (?ds ! j)"
    if "j < length ?ds" for j
    using all2 that by (auto simp: list_all2_conv_all_nth proxy_rule_hits_def)
  have len: "length rules = length ?ds" using all2 by (simp add: list_all2_lengthD)
  note loop = find_rule_loop_position [where X = X and host = host and upath = upath and k = 0 and rs = rules]
  show ?thesis
  proof (cases "find_rule_loop X host upath 0 rules")
    case None
    with loop have "\<forall>j < length ?ds. \<not> ?P (?ds ! j)" using hits len by (simp add: all_set_conv_all_nth)
    then have "\<forall>d \<in> set defs. \<not> ?P d" unfolding set [symmetric] all_set_conv_all_nth .
    with None show ?thesis by (simp add: list_all_iff)
  next
    case (Some q)
    obtain i r where q: "q = (i, r)" by fastforce
    from loop Some q have i: "i < length rules" "rules ! i = r" "proxy_rule_hits X host upath r"
      "\<forall>j < i. \<not> proxy_rule_hits X host upath (rules ! j)" by auto
    have "specificity_key (pd_source d) \<le> specificity_key (pr_source r)" if "d \<in> set defs" "?P d" for d
    proof -
      from that(1) obtain j where j: "j < length ?ds" "?ds ! j = d" unfolding set [symmetric] by (auto simp: in_set_conv_nth)
      with hits(1) [OF j(1)] that(2) i(4) have "i \<le> j" using not_less by metis
      have "i = j \<or> more_specific (?ds ! i) (?ds ! j)"
      proof (cases "i = j")
        case False
        with \<open>i \<le> j\<close> have "i < j" by simp
        from sorted_wrt_nth_less [OF sorted this j(1)] show ?thesis ..
      qed simp
      with i len j hits(2) [of i] show ?thesis by (auto simp: more_specific_def)
    qed
    with i Some q show ?thesis by (auto simp: list_all_iff specificity_le [symmetric])
  qed
qed

section \<open>Round robin\<close>

fun draw :: "nat \<Rightarrow> proxy_balancer \<Rightarrow> nat list \<times> proxy_balancer" where
  "draw 0 b = ([], b)"
| "draw (Suc k) b = (let (i, b1) = next_index b; (is, b2) = draw k b1 in (i # is, b2))"

lemma draw_indices:
  "unat (pb_next b) + k \<le> 2 ^ 64 \<Longrightarrow>
   fst (draw k b) = map (\<lambda>j. j mod length (pb_targets b)) [unat (pb_next b)..<unat (pb_next b) + k]"
proof (induction k arbitrary: b)
  case (Suc k)
  let ?c = "unat (pb_next b)"
  show ?case
  proof (cases "k = 0")
    case False
    with Suc.prems have "?c + 1 < 2 ^ 64" by simp
    then have c: "unat (pb_next b + 1) = ?c + 1" by (simp add: unat_word_ariths)
    with Suc.IH [of "b\<lparr>pb_next := pb_next b + 1\<rparr>"] Suc.prems
    have "fst (draw k (b\<lparr>pb_next := pb_next b + 1\<rparr>)) = map (\<lambda>j. j mod length (pb_targets b)) [?c + 1..<?c + 1 + k]"
      by simp
    moreover have "[?c..<?c + Suc k] = ?c # [?c + 1..<?c + 1 + k]" by (simp add: upt_conv_Cons del: upt_Suc)
    ultimately show ?thesis by (simp add: next_index_def case_prod_unfold Let_def del: upt_Suc)
  qed (simp add: next_index_def)
qed simp

lemma mset_window_mod: "mset (map (\<lambda>j. j mod n) [c..<c + n]) = mset [0..<n]"
proof (induction c)
  case 0
  have "map (\<lambda>j. j mod n) [0..<n] = [0..<n]" by (rule map_idI) simp
  then show ?case by simp
next
  case (Suc c)
  show ?case
  proof (cases "n = 0")
    case False
    have "[c..<c + n] = c # [Suc c..<c + n]" using False by (simp add: upt_conv_Cons)
    moreover have "[Suc c..<Suc c + n] = [Suc c..<c + n] @ [c + n]" using False by simp
    ultimately have "add_mset (c mod n) (mset (map (\<lambda>j. j mod n) [Suc c..<Suc c + n]))
        = add_mset ((c + n) mod n) (mset (map (\<lambda>j. j mod n) [c..<c + n]))"
      by (simp only: map_append mset_append list.map mset.simps) simp
    with Suc.IH show ?thesis by simp
  qed simp
qed

text \<open>C28. The balancer is fair: as many consecutive draws as there are targets, in whatever interleaving of
  requests they happen, give every target exactly once, as long as the 64-bit counter does not wrap within
  them; and a draw never leaves the range of the targets.\<close>

theorem round_robin_fair:
  assumes "pb_targets b \<noteq> []" "unat (pb_next b) + length (pb_targets b) \<le> 2 ^ 64"
  shows "mset (fst (draw (length (pb_targets b)) b)) = mset [0..<length (pb_targets b)] \<and>
    fst (next_index b) < length (pb_targets b) \<and> fst (balancer_next b) \<in> set (pb_targets b)"
  using assms draw_indices [OF assms(2)] mset_window_mod [of "length (pb_targets b)" "unat (pb_next b)"]
  by (simp add: next_index_def balancer_next_def)

definition demo_balancer :: "u64 \<Rightarrow> proxy_balancer" where
  "demo_balancer c = \<lparr>pb_name = None, pb_targets = [demo_uri ''a'', demo_uri ''b'', demo_uri ''c''], pb_next = c\<rparr>"

theorem round_robin_fair_witness:
  "mset (fst (draw 3 (demo_balancer 7))) = {#0, 1, 2#}"
proof -
  have l: "length (pb_targets (demo_balancer 7)) = 3" "pb_targets (demo_balancer 7) \<noteq> []"
    "unat (pb_next (demo_balancer 7)) = 7" by (simp_all add: demo_balancer_def)
  have "[0..<3] = [0, 1, 2]" by (simp add: upt_rec)
  with round_robin_fair [of "demo_balancer 7"] l show ?thesis by simp
qed

text \<open>At the wrap of the counter the rotation breaks when the number of targets does not divide two to the
  64: with three targets the first one is drawn twice in a row.\<close>

theorem round_robin_wrap:
  "fst (draw 2 (demo_balancer (- 1))) = [0, 0]"
proof -
  have "unat (- 1 :: u64) = 2 ^ 64 - 1"
    by (simp only: unsigned_minus_1_eq_mask mask_eq_exp_minus_1 len_of_numeral_defs) simp
  also have "\<dots> = 18446744073709551615" by simp
  finally have "unat (- 1 :: u64) = 18446744073709551615" .
  then have "next_index (demo_balancer (- 1)) = (0, demo_balancer 0)"
    unfolding next_index_def demo_balancer_def by (simp only: proxy_balancer.simps list.size) simp
  moreover have "fst (next_index (demo_balancer 0)) = 0" by (simp add: next_index_def demo_balancer_def)
  ultimately show ?thesis by (simp add: numeral_2_eq_2 case_prod_unfold Let_def)
qed

section \<open>Paths of the upstream\<close>

text \<open>Stripping a prefix: what is left of the path and query after the prefix must be empty, which becomes
  a slash, or start with a slash; so a request whose target continues the prefix with a query, or with
  more of a name, is refused instead of forwarded. Otherwise the upstream path is the base path of
  the target without its trailing slashes followed by what is left.\<close>

theorem strip_prefix_boundary:
  assumes "ut_strip_prefix t = Some p" "pq = p @ rest"
  shows "(case merged_path t pq of
      Inl _ \<Rightarrow> rest \<noteq> [] \<and> hd rest \<noteq> CHR ''/''
    | Inr q \<Rightarrow> (rest = [] \<or> hd rest = CHR ''/'') \<and>
        q = (if ut_base_path t = ''/'' then [] else trim_end_matches (CHR ''/'') (ut_base_path t))
              @ (if rest = [] then ''/'' else rest))"
proof -
  have "prefix ''/'' rest \<longleftrightarrow> rest \<noteq> [] \<and> hd rest = CHR ''/''" by (cases rest) auto
  moreover have "trim_end_matches (CHR ''/'') [] = []" by (simp add: trim_end_matches_def)
  ultimately show ?thesis
    using assms by (auto simp: merged_path_def strip_prefix_def Let_def)
qed

theorem strip_prefix_boundary_witness:
  "\<exists>e. merged_path \<lparr>ut_origin = ''http://u'', ut_base_path = ''/'', ut_strip_prefix = Some ''/api''\<rparr>
     (''/api'' @ [CHR 0x3F] @ ''q=1'') = Inl e"
  using strip_prefix_boundary [of "\<lparr>ut_origin = ''http://u'', ut_base_path = ''/'', ut_strip_prefix = Some ''/api''\<rparr>"
      "''/api''" "''/api'' @ [CHR 0x3F] @ ''q=1''" "[CHR 0x3F] @ ''q=1''"]
  by (cases "merged_path \<lparr>ut_origin = ''http://u'', ut_base_path = ''/'', ut_strip_prefix = Some ''/api''\<rparr>
     (''/api'' @ [CHR 0x3F] @ ''q=1'')") auto

section \<open>What the upstream sees\<close>

text \<open>
  What the upstream is sent: the method and the body of the client, the authority of the target as
  host, the address of the peer as the only forwarding address, and each of the headers of the client that are \<open>kept\<close>,
  with the last of its values. A plain request keeps the end-to-end headers and has none of the
  hop-by-hop headers; a request for an upgrade keeps these too, \<open>connection\<close> and \<open>upgrade\<close> among
  them, because the upstream has to see them.
\<close>

definition forwarding_header :: "string \<Rightarrow> bool" where
  "forwarding_header n = (n \<in> set [''host'', ''x-forwarded-for'', ''x-forwarded-proto'', ''x-forwarded-host''])"

definition end_to_end :: "string \<Rightarrow> bool" where
  "end_to_end n = (\<not> is_hop_by_hop_header n \<and> n \<notin> set hop_by_hop_request_names \<and> \<not> forwarding_header n)"

definition forwarded_ok :: "(string \<Rightarrow> bool) \<Rightarrow> request \<Rightarrow> peer option \<Rightarrow> request \<Rightarrow> bool" where
  "forwarded_ok kept req remote q =
     (rq_method q = rq_method req \<and> rq_body q = rq_body req \<and>
      hget_all ''host'' (rq_headers q) = (case uri_authority (rq_uri q) of Some a \<Rightarrow> [a] | None \<Rightarrow> []) \<and>
      (case remote of Some p \<Rightarrow> hget_all ''x-forwarded-for'' (rq_headers q) = [peer_ip p] | None \<Rightarrow> True) \<and>
      list_all (\<lambda>(n, v). kept n \<longrightarrow> hget_all n (rq_headers q) = [last (hget_all n (rq_headers req))])
        (rq_headers req))"

definition upstream_request_ok :: "ext \<Rightarrow> request \<Rightarrow> peer option \<Rightarrow> request \<Rightarrow> bool" where
  "upstream_request_ok X req remote q =
     (if is_protocol_upgrade X req then forwarded_ok (\<lambda>n. \<not> forwarding_header n) req remote q
      else forwarded_ok end_to_end req remote q \<and>
        list_all (\<lambda>n. hget_all n (rq_headers q) = []) hop_by_hop_request_names)"

lemma hget_all_fold_remove:
  "hget_all k (fold hremove ns h) = (if k \<in> set ns then [] else hget_all k h)"
  by (induction ns arbitrary: h) (auto simp: hget_all_hremove)

text \<open>The copy inserts, so of a header on several lines only the last value arrives.\<close>

theorem copied_header_last_value:
  "hget_all n (copy_forwardable_headers src dst) =
     (if is_hop_by_hop_header n \<or> n = ''host'' \<or> hget_all n src = [] then hget_all n dst
      else [last (hget_all n src)])"
  unfolding copy_forwardable_headers_def
  by (induction src arbitrary: dst) (auto simp: hget_all_hinsert hget_all_simps)

lemma hget_all_append_forwarded:
  shows "hget_all ''host'' (append_forwarded_headers X req remote h) = hget_all ''host'' h"
    "remote = Some p \<Longrightarrow> x_header_value X (peer_ip p) = Some (peer_ip p) \<Longrightarrow>
     hget_all ''x-forwarded-for'' (append_forwarded_headers X req remote h) = [peer_ip p]"
  by (auto simp: append_forwarded_headers_def Let_def hget_all_hinsert split: option.split)

lemma hget_all_forwarded:
  "\<not> forwarding_header n \<Longrightarrow> hget_all n (append_forwarded_headers X req remote (hinsert ''host'' a h)) = hget_all n h"
  by (auto simp: append_forwarded_headers_def Let_def hget_all_hinsert forwarding_header_def split: option.split)

lemma copied_upgrade_last_value:
  "hget_all n (copy_upgrade_request_headers src dst) =
     (if n = ''host'' \<or> hget_all n src = [] then hget_all n dst else [last (hget_all n src)])"
  unfolding copy_upgrade_request_headers_def
  by (induction src arbitrary: dst) (auto simp: hget_all_hinsert hget_all_simps)

lemma hget_all_member: "(n, v) \<in> set h \<Longrightarrow> hget_all n h \<noteq> []"
  by (auto simp: hget_all_def filter_empty_conv)

text \<open>Both ways of forwarding send only what is expected, when the addresses can be written as header values.\<close>

lemma sent_forwarded_ok:
  assumes "\<And>s v. x_header_value X s = Some v \<Longrightarrow> v = s"
    and "case remote of Some p \<Rightarrow> x_header_value X (peer_ip p) \<noteq> None | None \<Rightarrow> True"
    and "set_upstream_host X u h0 = Inr h"
    and "\<And>n v. (n, v) \<in> set (rq_headers req) \<Longrightarrow> kept n \<Longrightarrow> hget_all n h0 = [last (hget_all n (rq_headers req))]"
    and "\<And>n. kept n \<Longrightarrow> \<not> forwarding_header n"
  shows "forwarded_ok kept req remote
    \<lparr>rq_method = rq_method req, rq_uri = u, rq_headers = append_forwarded_headers X req remote h, rq_body = rq_body req\<rparr>"
proof -
  obtain a where a: "uri_authority u = Some a" "h = hinsert ''host'' a h0"
    using assms(1,3) by (auto simp: set_upstream_host_def split: option.splits)
  have ip: "remote = Some p \<Longrightarrow> x_header_value X (peer_ip p) = Some (peer_ip p)" for p
    using assms(1,2) by fastforce
  show ?thesis
    using a ip assms(4,5) hget_all_append_forwarded
    by (auto simp: forwarded_ok_def list_all_iff hget_all_hinsert hget_all_forwarded split: option.split)
qed

lemma forward_upgrade_agrees:
  assumes "\<And>s v. x_header_value X s = Some v \<Longrightarrow> v = s"
    and "case remote of Some p \<Rightarrow> x_header_value X (peer_ip p) \<noteq> None | None \<Rightarrow> True"
    and "\<And>q. forwarded_ok (\<lambda>n. \<not> forwarding_header n) req remote q \<Longrightarrow> up q = up' q"
  shows "forward_upgrade X up permits rule req remote = forward_upgrade X up' permits rule req remote"
proof -
  have "forward_upgrade_inner X up rule req remote = forward_upgrade_inner X up' rule req remote"
  proof -
    obtain ur rule' where r: "upstream_uri_for_rule X rule (rq_uri req) = (ur, rule')" by fastforce
    have "up q = up' q" if h: "set_upstream_host X u (copy_upgrade_request_headers (rq_headers req) []) = Inr h"
      and q: "q = \<lparr>rq_method = rq_method req, rq_uri = u, rq_headers = append_forwarded_headers X req remote h,
        rq_body = rq_body req\<rparr>" for u h q
      unfolding q
      by (rule assms(3), rule sent_forwarded_ok [OF assms(1,2) h])
        (auto simp: copied_upgrade_last_value forwarding_header_def dest: hget_all_member)
    with r show ?thesis by (simp add: forward_upgrade_inner_def Let_def split: sum.split)
  qed
  then show ?thesis by (simp only: forward_upgrade_def)
qed

lemma forward_http_agrees:
  assumes "\<And>s v. x_header_value X s = Some v \<Longrightarrow> v = s"
    and "case remote of Some p \<Rightarrow> x_header_value X (peer_ip p) \<noteq> None | None \<Rightarrow> True"
    and "\<And>q. forwarded_ok end_to_end req remote q \<and>
        list_all (\<lambda>n. hget_all n (rq_headers q) = []) hop_by_hop_request_names \<Longrightarrow> up q = up' q"
  shows "forward_http X up rule req remote = forward_http X up' rule req remote"
proof -
  obtain ur rule' where r: "upstream_uri_for_rule X rule (rq_uri req) = (ur, rule')" by fastforce
  have "up q = up' q" if h: "set_upstream_host X u (copy_forwardable_headers (rq_headers req) []) = Inr h"
    and q: "q = \<lparr>rq_method = rq_method req, rq_uri = u,
      rq_headers = remove_hop_by_hop_request_headers (append_forwarded_headers X req remote h), rq_body = rq_body req\<rparr>"
    for u h q
  proof -
    have "forwarded_ok end_to_end req remote
      \<lparr>rq_method = rq_method req, rq_uri = u, rq_headers = append_forwarded_headers X req remote h, rq_body = rq_body req\<rparr>"
      by (rule sent_forwarded_ok [OF assms(1,2) h])
        (auto simp: copied_header_last_value end_to_end_def forwarding_header_def dest: hget_all_member)
    moreover have "''host'' \<notin> set hop_by_hop_request_names" "''x-forwarded-for'' \<notin> set hop_by_hop_request_names"
      by (simp_all add: hop_by_hop_request_names_def)
    ultimately show ?thesis
      unfolding q
      by (intro assms(3)) (auto simp: forwarded_ok_def end_to_end_def list_all_iff remove_hop_by_hop_request_headers_def
          hget_all_fold_remove split: option.split)
  qed
  with r show ?thesis by (simp add: forward_http_def Let_def split: sum.split)
qed

text \<open>C29. The upstream is only sent what it should see: a plain request without any of the nine hop-by-hop
  headers and with the last value of every end-to-end header of the client; a request for an upgrade with the last
  value of every header of the client, the hop-by-hop headers included; both with the
  authority of the upstream as the only host and with the address of the peer, when it is known, as
  the only forwarding address, whatever the client claims. So what the proxy does depends on the
  upstream's behaviour on such requests only.\<close>

theorem upstream_sees_forwarded_request:
  assumes "\<And>s v. x_header_value X s = Some v \<Longrightarrow> v = s"
    and "case remote of Some p \<Rightarrow> x_header_value X (peer_ip p) \<noteq> None | None \<Rightarrow> True"
    and "\<And>q. upstream_request_ok X req remote q \<Longrightarrow> up q = up' q"
  shows "proxy_pre_process X up opts req remote = proxy_pre_process X up' opts req remote"
  using forward_upgrade_agrees [OF assms(1,2), of req up up'] forward_http_agrees [OF assms(1,2), of req up up'] assms(3)
  by (simp add: proxy_pre_process_def upstream_request_ok_def split: option.split)

text \<open>A plain request and one for an upgrade: an upstream that fails on everything else is as good as any.\<close>

definition strict_upstream :: "request \<Rightarrow> (request \<Rightarrow> response res) \<Rightarrow> request \<Rightarrow> response res" where
  "strict_upstream req up q = (if upstream_request_ok demo_ext req None q then up q else Inl ''bad'')"

theorem upstream_sees_forwarded_request_witness:
  "(\<forall>up opts. proxy_pre_process demo_ext up opts (demo_request ''GET'' ''/'' [(''te'', ''gzip'')]) None =
     proxy_pre_process demo_ext (strict_upstream (demo_request ''GET'' ''/'' [(''te'', ''gzip'')]) up) opts
       (demo_request ''GET'' ''/'' [(''te'', ''gzip'')]) None) \<and>
   (\<forall>up opts. proxy_pre_process demo_ext up opts (demo_request ''GET'' ''/'' [(''connection'', ''upgrade''), (''upgrade'', ''websocket'')]) None =
     proxy_pre_process demo_ext (strict_upstream (demo_request ''GET'' ''/'' [(''connection'', ''upgrade''), (''upgrade'', ''websocket'')]) up)
       opts (demo_request ''GET'' ''/'' [(''connection'', ''upgrade''), (''upgrade'', ''websocket'')]) None)"
  by (intro conjI allI; rule upstream_sees_forwarded_request) (simp_all add: demo_ext_def strict_upstream_def)

section \<open>Upgrade tunnels\<close>

text \<open>
  The permits left, the upgrade requests that wait for their upstream, and the tunnels open. Requests
  interleave: one is refused or takes a permit, later its upstream answers or its client goes away,
  and tunnels end at any time.
\<close>

inductive tunnel_step :: "ext \<Rightarrow> nat option \<times> nat \<times> nat \<Rightarrow> nat option \<times> nat \<times> nat \<Rightarrow> bool" for X where
  refused: "acquire_permit permits = None \<Longrightarrow> tunnel_step X (permits, waiting, opened) (permits, waiting, opened)"
| asked: "acquire_permit permits = Some left \<Longrightarrow>
     tunnel_step X (permits, waiting, opened) (left, Suc waiting, opened)"
| answered: "forward_upgrade_inner X up rule req remote = (r, req', rule', tunnel) \<Longrightarrow>
     tunnel_step X (permits, Suc waiting, opened)
       (settle_permit tunnel permits, waiting, if tunnel then Suc opened else opened)"
| dropped: "tunnel_step X (permits, Suc waiting, opened) (settle_permit False permits, waiting, opened)"
| closed: "tunnel_task handshake copied upgrade_kind permits = (logged, permits') \<Longrightarrow>
     tunnel_step X (permits, waiting, Suc opened) (permits', waiting, opened)"

inductive_cases tunnel_stepE: "tunnel_step X (permits, waiting, opened) s"

inductive tunnels_reachable :: "ext \<Rightarrow> nat option \<Rightarrow> nat option \<times> nat \<times> nat \<Rightarrow> bool" for X limit where
  start: "tunnels_reachable X limit (limit, 0, 0)"
| step: "tunnels_reachable X limit s \<Longrightarrow> tunnel_step X s s' \<Longrightarrow> tunnels_reachable X limit s'"

lemmas permit_defs = acquire_permit_def settle_permit_def tunnel_task_def

lemma forward_upgrade_permits:
  "forward_upgrade X up permits rule req remote = (r, req', rule', permits', started) \<Longrightarrow>
   (case permits of
      None \<Rightarrow> permits' = None
    | Some n \<Rightarrow> permits' = Some (if started then n - 1 else n) \<and> (if n = 0 then \<not> started \<and> (\<exists>resp. r = Inr resp \<and> rs_status resp = 503) else True))"
  by (auto simp: forward_upgrade_def permit_defs split: option.splits nat.splits prod.splits)

text \<open>A request handled without interruption is two steps, or a refusal.\<close>

lemma forward_upgrade_steps:
  assumes "forward_upgrade X up permits rule req remote = (r, req', rule', permits', started)"
  shows "(tunnel_step X)\<^sup>*\<^sup>* (permits, waiting, opened) (permits', waiting, if started then Suc opened else opened)"
proof (cases "acquire_permit permits")
  case None
  with assms show ?thesis by (auto simp: forward_upgrade_def)
next
  case (Some left)
  with assms have i: "forward_upgrade_inner X up rule req remote = (r, req', rule', started)"
    "permits' = settle_permit started left"
    by (auto simp: forward_upgrade_def split: prod.splits)
  from asked [OF Some] answered [OF i(1)] show ?thesis
    unfolding i(2) by (meson converse_rtranclp_into_rtranclp r_into_rtranclp)
qed

lemma tunnel_step_permits:
  "tunnel_step X (Some k, w, n) s' \<Longrightarrow> \<exists>k' w' n'. s' = (Some k', w', n') \<and> k' + w' + n' = k + w + n"
  by (erule tunnel_stepE) (auto simp: permit_defs split: nat.splits if_splits)

text \<open>C30. The limit on upgrade tunnels holds in every interleaving of requests that ask, are answered or
  dropped, and of tunnels that end: the permits left, the requests that wait and the tunnels open
  always add up to the limit, so there are never more than that, no permit is lost, and without a
  permit an upgrade request is answered with 503.\<close>

theorem tunnel_limit:
  assumes "tunnels_reachable X (Some limit) (permits, waiting, opened)"
  shows "\<exists>k. permits = Some k \<and> k + waiting + opened = limit \<and>
    (if k = 0 then fst (forward_upgrade X up permits rule req remote) = Inr ((response_new Empty_Body)\<lparr>rs_status := 503\<rparr>)
     else waiting + opened < limit)"
proof -
  have "\<exists>k w n. s = (Some k, w, n) \<and> k + w + n = limit" if "tunnels_reachable X (Some limit) s" for s
    using that
  proof (induction rule: tunnels_reachable.induct)
    case (step s s')
    then obtain k w n where s: "s = (Some k, w, n)" "k + w + n = limit" by blast
    with tunnel_step_permits [of X k w n s'] step.hyps(2) show ?case by auto
  qed simp
  from this [OF assms] obtain k where k: "permits = Some k" "k + waiting + opened = limit" by blast
  have "fst (forward_upgrade X up (Some 0) rule req remote) = Inr ((response_new Empty_Body)\<lparr>rs_status := 503\<rparr>)"
    by (simp add: forward_upgrade_def acquire_permit_def)
  with k show ?thesis by (cases k) (simp_all only: option.inject, auto)
qed

text \<open>With a limit of one, the second request is refused while the first waits for its upstream.\<close>

theorem tunnel_limit_witness:
  "tunnels_reachable demo_ext (Some 1) (Some 0, 1, 0) \<and>
   (\<forall>up rule req remote. fst (forward_upgrade demo_ext up (Some 0) rule req remote) = Inr ((response_new Empty_Body)\<lparr>rs_status := 503\<rparr>))"
proof -
  have a: "acquire_permit (Some 1) = Some (Some 0)" by (simp add: acquire_permit_def)
  have r: "tunnels_reachable demo_ext (Some 1) (Some 0, 1, 0)"
    using tunnels_reachable.step [OF tunnels_reachable.start asked [OF a]] by simp
  have "fst (forward_upgrade demo_ext up (Some 0) rule req remote) = Inr ((response_new Empty_Body)\<lparr>rs_status := 503\<rparr>)"
    for up rule req remote
    using tunnel_limit [OF r, of up rule req remote] by (elim exE conjE) (simp only: option.inject if_True)
  with r show ?thesis by blast
qed

section \<open>A concrete rule\<close>

definition demo_entry :: proxy_def where
  "demo_entry = \<lparr>pd_name = None, pd_host = None, pd_source = ''**'', pd_target = Some ''http://up'', pd_targets = None,
     pd_strip_prefix = None\<rparr>"

lemma demo_compiled:
  "\<exists>r. compile_proxy_rules demo_ext (sort_proxy_defs_by_specificity [demo_entry]) = Inr [r] \<and> pr_source r = ''**'' \<and>
     pr_host r = None \<and> balancer_len (pr_balancer r) = 1"
proof -
  have t: "trim ''http://up'' = ''http://up''" by (simp add: trim_visible visible_def)
  have u: "demo_parse_uri ''http://up'' =
      (demo_uri ''/'')\<lparr>uri_scheme := Some ''http'', uri_authority := Some ''up'', uri_host := Some ''up''\<rparr>"
    by (simp add: demo_parse_uri_def strip_prefix_def)
  show ?thesis
    by (simp add: sort_proxy_defs_by_specificity_def compile_proxy_rules_def compile_proxy_rule_def demo_entry_def
        compile_proxy_targets_def has_target_def has_targets_def t parse_proxy_target_url_def u demo_uri_def
        upstream_uri_template_def proxy_balancer_new_def balancer_len_def)
qed

lemma demo_two_compiled:
  "\<exists>rules. compile_proxy_rules demo_ext (sort_proxy_defs_by_specificity [demo_entry\<lparr>pd_source := ''/x''\<rparr>, demo_entry]) = Inr rules"
proof -
  have t: "trim ''http://up'' = ''http://up''" by (simp add: trim_visible visible_def)
  have u: "demo_parse_uri ''http://up'' =
      (demo_uri ''/'')\<lparr>uri_scheme := Some ''http'', uri_authority := Some ''up'', uri_host := Some ''up''\<rparr>"
    by (simp add: demo_parse_uri_def strip_prefix_def)
  have o: "sort_proxy_defs_by_specificity [demo_entry\<lparr>pd_source := ''/x''\<rparr>, demo_entry] =
      [demo_entry, demo_entry\<lparr>pd_source := ''/x''\<rparr>]"
    by (simp add: sort_proxy_defs_by_specificity_def more_specific_def specificity_key_def demo_entry_def)
  have "\<exists>r. compile_proxy_rule demo_ext demo_entry = Inr r"
    by (simp add: compile_proxy_rule_def demo_entry_def compile_proxy_targets_def has_target_def has_targets_def t
        parse_proxy_target_url_def u demo_uri_def upstream_uri_template_def proxy_balancer_new_def)
  moreover have "\<exists>r. compile_proxy_rule demo_ext (demo_entry\<lparr>pd_source := ''/x''\<rparr>) = Inr r"
    by (simp add: compile_proxy_rule_def demo_entry_def compile_proxy_targets_def has_target_def has_targets_def t
        parse_proxy_target_url_def u demo_uri_def upstream_uri_template_def proxy_balancer_new_def)
  ultimately show ?thesis unfolding o by (auto simp: compile_proxy_rules_def)
qed

text \<open>The catch-all pattern is found before the literal one of the same length, although it is given last.\<close>

theorem longest_rule_then_more_wildcards_witness:
  "\<exists>rules i r. compile_proxy_rules demo_ext
       (sort_proxy_defs_by_specificity [demo_entry\<lparr>pd_source := ''/x''\<rparr>, demo_entry]) = Inr rules \<and>
     find_rule_loop demo_ext ''a.org'' ''/x'' 0 rules = Some (i, r) \<and> pr_source r = ''**''"
proof -
  obtain rules where r: "compile_proxy_rules demo_ext
      (sort_proxy_defs_by_specificity [demo_entry\<lparr>pd_source := ''/x''\<rparr>, demo_entry]) = Inr rules"
    using demo_two_compiled by blast
  have d: "pd_source demo_entry = ''**''" "pd_host demo_entry = None" by (simp_all add: demo_entry_def)
  note found = longest_rule_then_more_wildcards [OF r, of "''a.org''" "''/x''"]
  show ?thesis
  proof (cases "find_rule_loop demo_ext ''a.org'' ''/x'' 0 rules")
    case None
    with found d show ?thesis by simp
  next
    case (Some q)
    obtain i k where q: "q = (i, k)" by fastforce
    from found Some q d have "proxy_rule_hits demo_ext ''a.org'' ''/x'' k" "length (pr_source k) > 2 \<or> count_list (pr_source k) (CHR ''*'') \<ge> 2"
      by auto
    then have "pr_source k = ''**''" by (auto simp: proxy_rule_hits_def)
    with r Some q show ?thesis by blast
  qed
qed

theorem compiled_rule_template_in_range_witness:
  "\<exists>r u t. compile_proxy_rules demo_ext (sort_proxy_defs_by_specificity [demo_entry]) = Inr [r] \<and>
     upstream_uri_template u (pr_strip_prefix r) = Inr t \<and>
     fst (upstream_uri_for_rule demo_ext (r\<lparr>pr_balancer := (pr_balancer r)\<lparr>pb_next := 5\<rparr>\<rparr>) (demo_uri ''/x''))
       = build_upstream_uri_from_template demo_ext t (demo_uri ''/x'')"
proof -
  obtain r where r: "compile_proxy_rules demo_ext (sort_proxy_defs_by_specificity [demo_entry]) = Inr [r]"
    using demo_compiled by blast
  from compiled_rule_template_in_range [OF r, of r "r\<lparr>pr_balancer := (pr_balancer r)\<lparr>pb_next := 5\<rparr>\<rparr>" 5 "demo_uri ''/x''"] r
  show ?thesis by auto
qed

end
