(* ===== verification/Metrics.thy ===== *)
theory Metrics
  imports Proxy
begin

text \<open>
  The metrics endpoint and counters (\<open>src/metrics.rs\<close>) and the per-connection service
  (\<open>src/service.rs\<close>). The counter vectors are maps from the label values (method, status
  class, host) to 64-bit counters, the gauges are 64-bit words, and a histogram is the list of the
  values it observed, latest first; the text encoder of the \<open>prometheus\<close> crate is a parameter.
\<close>

section \<open>State\<close>

type_synonym label_values = "string \<times> string \<times> string"

record metrics =
  mx_registered :: "string list"
  mx_requests_total :: "label_values \<rightharpoonup> u64"
  mx_request_durations :: "label_values \<rightharpoonup> nat list"
  mx_response_bytes_total :: "label_values \<rightharpoonup> u64"
  mx_requests_inflight :: u64
  mx_connections_active :: u64

definition metrics_start :: metrics where
  "metrics_start = \<lparr>mx_registered = [], mx_requests_total = Map.empty, mx_request_durations = Map.empty,
     mx_response_bytes_total = Map.empty, mx_requests_inflight = 0, mx_connections_active = 0\<rparr>"

text \<open>\<open>with_label_values(..).inc_by(n)\<close> and \<open>observe(v)\<close>: the child is created when it is missing.\<close>

definition counter_inc_by :: "label_values \<Rightarrow> u64 \<Rightarrow> (label_values \<rightharpoonup> u64) \<Rightarrow> label_values \<rightharpoonup> u64" where
  "counter_inc_by l n c = c(l \<mapsto> (case c l of Some k \<Rightarrow> k | None \<Rightarrow> 0) + n)"

definition histogram_observe :: "label_values \<Rightarrow> nat \<Rightarrow> (label_values \<rightharpoonup> nat list) \<Rightarrow> label_values \<rightharpoonup> nat list" where
  "histogram_observe l v h = h(l \<mapsto> v # (case h l of Some vs \<Rightarrow> vs | None \<Rightarrow> []))"

section \<open>Initialisation\<close>

definition COLLECTORS :: "string list" where
  "COLLECTORS = [''tokio_runtime'', ''sws_http_requests_total'', ''sws_http_request_duration_seconds'',
     ''sws_http_response_bytes_total'', ''sws_http_requests_inflight'', ''sws_http_connections_active'']"

text \<open>\<open>Registry::register\<close> refuses a second collector of the same name, and the code unwraps.\<close>

fun register_all :: "string list \<Rightarrow> metrics \<Rightarrow> metrics res" where
  "register_all [] M = Inr M"
| "register_all (n # ns) M =
     (if n \<in> set (mx_registered M) then Inl unwrap_panic
      else register_all ns (M\<lparr>mx_registered := mx_registered M @ [n]\<rparr>))"

definition metrics_init :: "bool \<Rightarrow> handler_opts \<Rightarrow> metrics \<Rightarrow> (handler_opts \<times> metrics) res" where
  "metrics_init enabled opts M =
     (let opts' = opts\<lparr>metrics_enabled := enabled\<rparr>
      in if enabled then res_bind (register_all COLLECTORS M) (\<lambda>M'. Inr (opts', M')) else Inr (opts', M))"

section \<open>Endpoint\<close>

definition TEXT_PLAIN_UTF_8 :: string where
  "TEXT_PLAIN_UTF_8 = ''text/plain; charset=utf-8''"

text \<open>\<open>encode\<close> renders the registered collectors.\<close>

definition metrics_pre_process :: "(metrics \<Rightarrow> string) \<Rightarrow> metrics \<Rightarrow> handler_opts \<Rightarrow> request \<Rightarrow> response option" where
  "metrics_pre_process encode M opts req =
     (if \<not> metrics_enabled opts then None
      else if uri_path (rq_uri req) \<noteq> ''/metrics'' then None
      else if \<not> is_get (rq_method req) \<and> \<not> is_head (rq_method req) then None
      else Some (rs_insert ''content-type'' TEXT_PLAIN_UTF_8
             (response_new (if is_get (rq_method req) then Bytes_Body (encode M) else Empty_Body))))"

section \<open>Recording\<close>

definition status_class :: "nat \<Rightarrow> string" where
  "status_class code =
     (if code div 100 = 1 then ''1xx'' else if code div 100 = 2 then ''2xx''
      else if code div 100 = 3 then ''3xx'' else if code div 100 = 4 then ''4xx'' else ''5xx'')"

definition request_labels :: "ext \<Rightarrow> request \<Rightarrow> nat \<Rightarrow> label_values" where
  "request_labels X req status =
     (rq_method req, status_class status,
      case Option.bind (hget ''host'' (rq_headers req)) (x_header_str X) of Some h \<Rightarrow> h | None \<Rightarrow> [])"

definition record_request :: "ext \<Rightarrow> request \<Rightarrow> nat \<Rightarrow> u64 \<Rightarrow> nat \<Rightarrow> metrics \<Rightarrow> metrics" where
  "record_request X req status bytes elapsed M =
     (if uri_path (rq_uri req) = ''/metrics'' then M
      else
        (let l = request_labels X req status;
             M1 = M\<lparr>mx_requests_total := counter_inc_by l 1 (mx_requests_total M)\<rparr>;
             M2 = M1\<lparr>mx_request_durations := histogram_observe l elapsed (mx_request_durations M1)\<rparr>
         in if 0 < bytes
            then M2\<lparr>mx_response_bytes_total := counter_inc_by l bytes (mx_response_bytes_total M2)\<rparr>
            else M2))"

definition inc_requests_inflight :: "metrics \<Rightarrow> metrics" where
  "inc_requests_inflight M = M\<lparr>mx_requests_inflight := mx_requests_inflight M + 1\<rparr>"

definition dec_requests_inflight :: "metrics \<Rightarrow> metrics" where
  "dec_requests_inflight M = M\<lparr>mx_requests_inflight := mx_requests_inflight M - 1\<rparr>"

definition inc_connections :: "metrics \<Rightarrow> metrics" where
  "inc_connections M = M\<lparr>mx_connections_active := mx_connections_active M + 1\<rparr>"

definition dec_connections :: "metrics \<Rightarrow> metrics" where
  "dec_connections M = M\<lparr>mx_connections_active := mx_connections_active M - 1\<rparr>"

section \<open>Connection services\<close>

text \<open>A service holds the handler, which all share, and the peer of its connection.\<close>

record request_service =
  sv_remote_addr :: "peer option"

definition request_service_new :: "peer option \<Rightarrow> metrics \<Rightarrow> request_service \<times> metrics" where
  "request_service_new remote M = (\<lparr>sv_remote_addr = remote\<rparr>, inc_connections M)"

definition request_service_drop :: "request_service \<Rightarrow> metrics \<Rightarrow> metrics" where
  "request_service_drop s M = dec_connections M"

text \<open>\<open>RouterService::call\<close>: the service for an accepted connection.\<close>

definition router_call :: "peer option \<Rightarrow> metrics \<Rightarrow> request_service \<times> metrics" where
  "router_call remote M = request_service_new remote M"

text \<open>Connections come and go in any order: the live services and the metrics.\<close>

inductive connection_step :: "request_service list \<times> metrics \<Rightarrow> request_service list \<times> metrics \<Rightarrow> bool" where
  accepted: "router_call remote M = (s, M') \<Longrightarrow> connection_step (ss, M) (ss @ [s], M')"
| dropped: "i < length ss \<Longrightarrow>
    connection_step (ss, M) (take i ss @ drop (Suc i) ss, request_service_drop (ss ! i) M)"

inductive_cases connection_stepE: "connection_step (ss, M) c"

section \<open>Lemmas\<close>

lemmas gauge_defs = inc_requests_inflight_def dec_requests_inflight_def inc_connections_def dec_connections_def

lemma record_request_gauges [simp]:
  "mx_requests_inflight (record_request X req s b e M) = mx_requests_inflight M"
  "mx_connections_active (record_request X req s b e M) = mx_connections_active M"
  by (simp_all add: record_request_def Let_def)

lemma gauges_frame [simp]:
  "mx_requests_total (inc_requests_inflight M) = mx_requests_total M"
  "mx_requests_total (dec_requests_inflight M) = mx_requests_total M"
  "mx_requests_inflight (inc_requests_inflight M) = mx_requests_inflight M + 1"
  "mx_requests_inflight (dec_requests_inflight M) = mx_requests_inflight M - 1"
  "dec_requests_inflight (inc_requests_inflight M) = M"
  by (simp_all add: gauge_defs)

lemma register_all_twice: "ns \<noteq> [] \<Longrightarrow> set ns \<subseteq> set (mx_registered M) \<Longrightarrow> register_all ns M = Inl unwrap_panic"
  by (cases ns) auto

lemma register_all_ok:
  "distinct ns \<Longrightarrow> set ns \<inter> set (mx_registered M) = {} \<Longrightarrow>
   register_all ns M = Inr (M\<lparr>mx_registered := mx_registered M @ ns\<rparr>)"
  by (induction ns arbitrary: M) auto

lemma connection_step_gauge:
  assumes "connection_step (ss, M) (ss', M')" "mx_connections_active M = of_nat (length ss)"
  shows "mx_connections_active M' = of_nat (length ss')"
  using assms
proof (elim connection_stepE, goal_cases)
  case (1 remote M'' s)
  then show ?case by (auto simp: router_call_def request_service_new_def gauge_defs)
next
  case (2 i)
  then obtain n where "length ss = Suc n" by (cases ss) auto
  with 2 show ?case by (simp add: request_service_drop_def gauge_defs min_def)
qed

section \<open>Properties\<close>

text \<open>The gauge of active connections: however connections are accepted and dropped, starting with
  none, it is the number of services alive (as a 64-bit value), so it never drifts and never goes
  below zero.\<close>

theorem connections_gauge_counts:
  assumes "connection_step\<^sup>*\<^sup>* ([], M) (ss, M')" "mx_connections_active M = 0"
  shows "mx_connections_active M' = of_nat (length ss)"
  using assms(1)
proof (induction "(ss, M')" arbitrary: ss M' rule: rtranclp_induct)
  case base
  with assms(2) show ?case by simp
next
  case (step c)
  then show ?case by (cases c) (auto intro: connection_step_gauge)
qed

theorem connections_gauge_counts_witness:
  "\<exists>ss M. connection_step\<^sup>*\<^sup>* ([], metrics_start) (ss, M) \<and> length ss = 1 \<and> mx_connections_active M = 1"
proof -
  let ?s = "\<lparr>sv_remote_addr = None\<rparr> :: request_service" and ?M = "inc_connections metrics_start"
  have "connection_step ([], metrics_start) ([] @ [?s], ?M)"
    by (rule accepted) (simp add: router_call_def request_service_new_def)
  then have r: "connection_step\<^sup>*\<^sup>* ([], metrics_start) ([?s], ?M)" by auto
  moreover have "mx_connections_active ?M = 1"
    using connections_gauge_counts [OF r] by (simp add: metrics_start_def)
  ultimately show ?thesis by (intro exI conjI) auto
qed

text \<open>Metrics are registered once: a first initialisation of the process succeeds and registers every
  collector, and a second one panics, since the registry refuses collectors of the same name.\<close>

theorem metrics_init_once:
  "\<exists>opts' M. metrics_init True opts metrics_start = Inr (opts', M) \<and> metrics_enabled opts' \<and>
     mx_registered M = COLLECTORS \<and> metrics_init True opts' M = Inl unwrap_panic"
proof -
  have "register_all COLLECTORS metrics_start = Inr (metrics_start\<lparr>mx_registered := COLLECTORS\<rparr>)"
    by (subst register_all_ok) (simp_all add: COLLECTORS_def metrics_start_def)
  moreover have "register_all COLLECTORS (metrics_start\<lparr>mx_registered := COLLECTORS\<rparr>) = Inl unwrap_panic"
    by (rule register_all_twice) (simp_all add: COLLECTORS_def)
  ultimately show ?thesis by (simp add: metrics_init_def)
qed

end
