(* ===== verification/Dir_Listing.thy ===== *)
theory Dir_Listing
  imports Pages
begin

text \<open>
  Directory listings: the entries (\<open>src/directory_listing/dir.rs\<close>, \<open>file.rs\<close>), their order
  (\<open>sort.rs\<close>), the JSON and HTML pages (\<open>autoindex/\<close>, \<open>style.rs\<close>) and the download of a
  directory as an archive (\<open>src/directory_listing_download.rs\<close>). The HTML template is written out
  as the text it produces, with every spliced value escaped.
\<close>

section \<open>Entries\<close>

datatype file_type = Dir_Entry | File_Entry

record file_entry =
  fe_name :: string
  fe_mtime :: "int option"
  fe_size :: "u64 option"
  fe_type :: file_type
  fe_uri :: string

definition fe_is_dir :: "file_entry \<Rightarrow> bool" where
  "fe_is_dir e = (fe_type e = Dir_Entry)"

definition name_is_hidden :: "string \<Rightarrow> bool" where
  "name_is_hidden name = (case name of c # _ \<Rightarrow> c = CHR ''.'' | [] \<Rightarrow> False)"

record dir_entry_opts =
  de_root_path :: path
  de_dir_path :: path
  de_dir_reader :: "(string \<times> inode) list \<times> string option"
  de_base_path :: string
  de_uri_query :: "string option"
  de_is_head :: bool
  de_order_code :: nat
  de_format :: dir_list_fmt
  de_ignore_hidden :: bool
  de_disable_symlinks :: bool
  de_download :: "dir_download_fmt list"

text \<open>The type and the size of an entry; \<open>None\<close> where the loop continues with the next one.\<close>

definition symlink_entry_kind :: "fs \<Rightarrow> path \<Rightarrow> path \<Rightarrow> (file_type \<times> u64 option) option" where
  "symlink_entry_kind F root_abs entry_path =
     (case fs_canonicalize F entry_path of
        Inl _ \<Rightarrow> None
      | Inr symlink_path \<Rightarrow>
          if \<not> path_starts_with symlink_path root_abs then None
          else (case fs_symlink_metadata F symlink_path of
                  Inl _ \<Rightarrow> None
                | Inr meta \<Rightarrow>
                    if is_dir_node meta then Some (Dir_Entry, None)
                    else Some (File_Entry, Some (of_nat (nd_len meta)))))"

definition entry_kind ::
  "fs \<Rightarrow> dir_entry_opts \<Rightarrow> path \<Rightarrow> string \<Rightarrow> inode \<Rightarrow> (file_type \<times> u64 option) option" where
  "entry_kind F opt root_abs name meta =
     (if de_ignore_hidden opt \<and> name_is_hidden name then None
      else if is_dir_node meta then Some (Dir_Entry, None)
      else if is_regular meta then Some (File_Entry, Some (of_nat (nd_len meta)))
      else if \<not> de_disable_symlinks opt \<and> is_symlink meta
      then symlink_entry_kind F root_abs (path_push (de_dir_path opt) name)
      else None)"

definition entry_uri :: "ext \<Rightarrow> string \<Rightarrow> string \<Rightarrow> file_type \<Rightarrow> string" where
  "entry_uri X base_path name t =
     (let encoded = x_pct_encode X name;
          uri = (if \<not> suffix ''/'' base_path \<and> base_path \<noteq> []
                 then (case rsplit_once (CHR ''/'') base_path of Some (_, parent) \<Rightarrow> parent | None \<Rightarrow> base_path)
                        @ ''/'' @ encoded
                 else encoded)
      in if t = Dir_Entry then uri @ ''/'' else uri)"

text \<open>
  The loop over the entries: the counts of directories and files, and the entries shown. An entry comes
  with its metadata; one whose metadata can not be read, which the code logs and skips, is not in the list.
\<close>

fun entries_loop ::
  "ext \<Rightarrow> fs \<Rightarrow> dir_entry_opts \<Rightarrow> path \<Rightarrow> (string \<times> inode) list \<Rightarrow> nat \<Rightarrow> nat \<Rightarrow> file_entry list
   \<Rightarrow> nat \<times> nat \<times> file_entry list" where
  "entries_loop X F opt root_abs [] dirs files acc = (dirs, files, acc)"
| "entries_loop X F opt root_abs ((name, meta) # es) dirs files acc =
     (case entry_kind F opt root_abs name meta of
        None \<Rightarrow> entries_loop X F opt root_abs es dirs files acc
      | Some (t, sz) \<Rightarrow>
          entries_loop X F opt root_abs es
            (if t = Dir_Entry then dirs + 1 else dirs) (if t = File_Entry then files + 1 else files)
            (acc @ [\<lparr>fe_name = name, fe_mtime = nd_modified meta, fe_size = sz, fe_type = t,
                     fe_uri = entry_uri X (de_base_path opt) name t\<rparr>]))"

section \<open>Order\<close>

record sorting_attr =
  sa_name :: string
  sa_last_modified :: string
  sa_size :: string

fun opt_le :: "'a::linorder option \<Rightarrow> 'a option \<Rightarrow> bool" where
  "opt_le None y = True"
| "opt_le (Some a) None = False"
| "opt_le (Some a) (Some b) = (a \<le> b)"

definition name_key :: "ext \<Rightarrow> file_entry \<Rightarrow> string" where
  "name_key X e = x_unicode_lower X (utf8_lossy (fe_name e))"

definition entry_le :: "ext \<Rightarrow> nat \<Rightarrow> file_entry \<Rightarrow> file_entry \<Rightarrow> bool" where
  "entry_le X attr a b =
     (if attr = 0 then name_key X a \<le> name_key X b
      else if attr = 1 then opt_le (fe_mtime a) (fe_mtime b)
      else opt_le (fe_size a) (fe_size b))"

definition sort_file_entries :: "ext \<Rightarrow> file_entry list \<Rightarrow> nat \<Rightarrow> file_entry list \<times> sorting_attr" where
  "sort_file_entries X files order_code =
     (let dflt = \<lparr>sa_name = ''0'', sa_last_modified = ''2'', sa_size = ''4''\<rparr>
      in if order_code = 0 \<or> order_code = 1
         then (let fs = sort_by (entry_le X 0) files
               in if order_code = 1 then (rev fs, dflt) else (fs, dflt\<lparr>sa_name := ''1''\<rparr>))
         else if order_code = 2 \<or> order_code = 3
         then (let fs = sort_by (entry_le X 1) files
               in if order_code = 3 then (rev fs, dflt) else (fs, dflt\<lparr>sa_last_modified := ''3''\<rparr>))
         else if order_code = 4 \<or> order_code = 5
         then (let fs = sort_by (entry_le X 2) files
               in if order_code = 5 then (rev fs, dflt) else (fs, dflt\<lparr>sa_size := ''5''\<rparr>))
         else (files, dflt))"

section \<open>Pages\<close>

definition json_mtime :: "ext \<Rightarrow> int option \<Rightarrow> string" where
  "json_mtime X t = x_json_string X (case t of Some d \<Rightarrow> x_format_utc X d | None \<Rightarrow> [])"

definition json_entry :: "ext \<Rightarrow> file_entry \<Rightarrow> string" where
  "json_entry X e =
     ''{\"name\":'' @ x_json_string X (utf8_lossy (fe_name e)) @ '',\"mtime\":'' @ json_mtime X (fe_mtime e)
       @ (case fe_size e of Some n \<Rightarrow> '',\"size\":'' @ show_nat (unat n) | None \<Rightarrow> [])
       @ '',\"type\":'' @ (case fe_type e of Dir_Entry \<Rightarrow> ''\"directory\"'' | File_Entry \<Rightarrow> ''\"file\"'') @ ''}''"

definition json_auto_index :: "ext \<Rightarrow> file_entry list \<Rightarrow> nat \<Rightarrow> string" where
  "json_auto_index X entries order_code =
     ''['' @ join '','' (map (json_entry X) (fst (sort_file_entries X entries order_code))) @ '']''"

text \<open>
  \<open>format_file_size\<close>: the loop over the units between the first and the last one, with the
  64-bit size shifted by ten bits at each step.
\<close>

fun size_loop :: "ext \<Rightarrow> u64 \<Rightarrow> string list \<Rightarrow> string" where
  "size_loop X sz [] = x_format_kib X sz @ '' PiB''"
| "size_loop X sz (u # us) =
     (if sz < 1024 * 1024 then x_format_kib X sz @ '' '' @ u else size_loop X (drop_bit 10 sz) us)"

definition format_file_size :: "ext \<Rightarrow> u64 \<Rightarrow> string" where
  "format_file_size X sz =
     (if sz < 1024 then show_nat (unat sz) @ '' B''
      else size_loop X sz [''KiB'', ''MiB'', ''GiB'', ''TiB''])"

definition STYLES :: string where
  "STYLES = join [CHR 10]
    ['''',
     '':after, :before { box-sizing: border-box; }'',
     ''html {'',
     ''    color-scheme: light dark;'',
     ''    -moz-osx-font-smoothing: grayscale;'',
     ''    -webkit-font-smoothing: antialiased;'',
     ''    min-width: 20rem;'',
     ''    text-rendering: optimizeLegibility;'',
     ''    -webkit-text-size-adjust: 100%;'',
     ''    -moz-text-size-adjust: 100%;'',
     ''    text-size-adjust: 100%'',
     ''}'',
     ''body {'',
     ''    padding: 1rem;'',
     ''    font-family: Consolas, '' @ [CHR 0x27] @ ''Liberation Mono'' @ [CHR 0x27] @ '', Menlo, monospace;'',
     ''    font-size: .75rem;'',
     ''    max-width: 70rem;'',
     ''    margin: 0 auto;'',
     ''    font-weight: 400;'',
     ''    line-height: 1.5'',
     ''}'',
     ''h1 {'',
     ''    margin: 0;'',
     ''    padding: 0;'',
     ''    font-size: 1rem;'',
     ''    line-height: 1.25;'',
     ''    margin-bottom: 0.5rem;'',
     ''}'',
     ''table {'',
     ''    width: 100%;'',
     ''    table-layout: fixed;'',
     ''    border-spacing: 0;'',
     ''}'',
     ''hr { border-style: none; border-bottom: solid 1px gray; }'',
     ''table th, table td {'',
     ''    padding: .15rem 0;'',
     ''    white-space: nowrap;'',
     ''    vertical-align: top'',
     ''}'',
     ''table th a, table td a {'',
     ''    display: inline-block;'',
     ''    white-space: nowrap;'',
     ''    overflow: hidden;'',
     ''    text-overflow: ellipsis;'',
     ''    max-width: 95%;'',
     ''    vertical-align: top;'',
     ''}'',
     ''table tr:hover td { background-color: rgba(200, 200, 200, 0.2); }'',
     ''footer { padding-top: 0.5rem; }'',
     ''table tr th { text-align: left; }'',
     '''',
     ''@media (max-width:30rem) {'',
     ''    table th:first-child { width: 20rem; }'',
     ''}'',
     ''@media (prefers-color-scheme: dark) {'',
     ''    table tr:hover td { background-color: rgba(0, 0, 0, 0.2); }'',
     ''}'',
     ''@media (prefers-color-scheme: light) {'',
     ''    table tr:hover td { background-color: rgba(200, 200, 200, 0.2); }'',
     ''}'',
     '''']"

definition DOWNLOAD_PARAM_KEY :: string where
  "DOWNLOAD_PARAM_KEY = ''download''"

definition html_row :: "ext \<Rightarrow> file_entry \<Rightarrow> string" where
  "html_row X e =
     ''<tr><td><a href=\"'' @ x_html_escape X (fe_uri e) @ ''\">'' @ x_html_escape X (utf8_lossy (fe_name e))
       @ (if fe_is_dir e then ''/'' else []) @ ''</a></td><td>''
       @ x_html_escape X (case fe_mtime e of Some d \<Rightarrow> x_format_local X d | None \<Rightarrow> ''-'')
       @ ''</td><td align=\"right\">''
       @ x_html_escape X (case fe_size e of Some n \<Rightarrow> format_file_size X n | None \<Rightarrow> ''-'')
       @ ''</td></tr>''"

definition html_sort_link :: "ext \<Rightarrow> string \<Rightarrow> string \<Rightarrow> string" where
  "html_sort_link X attr title = ''<a href=\"?sort='' @ x_html_escape X attr @ ''\">'' @ title @ ''</a>''"

definition html_auto_index ::
  "ext \<Rightarrow> string \<Rightarrow> nat \<Rightarrow> nat \<Rightarrow> file_entry list \<Rightarrow> nat \<Rightarrow> dir_download_fmt list \<Rightarrow> string" where
  "html_auto_index X base_path dirs files entries order_code download =
     (let (sorted, attrs) = sort_file_entries X entries order_code;
          current_path = x_html_escape X (utf8_lossy (x_pct_decode X base_path));
          download_elem = (if download = [] then []
                           else '', <a href=\"?'' @ DOWNLOAD_PARAM_KEY @ ''\">download tar.gz</a>'');
          styles = str_replace ''  '' [] (str_replace [CHR 10] [] STYLES)
      in ''<!DOCTYPE html><html><head><meta charset=\"utf-8\"><meta name=\"viewport\" content=\"width=device-width,minimum-scale=1,initial-scale=1\"><title>Index of ''
         @ current_path @ ''</title><style>'' @ x_html_escape X styles @ ''</style></head><body><h1>Index of ''
         @ current_path @ ''</h1><p><small>directories: '' @ show_nat dirs @ '', files: '' @ show_nat files
         @ download_elem @ ''</small></p><hr><div style=\"overflow-x: auto;\"><table><thead><tr><th>''
         @ html_sort_link X (sa_name attrs) ''Name'' @ ''</th><th style=\"width:10rem;\">''
         @ html_sort_link X (sa_last_modified attrs) ''Last modified''
         @ ''</th><th style=\"width:6rem;text-align:right;\">'' @ html_sort_link X (sa_size attrs) ''Size''
         @ ''</th></tr></thead>''
         @ (if base_path \<noteq> ''/'' then ''<tr><td colspan=\"3\"><a href=\"../\">../</a></td></tr>'' else [])
         @ concat (map (html_row X) sorted)
         @ ''</table></div><hr><footer><small>Powered by WeaveGate (SWS) / weavegate</small></footer></body></html>'')"

section \<open>The listing of a directory\<close>

text \<open>A query with a \<open>sort\<close> key whose value is an 8-bit number overrides the configured order.\<close>

definition query_order_code :: "ext \<Rightarrow> string option \<Rightarrow> nat \<Rightarrow> nat" where
  "query_order_code X query code =
     (case query of
        None \<Rightarrow> code
      | Some q \<Rightarrow>
          (case Option.bind (find (\<lambda>(k, _). k = ''sort'') (x_form_parse X q)) (\<lambda>(_, v). parse_uint 255 (trim v)) of
             Some c \<Rightarrow> c
           | None \<Rightarrow> code))"

definition listing_response :: "bool \<Rightarrow> string \<Rightarrow> string \<Rightarrow> response" where
  "listing_response head content_type content =
     (let resp = rs_insert ''content-length'' (show_nat (length content))
                   (rs_insert ''content-type'' content_type (response_new Empty_Body))
      in if head then resp else resp\<lparr>rs_body := Bytes_Body content\<rparr>)"

definition read_dir_entries :: "ext \<Rightarrow> fs \<Rightarrow> dir_entry_opts \<Rightarrow> response res" where
  "read_dir_entries X F opt =
     (case fs_canonicalize F (de_root_path opt) of
        Inl _ \<Rightarrow> Inl ''root path''
      | Inr root_abs \<Rightarrow>
          (let (dirs, files, entries) = entries_loop X F opt root_abs (fst (de_dir_reader opt)) 0 0 []
           in case snd (de_dir_reader opt) of
                Some _ \<Rightarrow> Inl ''unable to read directory entry''
              | None \<Rightarrow>
                  (let order_code = query_order_code X (de_uri_query opt) (de_order_code opt)
                   in case de_format opt of
                        DirList_Json \<Rightarrow>
                          Inr (listing_response (de_is_head opt) ''application/json''
                                 (json_auto_index X entries order_code))
                      | DirList_Html \<Rightarrow>
                          Inr (listing_response (de_is_head opt) TEXT_HTML_UTF_8
                                 (html_auto_index X (de_base_path opt) dirs files entries order_code
                                    (de_download opt))))))"

record dir_list_opts =
  dl_root_path :: path
  dl_method :: http_method
  dl_current_path :: string
  dl_uri_query :: "string option"
  dl_filepath :: path
  dl_order :: nat
  dl_format :: dir_list_fmt
  dl_download :: "dir_download_fmt list"
  dl_ignore_hidden :: bool
  dl_disable_symlinks :: bool

definition open_error_status :: "open_error \<Rightarrow> nat" where
  "open_error_status e =
     (case e of Open_NotFound \<Rightarrow> 404 | Open_PermissionDenied \<Rightarrow> 403 | Open_Other \<Rightarrow> 500)"

definition listing_parent :: "path \<Rightarrow> path" where
  "listing_parent p = (case path_parent p of Some q \<Rightarrow> q | None \<Rightarrow> p)"

definition dir_entry_opts_of :: "dir_list_opts \<Rightarrow> (string \<times> inode) list \<times> string option \<Rightarrow> dir_entry_opts" where
  "dir_entry_opts_of o' reader =
     \<lparr>de_root_path = dl_root_path o', de_dir_path = listing_parent (dl_filepath o'), de_dir_reader = reader,
      de_base_path = dl_current_path o', de_uri_query = dl_uri_query o', de_is_head = is_head (dl_method o'),
      de_order_code = dl_order o', de_format = dl_format o', de_ignore_hidden = dl_ignore_hidden o',
      de_disable_symlinks = dl_disable_symlinks o', de_download = dl_download o'\<rparr>"

definition auto_index :: "ext \<Rightarrow> fs \<Rightarrow> dir_list_opts \<Rightarrow> nat + response" where
  "auto_index X F o' =
     (case fs_read_dir F (listing_parent (dl_filepath o')) of
        Inr reader \<Rightarrow>
          (case read_dir_entries X F (dir_entry_opts_of o' reader) of
             Inr resp \<Rightarrow> Inr resp
           | Inl _ \<Rightarrow> Inl 500)
      | Inl e \<Rightarrow> Inl (open_error_status e))"

definition directory_listing_init :: "bool \<Rightarrow> nat \<Rightarrow> dir_list_fmt \<Rightarrow> handler_opts \<Rightarrow> handler_opts" where
  "directory_listing_init enabled order fmt opts =
     opts\<lparr>dir_listing := enabled, dir_listing_order := order, dir_listing_format := fmt\<rparr>"

section \<open>Download of a directory\<close>

definition download_init :: "dir_download_fmt list \<Rightarrow> handler_opts \<Rightarrow> handler_opts" where
  "download_init formats opts =
     fold (\<lambda>f o'. if f \<in> set (dir_listing_download o') then o'
                  else o'\<lparr>dir_listing_download := dir_listing_download o' @ [f]\<rparr>) formats opts"

text \<open>The channel of the archive: what the sender answers decides whether bytes are written.\<close>

datatype poll_write = Write_Ready nat | Write_Error | Write_Pending

definition channel_poll_write :: "bool option \<Rightarrow> bool \<Rightarrow> string \<Rightarrow> poll_write" where
  "channel_poll_write poll_ready send_ok buf =
     (case poll_ready of
        Some True \<Rightarrow> if send_ok then Write_Ready (length buf) else Write_Pending
      | Some False \<Rightarrow> Write_Error
      | None \<Rightarrow> Write_Pending)"

datatype tar_op = Tar_Dir path path | Tar_Item path path

fun tar_src :: "tar_op \<Rightarrow> path" where
  "tar_src (Tar_Dir dest src) = src"
| "tar_src (Tar_Item dest src) = src"

text \<open>
  The loop of \<open>archive\<close> over the stack of pending paths (with the directory and link flags of
  the entry). The result is the operations issued on the archive and whether the loop ended without an
  error; \<open>None\<close> means that the fuel, one unit for each path taken from the stack, ran out.
\<close>

definition archive_push :: "bool \<Rightarrow> path \<Rightarrow> (string \<times> inode) list \<Rightarrow> (path \<times> bool \<times> bool) list" where
  "archive_push ignore_hidden src es =
     rev (map (\<lambda>(n, nd). (path_push src n, is_dir_node nd, is_symlink nd))
       (filter (\<lambda>(n, nd). \<not> (ignore_hidden \<and> name_is_hidden n)) es))"

fun archive_loop ::
  "ext \<Rightarrow> fs \<Rightarrow> path \<Rightarrow> path \<Rightarrow> bool \<Rightarrow> bool \<Rightarrow> nat \<Rightarrow> (path \<times> bool \<times> bool) list \<Rightarrow> (tar_op list \<times> bool) option" where
  "archive_loop X F name src_path follow ignore_hidden fuel [] = Some ([], True)"
| "archive_loop X F name src_path follow ignore_hidden 0 (q # stack) = None"
| "archive_loop X F name src_path follow ignore_hidden (Suc fuel) ((src, is_dir, is_link) # stack) =
     (case path_strip_prefix src src_path of
        None \<Rightarrow> Some ([], False)
      | Some rel \<Rightarrow>
          (let dest = path_push name rel
           in if is_dir \<or> is_link \<and> follow \<and> fs_is_dir F src
              then (case fs_read_dir F src of
                      Inl _ \<Rightarrow> Some ([], False)
                    | Inr (es, Some _) \<Rightarrow> Some ([], False)
                    | Inr (es, None) \<Rightarrow>
                        (let rest = archive_loop X F name src_path follow ignore_hidden fuel
                                      (archive_push ignore_hidden src es @ stack)
                         in if dest = [] then rest
                            else if \<not> x_tar_append X dest src then Some ([Tar_Dir dest src], False)
                            else map_option (\<lambda>(ops, ok). (Tar_Dir dest src # ops, ok)) rest))
              else if \<not> x_tar_append X dest src then Some ([Tar_Item dest src], False)
              else map_option (\<lambda>(ops, ok). (Tar_Item dest src # ops, ok))
                     (archive_loop X F name src_path follow ignore_hidden fuel stack)))"

definition archive :: "ext \<Rightarrow> fs \<Rightarrow> nat \<Rightarrow> path \<Rightarrow> path \<Rightarrow> bool \<Rightarrow> bool \<Rightarrow> (tar_op list \<times> bool) option" where
  "archive X F fuel name src_path follow ignore_hidden =
     archive_loop X F name src_path follow ignore_hidden fuel [(src_path, True, False)]"

definition archive_reply :: "ext \<Rightarrow> path \<Rightarrow> path \<Rightarrow> http_method \<Rightarrow> response" where
  "archive_reply X name src_path m =
     (let disposition = ''attachment; filename=\"'' @ utf8_lossy (path_with_extension name ''tar.gz'') @ ''\"'';
          resp0 = rs_insert ''content-type'' ''application/gzip'' (response_new Empty_Body);
          resp1 = (case x_header_value X disposition of
                     Some v \<Rightarrow> rs_insert ''content-disposition'' v resp0
                   | None \<Rightarrow> resp0)
      in if is_head m then resp1 else resp1\<lparr>rs_body := Archive_Body name src_path\<rparr>)"

section \<open>Order of a listing\<close>

lemma opt_le_total: "opt_le a b \<or> opt_le b a"
  by (cases a; cases b) auto

lemma opt_le_trans: "opt_le a b \<Longrightarrow> opt_le b c \<Longrightarrow> opt_le a c"
  by (cases a; cases b; cases c) auto

interpretation entry_order: comparison "entry_le X attr" for X attr
proof
  show "entry_le X attr a b \<or> entry_le X attr b a" for a b
    using opt_le_total [of "fe_mtime a" "fe_mtime b"] opt_le_total [of "fe_size a" "fe_size b"]
      linear [of "name_key X a" "name_key X b"]
    by (simp add: entry_le_def)
  show "entry_le X attr a b \<Longrightarrow> entry_le X attr b c \<Longrightarrow> entry_le X attr a c" for a b c
    by (auto simp: entry_le_def intro: opt_le_trans order_trans split: if_splits)
qed

text \<open>The order of a listing: every order code keeps exactly the entries; the codes 0, 2 and 4 sort by
  name, date and size and keep the order of equal entries, the codes 1, 3 and 5 are the exact
  reverses of them, any other code keeps the order of the directory, and the link of the
  sorted column switches to the other direction.\<close>

theorem listing_order:
  "mset (fst (sort_file_entries X es c)) = mset es \<and>
   (if c \<in> {0, 2, 4}
    then sorted_wrt (entry_le X (c div 2)) (fst (sort_file_entries X es c)) \<and>
         fst (sort_file_entries X es (c + 1)) = rev (fst (sort_file_entries X es c)) \<and>
         filter (\<lambda>b. entry_le X (c div 2) e b \<and> entry_le X (c div 2) b e) (fst (sort_file_entries X es c))
           = filter (\<lambda>b. entry_le X (c div 2) e b \<and> entry_le X (c div 2) b e) es \<and>
         ([sa_name, sa_last_modified, sa_size] ! (c div 2)) (snd (sort_file_entries X es c)) = show_nat (c + 1) \<and>
         ([sa_name, sa_last_modified, sa_size] ! (c div 2)) (snd (sort_file_entries X es (c + 1))) = show_nat c
    else (if c \<in> {1, 3, 5} then True else fst (sort_file_entries X es c) = es))"
proof -
  have "show_nat 0 = ''0''" "show_nat 1 = ''1''" "show_nat 2 = ''2''" "show_nat 3 = ''3''"
    "show_nat 4 = ''4''" "show_nat 5 = ''5''"
    by code_simp+
  then show ?thesis
    by (auto simp: sort_file_entries_def Let_def entry_order.sorted entry_order.stable)
qed

section \<open>What a listing shows\<close>

text \<open>An entry that may be shown: of the directory, and inside the root when it is a link.\<close>

definition entry_allowed :: "fs \<Rightarrow> dir_entry_opts \<Rightarrow> path \<Rightarrow> string \<times> inode \<Rightarrow> bool" where
  "entry_allowed F opt root_abs e =
     ((\<not> de_ignore_hidden opt \<or> \<not> name_is_hidden (fst e)) \<and>
      (is_dir_node (snd e) \<or> is_regular (snd e) \<or>
       is_symlink (snd e) \<and> \<not> de_disable_symlinks opt \<and>
         (case fs_canonicalize F (path_push (de_dir_path opt) (fst e)) of
            Inr q \<Rightarrow> path_starts_with q root_abs \<and> is_ok (fs_symlink_metadata F q) | Inl _ \<Rightarrow> False)))"

lemma entry_kind_allowed: "entry_kind F opt root_abs n nd \<noteq> None \<longleftrightarrow> entry_allowed F opt root_abs (n, nd)"
  by (auto simp: entry_kind_def entry_allowed_def symlink_entry_kind_def is_dir_node_def is_regular_def
      is_symlink_def split: sum.splits file_kind.splits if_splits)

lemma entries_loop_names:
  "entries_loop X F opt root_abs es d f acc = (d', f', r) \<Longrightarrow>
   map fe_name r = map fe_name acc @ map fst (filter (entry_allowed F opt root_abs) es) \<and>
   d' - d = length (filter fe_is_dir r) - length (filter fe_is_dir acc) \<and>
   d' + f' + length acc = d + f + length r \<and> d \<le> d' \<and>
   length (filter fe_is_dir acc) \<le> length (filter fe_is_dir r)"
proof (induction es arbitrary: d f acc)
  case (Cons e es)
  obtain n nd where e: "e = (n, nd)" by fastforce
  show ?case
  proof (cases "entry_kind F opt root_abs n nd")
    case None
    then have "\<not> entry_allowed F opt root_abs (n, nd)" using entry_kind_allowed by blast
    with Cons e None show ?thesis by auto
  next
    case (Some q)
    then have a: "entry_allowed F opt root_abs (n, nd)" using entry_kind_allowed by blast
    obtain t sz where q: "q = (t, sz)" by fastforce
    from Cons.prems e Some q have "entries_loop X F opt root_abs es
            (if t = Dir_Entry then d + 1 else d) (if t = File_Entry then f + 1 else f)
            (acc @ [\<lparr>fe_name = n, fe_mtime = nd_modified nd, fe_size = sz, fe_type = t,
                     fe_uri = entry_uri X (de_base_path opt) n t\<rparr>]) = (d', f', r)" by simp
    from Cons.IH [OF this] a e show ?thesis by (cases t) (auto simp: fe_is_dir_def)
  qed
qed simp

text \<open>C40. A listing shows exactly the entries of the directory that may be shown, in the order of the
  directory: a hidden name is left out when hidden files are ignored, a link is shown only when links
  are enabled and its target lies below the root, anything that is neither a directory, a file nor
  such a link is left out, and the two counts of the page add up to the entries.\<close>

theorem listing_shows_allowed_entries:
  "case entries_loop X F opt root_abs es 0 0 [] of (dirs, files, r) \<Rightarrow>
     map fe_name r = map fst (filter (entry_allowed F opt root_abs) es) \<and>
     dirs = length (filter fe_is_dir r) \<and> files = length (filter (\<lambda>e. \<not> fe_is_dir e) r)"
proof -
  obtain d f r where l: "entries_loop X F opt root_abs es 0 0 [] = (d, f, r)"
    by (metis prod_cases3)
  from entries_loop_names [OF l] sum_length_filter_compl [of fe_is_dir r]
  show ?thesis by (auto simp: l)
qed

section \<open>What an archive holds\<close>

definition fs_tree :: "fs \<Rightarrow> bool" where
  "fs_tree F = (distinct (map fst (fs_nodes F)) \<and>
     list_all (\<lambda>(ns, nd). list_all is_normal_name ns) (fs_nodes F))"

text \<open>The number of nodes strictly below a place.\<close>

definition below_count :: "fs \<Rightarrow> names \<Rightarrow> nat" where
  "below_count F ns = length (filter (\<lambda>ms. strict_prefix ns ms) (map fst (fs_nodes F)))"

lemma read_dir_entry:
  assumes "fs_tree F" "fs_read_dir F p = Inr (es, e)" "resolve F p = Inr ns" "(n, nd) \<in> set es"
  shows "is_normal_name n" "fs_lookup F (ns @ [n]) = Some nd" "(ns @ [n], nd) \<in> set (fs_nodes F)"
proof -
  from assms obtain ms where ms: "(ms, nd) \<in> set (fs_nodes F)" "ms \<noteq> []" "butlast ms = ns" "n = last ms"
    by (auto simp: fs_read_dir_def List.map_filter_def split: sum.splits if_splits)
  then have k: "ms = ns @ [n]" using append_butlast_last_id by metis
  from assms(1) ms(1) k show "is_normal_name n" by (auto simp: fs_tree_def list_all_iff)
  from assms(1) ms(1) k show "fs_lookup F (ns @ [n]) = Some nd"
    by (simp add: fs_lookup_def fs_tree_def)
  from ms(1) k show "(ns @ [n], nd) \<in> set (fs_nodes F)" by simp
qed

lemma resolve_entry:
  assumes "is_normal_name n" "resolve F p = Inr ns" "is_dir_at F ns" "fs_lookup F (ns @ [n]) = Some nd"
  shows "resolve_with False F (path_push p n) = Inr (ns @ [n])"
    "\<not> is_symlink nd \<Longrightarrow> resolve F (path_push p n) = Inr (ns @ [n])"
proof -
  have ne: "p \<noteq> []" "path_push p n \<noteq> []"
    using assms(1,2) by (auto simp: resolve_with_def path_push_def is_normal_name_def split: if_splits)
  obtain k where w: "walk max_symlinks F True (fs_cwd F) (os_steps p) = Inr (k, ns)"
    using ne assms(2) by (auto simp: resolve_with_def res_bind_Inr_iff)
  have st: "walk max_symlinks F fl (fs_cwd F) (os_steps (path_push p n)) = walk k F fl ns [Normal n]" for fl
    using w by (simp add: os_steps_push [OF assms(1)] walk_append)
  show "resolve_with False F (path_push p n) = Inr (ns @ [n])"
    using ne st [of False] assms(3,4) by (auto simp: resolve_with_def walk.simps(2) split: file_kind.split)
  show "\<not> is_symlink nd \<Longrightarrow> resolve F (path_push p n) = Inr (ns @ [n])"
    using ne st [of True] assms(3,4)
    by (auto simp: resolve_with_def walk.simps(2) is_symlink_def split: file_kind.split)
qed

lemma prefix_count_le:
  assumes "distinct ks"
  shows "(\<Sum>n\<leftarrow>ks. length (filter (prefix (ns @ [n])) xs)) \<le> length (filter (strict_prefix ns) xs)"
proof (induction xs)
  case (Cons x xs)
  have one: "(\<Sum>n\<leftarrow>ks. if prefix (ns @ [n]) x then 1 else 0) \<le> (if strict_prefix ns x then 1 else (0::nat))"
    using assms
  proof (induction ks)
    case (Cons k ks)
    show ?case
    proof (cases "prefix (ns @ [k]) x")
      case True
      then have "\<not> prefix (ns @ [n]) x" if "n \<in> set ks" for n
        using that Cons.prems by (auto simp: prefix_def)
      then have "(\<Sum>n\<leftarrow>ks. if prefix (ns @ [n]) x then 1 else 0) = (0::nat)"
        by (induction ks) auto
      moreover have "strict_prefix ns x" using True by (auto simp: prefix_def strict_prefix_def)
      ultimately show ?thesis using True by simp
    qed (use Cons in simp)
  qed simp
  have "(\<Sum>n\<leftarrow>ks. length (filter (prefix (ns @ [n])) (x # xs)))
      = (\<Sum>n\<leftarrow>ks. if prefix (ns @ [n]) x then 1 else 0) + (\<Sum>n\<leftarrow>ks. length (filter (prefix (ns @ [n])) xs))"
    unfolding sum_list_addf [symmetric] by (intro arg_cong [of _ _ sum_list]) simp
  also have "\<dots> \<le> (if strict_prefix ns x then 1 else 0) + length (filter (strict_prefix ns) xs)"
    using one Cons.IH by (rule add_mono)
  also have "\<dots> = length (filter (strict_prefix ns) (x # xs))" by simp
  finally show ?case .
qed simp

lemma prefix_count_member:
  assumes "distinct xs" "m \<in> set xs"
  shows "length (filter (prefix m) xs) = Suc (length (filter (strict_prefix m) xs))"
  using assms
proof (induction xs)
  case (Cons x xs)
  show ?case
  proof (cases "x = m")
    case True
    with Cons.prems have "filter (prefix m) xs = filter (strict_prefix m) xs"
      by (intro filter_cong) (auto simp: strict_prefix_def)
    with True show ?thesis by simp
  next
    case False
    with Cons show ?thesis by (auto simp: strict_prefix_def)
  qed
qed simp

lemma distinct_mapI: "distinct (map f xs) \<Longrightarrow> distinct xs"
  by (simp add: distinct_map)

lemma read_dir_keys:
  assumes "fs_read_dir F p = Inr (es, e)" "resolve F p = Inr ns"
  shows "map (\<lambda>(n, nd). ns @ [n]) es = filter (\<lambda>ms. ms \<noteq> [] \<and> butlast ms = ns) (map fst (fs_nodes F))"
proof -
  have "map (\<lambda>(n, nd). ns @ [n]) (List.map_filter
      (\<lambda>(ms, nd'). if ms \<noteq> [] \<and> butlast ms = ns then Some (last ms, nd') else None) xs)
      = filter (\<lambda>ms. ms \<noteq> [] \<and> butlast ms = ns) (map fst xs)" for xs :: "(names \<times> inode) list"
    by (induction xs) (auto simp: map_filter_simps)
  with assms show ?thesis by (auto simp: fs_read_dir_def split: sum.splits if_splits)
qed

definition item_ok :: "fs \<Rightarrow> path \<Rightarrow> names \<Rightarrow> bool \<Rightarrow> path \<times> bool \<times> bool \<Rightarrow> bool" where
  "item_ok F base ms ig q = (case q of (src, d, l) \<Rightarrow>
     \<exists>ns. src = fold (\<lambda>n p. path_push p n) ns base \<and> list_all is_normal_name ns \<and>
       (if ig then list_all (\<lambda>n. \<not> name_is_hidden n) ns else True) \<and>
       resolve_with False F src = Inr (ms @ ns) \<and>
       (if d then resolve F src = Inr (ms @ ns) else True))"

definition item_weight :: "fs \<Rightarrow> path \<times> bool \<times> bool \<Rightarrow> nat" where
  "item_weight F q = (case q of (src, d, l) \<Rightarrow>
     if d then (case resolve F src of Inr ns \<Rightarrow> Suc (below_count F ns) | Inl _ \<Rightarrow> 1) else 1)"

lemma archive_push_ok:
  assumes "fs_tree F" "item_ok F base ms ig (src, True, l)" "fs_read_dir F src = Inr (es, e)"
  shows "\<forall>q \<in> set (archive_push ig src es). item_ok F base ms ig q"
proof
  fix q assume "q \<in> set (archive_push ig src es)"
  then obtain n nd where n: "(n, nd) \<in> set es" "\<not> (ig \<and> name_is_hidden n)"
    "q = (path_push src n, is_dir_node nd, is_symlink nd)"
    by (auto simp: archive_push_def)
  from assms(2) obtain ns where ns: "src = fold (\<lambda>n p. path_push p n) ns base" "list_all is_normal_name ns"
    "if ig then list_all (\<lambda>n. \<not> name_is_hidden n) ns else True" "resolve F src = Inr (ms @ ns)"
    by (auto simp: item_ok_def)
  have dir: "is_dir_at F (ms @ ns)"
    using assms(3) ns(4)
    by (auto simp: fs_read_dir_def fs_open_def fs_metadata_def stat_with_def is_dir_at_def
        split: sum.splits if_splits option.splits fs_error.splits)
  note r = read_dir_entry [OF assms(1,3) ns(4) n(1)]
  have "\<not> is_symlink nd" if "is_dir_node nd" using that by (simp add: is_dir_node_def is_symlink_def)
  with resolve_entry [OF r(1) ns(4) dir r(2)] ns n r(1)
  show "item_ok F base ms ig q"
    by (auto simp: item_ok_def intro!: exI [of _ "ns @ [n]"])
qed

lemma archive_push_weight:
  assumes "fs_tree F" "item_ok F base ms ig (src, True, l)" "fs_read_dir F src = Inr (es, e)"
  shows "sum_list (map (item_weight F) (archive_push ig src es)) < item_weight F (src, True, l)"
proof -
  from assms(2) obtain ns where ns: "resolve F src = Inr ns" by (auto simp: item_ok_def)
  let ?keys = "map fst (fs_nodes F)"
  have dir: "is_dir_at F ns"
    using assms(3) ns
    by (auto simp: fs_read_dir_def fs_open_def fs_metadata_def stat_with_def is_dir_at_def
        split: sum.splits if_splits option.splits fs_error.splits)
  let ?w = "\<lambda>(n, nd). item_weight F (path_push src n, is_dir_node nd, is_symlink nd)"
  have one: "?w (n, nd) \<le> length (filter (prefix (ns @ [n])) ?keys)" if "(n, nd) \<in> set es" for n nd
  proof -
    note r = read_dir_entry [OF assms(1,3) ns that]
    have "length (filter (prefix (ns @ [n])) ?keys) = Suc (below_count F (ns @ [n]))"
      unfolding below_count_def using assms(1) r(3)
      by (intro prefix_count_member) (force simp: fs_tree_def)+
    with resolve_entry(2) [OF r(1) ns dir r(2)] show ?thesis
      by (auto simp: item_weight_def is_dir_node_def is_symlink_def split: sum.split)
  qed
  have d: "distinct (map fst es)"
  proof -
    have "distinct (map (\<lambda>(n, nd). ns @ [n]) es)"
      unfolding read_dir_keys [OF assms(3) ns] using assms(1) by (simp add: fs_tree_def)
    then have "distinct (map (\<lambda>n. ns @ [n]) (map fst es))" by (simp add: comp_def case_prod_unfold)
    then show ?thesis by (rule distinct_mapI)
  qed
  have "sum_list (map (item_weight F) (archive_push ig src es))
      = (\<Sum>x\<leftarrow>filter (\<lambda>(n, nd). \<not> (ig \<and> name_is_hidden n)) es. ?w x)"
    by (simp add: archive_push_def rev_map [symmetric] comp_def case_prod_unfold)
  also have "\<dots> \<le> (\<Sum>x\<leftarrow>es. ?w x)" by (induction es) auto
  also have "\<dots> \<le> (\<Sum>x\<leftarrow>es. length (filter (prefix (ns @ [fst x])) ?keys))"
    using one by (intro sum_list_mono) auto
  also have "\<dots> = (\<Sum>n\<leftarrow>map fst es. length (filter (prefix (ns @ [n])) ?keys))" by (simp add: comp_def)
  also have "\<dots> \<le> below_count F ns" unfolding below_count_def by (rule prefix_count_le [OF d])
  finally show ?thesis using ns by (simp add: item_weight_def)
qed

lemma item_weight_pos: "item_weight F q \<noteq> 0"
  by (auto simp: item_weight_def split: prod.split sum.split)

lemma archive_loop_no_follow:
  assumes "fs_tree F"
  shows "\<forall>q \<in> set stack. item_ok F base ms ig q \<Longrightarrow> sum_list (map (item_weight F) stack) \<le> fuel \<Longrightarrow>
    \<exists>ops ok. archive_loop X F name base False ig fuel stack = Some (ops, ok) \<and>
      (\<forall>op \<in> set ops. item_ok F base ms ig (tar_src op, False, False))"
proof (induction fuel arbitrary: stack)
  case 0
  have "stack = []"
  proof (cases stack)
    case (Cons q rest)
    with 0 item_weight_pos [of F q] show ?thesis by simp
  qed simp
  then show ?case by (intro exI [of _ "[]"] exI [of _ True]) simp
next
  case (Suc fuel)
  show ?case
  proof (cases stack)
    case (Cons q rest)
    obtain src d l where q: "q = (src, d, l)" by (cases q)
    from Suc.prems(1) Cons q have ok: "item_ok F base ms ig (src, d, l)" by simp
    then have ok': "item_ok F base ms ig (src, False, False)" by (auto simp: item_ok_def)
    from ok obtain rel where rel: "path_strip_prefix src base = Some rel"
      by (auto simp: item_ok_def path_strip_prefix_def path_starts_with_def components_push_names list_all_iff)
    show ?thesis
    proof (cases "\<exists>es. d \<and> fs_read_dir F src = Inr (es, None)")
      case True
      then obtain es where es: "d" "fs_read_dir F src = Inr (es, None)" by blast
      let ?st = "archive_push ig src es @ rest"
      from ok es have push: "\<forall>q \<in> set (archive_push ig src es). item_ok F base ms ig q"
        "sum_list (map (item_weight F) (archive_push ig src es)) < item_weight F (src, d, l)"
        using archive_push_ok [OF assms] archive_push_weight [OF assms] by auto
      with Suc.prems Cons q have "\<forall>q \<in> set ?st. item_ok F base ms ig q"
        "sum_list (map (item_weight F) ?st) \<le> fuel" by auto
      from Suc.IH [OF this] Cons q rel es ok' show ?thesis by (auto simp: Let_def)
    next
      case False
      have "\<forall>q \<in> set rest. item_ok F base ms ig q" "sum_list (map (item_weight F) rest) \<le> fuel"
        using Suc.prems Cons q item_weight_pos [of F q] by auto
      from Suc.IH [OF this] Cons q rel False ok' show ?thesis
        by (cases "fs_read_dir F src") (auto simp: Let_def split: option.splits)
    qed
  next
    case Nil
    then show ?thesis by (intro exI [of _ "[]"] exI [of _ True]) simp
  qed
qed

text \<open>C33. Without links, the archive of a directory is finished by the work loop after at most one step per
  node of the file system, and every operation on the archive reads a place that is reached from the
  directory by plain names and without following any link, none of them hidden when hidden
  files are ignored.\<close>

theorem archive_without_links_contained:
  assumes "fs_tree F" "resolve F src = Inr ms" "resolve_with False F src = Inr ms"
    and "length (fs_nodes F) < fuel"
  shows "\<exists>ops ok. archive X F fuel name src False ig = Some (ops, ok) \<and>
    list_all (\<lambda>op. \<exists>ns. tar_src op = fold (\<lambda>n p. path_push p n) ns src \<and> list_all is_normal_name ns \<and>
       (if ig then list_all (\<lambda>n. \<not> name_is_hidden n) ns else True) \<and>
       resolve_with False F (tar_src op) = Inr (ms @ ns)) ops"
proof -
  have "item_ok F src ms ig (src, True, False)"
    using assms(2,3) by (auto simp: item_ok_def intro: exI [of _ "[]"])
  moreover have "below_count F ms \<le> length (fs_nodes F)"
    unfolding below_count_def by (rule order_trans [OF length_filter_le]) simp
  ultimately have "\<forall>q \<in> set [(src, True, False)]. item_ok F src ms ig q"
    "sum_list (map (item_weight F) [(src, True, False)]) \<le> fuel"
    using assms(2,4) by (auto simp: item_weight_def)
  from archive_loop_no_follow [OF assms(1) this, of X name] show ?thesis
    by (auto simp: archive_def list_all_iff item_ok_def)
qed

definition demo_link_fs :: fs where
  "demo_link_fs = \<lparr>fs_nodes =
     [([''srv''], root_inode), ([''srv'', ''a''], root_inode\<lparr>nd_kind := Regular ''hello''\<rparr>),
      ([''srv'', ''out''], root_inode\<lparr>nd_kind := Symlink ''/etc''\<rparr>),
      ([''etc''], root_inode), ([''etc'', ''passwd''], root_inode\<lparr>nd_kind := Regular ''root''\<rparr>)],
     fs_cwd = []\<rparr>"

lemma demo_link_fs_places:
  "resolve_with fl demo_link_fs ''/srv'' = Inr [''srv'']" "fs_tree demo_link_fs"
  "resolve_with fl demo_link_fs ''/srv/out/passwd'' = Inr [''etc'', ''passwd'']"
  "fs_canonicalize demo_link_fs ''/srv/out'' = Inr ''/etc''"
  by (simp_all add: walk_eval demo_link_fs_def fs_tree_def is_normal_name_def abs_path_def)

theorem archive_without_links_contained_witness:
  "\<exists>ops ok. archive demo_ext demo_link_fs 6 ''srv'' ''/srv'' False True = Some (ops, ok)"
  using archive_without_links_contained [of demo_link_fs "''/srv''" "[''srv'']" 6 demo_ext "''srv''" True]
    demo_link_fs_places
  by (auto simp: demo_link_fs_def)

text \<open>With links enabled, the archive of a directory leaves the root: a link to a directory outside is
  followed and the files behind it are put into the archive, although the listing of the same directory
  leaves the link out because its target is outside the root.\<close>

theorem archive_follows_links_outside:
  "(case archive demo_ext demo_link_fs 10 ''srv'' ''/srv'' True False of
      Some (ops, ok) \<Rightarrow> ok \<and> Tar_Item ''srv/out/passwd'' ''/srv/out/passwd'' \<in> set ops
    | None \<Rightarrow> False) \<and>
   resolve demo_link_fs ''/srv/out/passwd'' = Inr [''etc'', ''passwd''] \<and>
   \<not> entry_allowed demo_link_fs
      (dir_entry_opts_of \<lparr>dl_root_path = ''/srv'', dl_method = ''GET'', dl_current_path = ''/'', dl_uri_query = None,
         dl_filepath = ''/srv/index.html'', dl_order = 6, dl_format = DirList_Html, dl_download = [Targz],
         dl_ignore_hidden = False, dl_disable_symlinks = False\<rparr> ([], None))
      ''/srv'' (''out'', root_inode\<lparr>nd_kind := Symlink ''/etc''\<rparr>)"
proof -
  have parent: "listing_parent ''/srv/index.html'' = ''/srv''" by code_simp
  have outside: "\<not> path_starts_with ''/etc'' ''/srv''" by code_simp
  have dirs: "fs_read_dir demo_link_fs ''/srv'' = Inr ([(''a'', root_inode\<lparr>nd_kind := Regular ''hello''\<rparr>),
      (''out'', root_inode\<lparr>nd_kind := Symlink ''/etc''\<rparr>)], None)"
    "fs_read_dir demo_link_fs ''/srv/out'' = Inr ([(''passwd'', root_inode\<lparr>nd_kind := Regular ''root''\<rparr>)], None)"
    "fs_is_dir demo_link_fs ''/srv/out''"
    by (simp_all add: fs_read_dir_def fs_open_def fs_is_dir_def walk_eval demo_link_fs_def map_filter_simps)
  have rel: "path_strip_prefix ''/srv'' ''/srv'' = Some []" "path_strip_prefix ''/srv/a'' ''/srv'' = Some ''a''"
    "path_strip_prefix ''/srv/out'' ''/srv'' = Some ''out''"
    "path_strip_prefix ''/srv/out/passwd'' ''/srv'' = Some ''out/passwd''"
    by code_simp+
  have push: "path_push ''srv'' [] = ''srv/''" "path_push ''srv'' ''a'' = ''srv/a''" "path_push ''srv'' ''out'' = ''srv/out''"
    "path_push ''srv'' ''out/passwd'' = ''srv/out/passwd''" "path_push ''/srv'' ''a'' = ''/srv/a''"
    "path_push ''/srv'' ''out'' = ''/srv/out''" "path_push ''/srv/out'' ''passwd'' = ''/srv/out/passwd''"
    by code_simp+
  have "archive_loop demo_ext demo_link_fs ''srv'' ''/srv'' True False (Suc (Suc (Suc (Suc n)))) [(''/srv'', True, False)] =
      Some ([Tar_Dir ''srv/'' ''/srv'', Tar_Dir ''srv/out'' ''/srv/out'', Tar_Item ''srv/out/passwd'' ''/srv/out/passwd'',
        Tar_Item ''srv/a'' ''/srv/a''], True)" for n
    by (simp add: Let_def rel push dirs archive_push_def is_dir_node_def is_symlink_def root_inode_def)
  from this [of 6] have "archive demo_ext demo_link_fs 10 ''srv'' ''/srv'' True False = Some ([Tar_Dir ''srv/'' ''/srv'',
      Tar_Dir ''srv/out'' ''/srv/out'', Tar_Item ''srv/out/passwd'' ''/srv/out/passwd'', Tar_Item ''srv/a'' ''/srv/a''], True)"
    by (simp add: archive_def eval_nat_numeral)
  then show ?thesis
    using demo_link_fs_places outside
    by (simp add: entry_allowed_def dir_entry_opts_of_def parent push is_dir_node_def is_regular_def
        is_symlink_def root_inode_def)
qed

end
