(* ===== verification/Mem_Cache.thy ===== *)
theory Mem_Cache
  imports Opts
begin

text \<open>
  The in-memory file cache (\<open>src/mem_cache/\<close>): the store, the stream that fills it while a file
  is being sent, and the answers served from it. The store is a map from the path text to the
  cached file; the library's eviction may drop any entry at any time, so it is a step of the
  transition system and not a function.
\<close>

section \<open>The store\<close>

record mem_file =
  mf_data :: string
  mf_buf_size :: nat
  mf_content_type :: string
  mf_last_modified :: "date option"

type_synonym mem_store = "string \<rightharpoonup> mem_file"

definition mem_file_new :: "string \<Rightarrow> nat \<Rightarrow> string \<Rightarrow> date option \<Rightarrow> mem_file" where
  "mem_file_new data bufsz content_type last_modified =
     \<lparr>mf_data = data, mf_buf_size = bufsz, mf_content_type = content_type, mf_last_modified = last_modified\<rparr>"

text \<open>The store with the limits it was built with; it can be set once.\<close>

record mem_cache_state =
  mcst_capacity :: u64
  mcst_ttl :: u64
  mcst_tti :: u64
  mcst_store :: mem_store

definition or_default :: "'a option \<Rightarrow> 'a \<Rightarrow> 'a" where
  "or_default v d = (case v of Some a \<Rightarrow> a | None \<Rightarrow> d)"

definition mem_cache_init ::
  "handler_opts \<Rightarrow> mem_cache_state option \<Rightarrow> (handler_opts \<times> mem_cache_state option) res" where
  "mem_cache_init opts cell =
     (case Option.bind (advanced_opts opts) ad_memory_cache of
        None \<Rightarrow> Inr (opts, cell)
      | Some m \<Rightarrow>
          (let cache = \<lparr>mcst_capacity = or_default (mcs_capacity m) 256, mcst_ttl = or_default (mcs_ttl m) 3600,
                        mcst_tti = or_default (mcs_tti m) 300, mcst_store = Map.empty\<rparr>;
               mem_opts = mem_cache_opts_new (or_default (mcs_max_file_size m) 8192)
           in if cell \<noteq> None then Inl ''unable to initialize the in-memory cache store''
              else Inr (opts\<lparr>memory_cache := Some mem_opts\<rparr>, Some cache)))"

section \<open>Answers from the store\<close>

definition mem_file_response_body :: "ext \<Rightarrow> mem_file \<Rightarrow> headers \<Rightarrow> nat + response" where
  "mem_file_response_body X mf h =
     (case conditional_check X (conditional_headers_new X h) (mf_last_modified mf) of
        NoBody resp \<Rightarrow> Inr resp
      | WithBody rg \<Rightarrow>
          (let len = of_nat (length (mf_data mf)) :: u64
           in case bytes_range rg len of
                Inl _ \<Rightarrow> Inr (unsatisfied_response len)
              | Inr (first, stop) \<Rightarrow>
                  (let reader = cursor_reader (mf_data mf) (unat first) (unat (stop - first));
                       b = File_Body \<lparr>st_reader = reader, st_buf_size = mf_buf_size mf\<rparr>
                   in Inr (range_response X b first stop len (mf_content_type mf) (mf_last_modified mf)))))"

text \<open>
  \<open>get_or_acquire\<close>: a hit answers at once; a miss takes and drops the permit (the guard is a
  temporary of the condition) and lets the file server go on. The permit can only fail when the
  semaphore has been closed.
\<close>

definition get_or_acquire ::
  "ext \<Rightarrow> mem_store \<Rightarrow> bool \<Rightarrow> path \<Rightarrow> headers \<Rightarrow> (nat + response) option" where
  "get_or_acquire X store permit_closed p h =
     (case path_to_str p of
        None \<Rightarrow> None
      | Some s \<Rightarrow>
          (case store s of
             Some mf \<Rightarrow> Some (mem_file_response_body X mf h)
           | None \<Rightarrow> if permit_closed then Some (Inl 500) else None))"

section \<open>The stream that fills the store\<close>

definition bytes_mut_put :: "ext \<Rightarrow> bytes_mut \<Rightarrow> string \<Rightarrow> bytes_mut" where
  "bytes_mut_put X b bs =
     (let n = length (bm_data b) + length bs
      in \<lparr>bm_data = bm_data b @ bs,
          bm_capacity = (if n \<le> bm_capacity b then bm_capacity b else x_bytes_grow X (bm_capacity b) n)\<rparr>)"

text \<open>The bookkeeping after a chunk has been read.\<close>

definition mem_stream_record :: "ext \<Rightarrow> mem_cache_stream \<Rightarrow> string \<Rightarrow> mem_store \<Rightarrow> mem_cache_stream \<times> mem_store" where
  "mem_stream_record X s bs store =
     (case (ms_mem_opts s, ms_mem_buf s) of
        (Some mem_opts, Some buf) \<Rightarrow>
          (let buf' = bytes_mut_put X buf bs
           in if length (bm_data buf') = bm_capacity buf'
              then (s\<lparr>ms_mem_buf := None\<rparr>,
                    store(mt_file_path mem_opts \<mapsto>
                      mem_file_new (bm_data buf') (ms_buf_size s) (mt_content_type mem_opts)
                        (mt_last_modified mem_opts)))
              else (s\<lparr>ms_mem_buf := Some buf'\<rparr>, store))
      | _ \<Rightarrow> (s, store))"

definition mem_poll_next ::
  "ext \<Rightarrow> mem_cache_stream \<Rightarrow> mem_store \<Rightarrow> poll_item \<times> mem_cache_stream \<times> mem_store" where
  "mem_poll_next X s store =
     (case take_read (ms_buf_size s) (ms_reader s) of
        (Inl e, r) \<Rightarrow> (Fail e, s\<lparr>ms_reader := r\<rparr>, store)
      | (Inr bs, r) \<Rightarrow>
          (if bs = [] then (Finished, s\<lparr>ms_reader := r\<rparr>, store)
           else let (s', store') = mem_stream_record X (s\<lparr>ms_reader := r\<rparr>) bs store
                in (Item bs, s', store')))"

fun mem_drain :: "ext \<Rightarrow> nat \<Rightarrow> mem_cache_stream \<Rightarrow> mem_store \<Rightarrow> (string list \<times> io_error option \<times> mem_store) option" where
  "mem_drain X 0 s store = None"
| "mem_drain X (Suc fuel) s store =
     (case mem_poll_next X s store of
        (Finished, s', store') \<Rightarrow> Some ([], None, store')
      | (Fail e, s', store') \<Rightarrow> Some ([], Some e, store')
      | (Item bs, s', store') \<Rightarrow>
          map_option (\<lambda>(cs, e, st). (bs # cs, e, st)) (mem_drain X fuel s' store'))"

declare mem_drain.simps(2) [simp del]

section \<open>The stream sends what the plain stream sends\<close>

definition plain_stream :: "mem_cache_stream \<Rightarrow> take_reader file_stream" where
  "plain_stream s = \<lparr>st_reader = ms_reader s, st_buf_size = ms_buf_size s\<rparr>"

lemma mem_stream_record_reader [simp]:
  "ms_reader (fst (mem_stream_record X s bs st)) = ms_reader s"
  "ms_buf_size (fst (mem_stream_record X s bs st)) = ms_buf_size s"
  "ms_mem_opts (fst (mem_stream_record X s bs st)) = ms_mem_opts s"
  by (auto simp: mem_stream_record_def Let_def split: option.split)

lemma mem_poll_refines:
  "mem_poll_next X s st = (it, s', st') \<Longrightarrow> poll_next take_read (plain_stream s) = (it, plain_stream s')"
  by (auto simp: mem_poll_next_def poll_next_def plain_stream_def split: prod.splits sum.splits if_splits)
    (metis fst_conv mem_stream_record_reader(1,2) mem_cache_stream.select_convs(1,2) mem_cache_stream.surjective mem_cache_stream.update_convs(1))+

lemma mem_drain_refines:
  "map_option (\<lambda>(cs, e, st'). (cs, e)) (mem_drain X fuel s st) = drain take_read fuel (plain_stream s)"
proof (induction fuel arbitrary: s st)
  case (Suc fuel)
  obtain it s' st' where p: "mem_poll_next X s st = (it, s', st')" by (metis prod_cases3)
  note q = mem_poll_refines [OF p]
  show ?case
  proof (cases it)
    case (Item bs)
    show ?thesis
      using p q Item
      by (simp add: mem_drain.simps(2) drain.simps(2) Suc.IH [of s' st', symmetric] option.map_comp
          comp_def case_prod_unfold)
  qed (use p q in \<open>auto simp: mem_drain.simps(2) drain.simps(2)\<close>)
qed simp

section \<open>What the store holds\<close>

text \<open>
  A stream in progress: either what it has collected followed by what it can still read is a part of
  the file of its path, and the collecting buffer has room for the whole file; or it can never fill
  the buffer.
\<close>

definition stream_ok :: "ext \<Rightarrow> fs \<Rightarrow> mem_cache_stream \<Rightarrow> bool" where
  "stream_ok X F s =
     (case (ms_mem_opts s, ms_mem_buf s) of
        (Some o1, Some b) \<Rightarrow>
          (\<exists>nd a. fs_open F (mt_file_path o1) = Inr nd \<and> length (nd_content nd) \<le> bm_capacity b \<and>
             prefix (bm_data b @ take_bytes (ms_reader s)) (drop a (nd_content nd)) \<and>
             mt_content_type o1 = x_mime_from_path X (mt_file_path o1) \<and>
             mt_last_modified o1 = meta_modified X nd) \<or>
          length (bm_data b) + length (take_bytes (ms_reader s)) < bm_capacity b
      | _ \<Rightarrow> True)"

definition entry_ok :: "ext \<Rightarrow> fs \<Rightarrow> string \<Rightarrow> mem_file \<Rightarrow> bool" where
  "entry_ok X F k mf =
     (\<exists>nd. fs_open F k = Inr nd \<and> mf_data mf = nd_content nd \<and> mf_data mf \<noteq> [] \<and>
        mf_content_type mf = x_mime_from_path X k \<and> mf_last_modified mf = meta_modified X nd)"

text \<open>What a poll may do to the store: nothing, or one entry under the path of the stream.\<close>

definition entered :: "(string \<Rightarrow> mem_file \<Rightarrow> bool) \<Rightarrow> mem_cache_stream \<Rightarrow> mem_store \<Rightarrow> mem_store \<Rightarrow> bool" where
  "entered P s st st' =
     (st' = st \<or> (\<exists>o1 mf. ms_mem_opts s = Some o1 \<and> st' = st(mt_file_path o1 \<mapsto> mf) \<and> P (mt_file_path o1) mf))"

lemma entered_same [simp]: "entered P s st st"
  by (simp add: entered_def)

lemma entered_mono:
  assumes "entered P s st st'" "\<And>t mf. ms_mem_opts s = Some t \<Longrightarrow> P (mt_file_path t) mf \<Longrightarrow> Q (mt_file_path t) mf"
  shows "entered Q s st st'"
  using assms unfolding entered_def by blast

lemma stream_ok_reader:
  "stream_ok X F s \<Longrightarrow> take_bytes r = take_bytes (ms_reader s) \<Longrightarrow> stream_ok X F (s\<lparr>ms_reader := r\<rparr>)"
  by (auto simp: stream_ok_def split: option.splits)

lemma prefix_long: "prefix xs ys \<Longrightarrow> length ys \<le> length xs \<Longrightarrow> xs = ys"
  by (auto simp: prefix_def)

text \<open>The collecting step: the chunk is appended, and a full buffer is the whole file.\<close>

lemma mem_stream_record_ok:
  assumes ok: "stream_ok X F s" "take_bytes (ms_reader s) = bs @ take_bytes r"
    and rec: "mem_stream_record X (s\<lparr>ms_reader := r\<rparr>) bs st = (s', st')" and ne: "bs \<noteq> []"
  shows "stream_ok X F s' \<and> entered (entry_ok X F) s st st'"
proof (cases "ms_mem_opts s = None \<or> ms_mem_buf s = None")
  case True
  with rec ok show ?thesis by (auto simp: mem_stream_record_def stream_ok_def split: option.splits)
next
  case False
  then obtain o1 b where o1: "ms_mem_opts s = Some o1" and b: "ms_mem_buf s = Some b" by auto
  show ?thesis
  proof (cases "length (bm_data b) + length (take_bytes (ms_reader s)) < bm_capacity b")
    case True
    then have "bytes_mut_put X b bs = \<lparr>bm_data = bm_data b @ bs, bm_capacity = bm_capacity b\<rparr>"
      using ok(2) by (simp add: bytes_mut_put_def)
    with True rec o1 b ok(2) show ?thesis by (auto simp: mem_stream_record_def stream_ok_def)
  next
    case False
    with ok o1 b obtain nd a where nd: "fs_open F (mt_file_path o1) = Inr nd" "length (nd_content nd) \<le> bm_capacity b"
      and pre: "prefix (bm_data b @ bs @ take_bytes r) (drop a (nd_content nd))"
      and meta: "mt_content_type o1 = x_mime_from_path X (mt_file_path o1)" "mt_last_modified o1 = meta_modified X nd"
      by (auto simp: stream_ok_def)
    have len: "length (bm_data b) + length bs \<le> length (nd_content nd)"
      using prefix_length_le [OF pre] by simp
    have put: "bytes_mut_put X b bs = \<lparr>bm_data = bm_data b @ bs, bm_capacity = bm_capacity b\<rparr>"
      using len nd(2) by (simp add: bytes_mut_put_def)
    show ?thesis
    proof (cases "length (bm_data b @ bs) = bm_capacity b")
      case True
      with len nd(2) have full: "length (bm_data b @ bs) = length (nd_content nd)" by simp
      have "prefix (bm_data b @ bs) (drop a (nd_content nd))"
        using pre by (metis append_assoc append_prefixD)
      then have eq: "bm_data b @ bs = drop a (nd_content nd)" by (rule prefix_long) (use full in simp)
      with full have "length (nd_content nd) - a = length (nd_content nd)" by (metis length_drop)
      then have "nd_content nd = [] \<or> a = 0" by (cases "nd_content nd") auto
      with eq have "bm_data b @ bs = nd_content nd" by auto
      with rec o1 b put True nd meta ne show ?thesis
        by (auto simp: mem_stream_record_def stream_ok_def entry_ok_def entered_def mem_file_new_def split: if_splits)
    next
      case False
      with rec o1 b put nd pre meta show ?thesis by (auto simp: mem_stream_record_def stream_ok_def)
    qed
  qed
qed

lemma mem_poll_ok:
  assumes "mem_poll_next X s st = (it, s', st')" "stream_ok X F s"
  shows "stream_ok X F s' \<and> entered (entry_ok X F) s st st'"
proof (cases "take_read (ms_buf_size s) (ms_reader s)")
  case (Pair res r)
  show ?thesis
  proof (cases res)
    case (Inl e)
    with assms Pair stream_ok_reader [OF assms(2) taken.rd_err] show ?thesis
      by (auto simp: mem_poll_next_def)
  next
    case (Inr bs)
    with Pair have d: "take_bytes (ms_reader s) = bs @ take_bytes r" using taken.rd_data by auto
    show ?thesis
    proof (cases "bs = []")
      case True
      with assms Pair Inr d stream_ok_reader [OF assms(2), of r] show ?thesis by (auto simp: mem_poll_next_def)
    next
      case False
      obtain s2 st2 where r: "mem_stream_record X (s\<lparr>ms_reader := r\<rparr>) bs st = (s2, st2)" by fastforce
      with False assms(1) Pair Inr have "s' = s2" "st' = st2" by (auto simp: mem_poll_next_def)
      with mem_stream_record_ok [OF assms(2) d r False] show ?thesis by simp
    qed
  qed
qed

text \<open>A stream keeps the path that it collects for.\<close>

lemma mem_poll_path: "mem_poll_next X s st = (it, s', st') \<Longrightarrow> ms_mem_opts s' = ms_mem_opts s"
  by (auto simp: mem_poll_next_def split: prod.splits sum.splits if_splits)
    (metis fst_conv mem_stream_record_reader(3) mem_cache_stream.select_convs(3) mem_cache_stream.surjective mem_cache_stream.update_convs(1))

lemma mem_poll_entered: "mem_poll_next X s st = (it, s', st') \<Longrightarrow> entered (\<lambda>_ _. True) s st st'"
  by (auto simp: mem_poll_next_def mem_stream_record_def entered_def Let_def
      split: prod.splits sum.splits option.splits if_splits)

text \<open>
  What a stream has collected and can still read: a poll only drops from it, and what it enters is a
  part of it.
\<close>

definition collected :: "mem_cache_stream \<Rightarrow> string" where
  "collected s =
     (case (ms_mem_opts s, ms_mem_buf s) of (Some _, Some b) \<Rightarrow> bm_data b | _ \<Rightarrow> []) @ take_bytes (ms_reader s)"

lemma collected_reader:
  "take_bytes r = take_bytes (ms_reader s) \<Longrightarrow> collected (s\<lparr>ms_reader := r\<rparr>) = collected s"
  by (simp add: collected_def split: option.split)

lemma mem_stream_record_collects:
  assumes "mem_stream_record X (s\<lparr>ms_reader := r\<rparr>) bs st = (s', st')" "take_bytes (ms_reader s) = bs @ take_bytes r"
  shows "sublist (collected s') (collected s) \<and> entered (\<lambda>k mf. sublist (mf_data mf) (collected s)) s st st'"
proof (cases "ms_mem_opts s = None \<or> ms_mem_buf s = None")
  case True
  with assms show ?thesis
    by (auto simp: mem_stream_record_def collected_def split: option.splits)
next
  case False
  then obtain t b where t: "ms_mem_opts s = Some t" and b: "ms_mem_buf s = Some b" by auto
  have d: "bm_data (bytes_mut_put X b bs) = bm_data b @ bs" by (simp add: bytes_mut_put_def Let_def)
  have c: "collected s = (bm_data b @ bs) @ take_bytes r" using assms(2) t b by (simp add: collected_def)
  show ?thesis
  proof (cases "length (bm_data b @ bs) = bm_capacity (bytes_mut_put X b bs)")
    case True
    with assms(1) t b d have "s' = s\<lparr>ms_reader := r, ms_mem_buf := None\<rparr>"
      "st' = st(mt_file_path t \<mapsto> mem_file_new (bm_data b @ bs) (ms_buf_size s) (mt_content_type t) (mt_last_modified t))"
      by (auto simp: mem_stream_record_def Let_def)
    moreover have "sublist (take_bytes r) (collected s)" "sublist (bm_data b @ bs) (collected s)"
      unfolding c by (rule sublist_append_leftI sublist_append_rightI)+
    ultimately show ?thesis using t by (auto simp: collected_def entered_def mem_file_new_def)
  next
    case False
    with assms(1) t b d have "s' = s\<lparr>ms_reader := r, ms_mem_buf := Some (bytes_mut_put X b bs)\<rparr>" "st' = st"
      by (auto simp: mem_stream_record_def Let_def)
    with c d t show ?thesis by (simp add: collected_def)
  qed
qed

lemma mem_poll_collects:
  assumes "mem_poll_next X s st = (it, s', st')"
  shows "sublist (collected s') (collected s) \<and> entered (\<lambda>k mf. sublist (mf_data mf) (collected s)) s st st'"
proof (cases "take_read (ms_buf_size s) (ms_reader s)")
  case (Pair res r)
  show ?thesis
  proof (cases res)
    case (Inl e)
    with assms Pair taken.rd_err [of "ms_buf_size s" "ms_reader s" e r] show ?thesis
      by (auto simp: mem_poll_next_def collected_reader)
  next
    case (Inr bs)
    with Pair have d: "take_bytes (ms_reader s) = bs @ take_bytes r" using taken.rd_data by auto
    show ?thesis
    proof (cases "bs = []")
      case True
      with assms Pair Inr d show ?thesis by (auto simp: mem_poll_next_def collected_reader)
    next
      case False
      obtain s2 st2 where r: "mem_stream_record X (s\<lparr>ms_reader := r\<rparr>) bs st = (s2, st2)" by fastforce
      with False assms Pair Inr have "s' = s2" "st' = st2" by (auto simp: mem_poll_next_def)
      with mem_stream_record_collects [OF r d] show ?thesis by simp
    qed
  qed
qed

section \<open>The streams of file responses\<close>

definition small_files :: "fs \<Rightarrow> bool" where
  "small_files F = (\<forall>p nd. fs_metadata F p = Inr nd \<longrightarrow> length (nd_content nd) < 2 ^ 64 \<and> nd_len nd < 2 ^ 64)"

lemma range_response_body:
  "range_response X b a e n ct m = r \<Longrightarrow> rs_body r = b \<or> rs_body r = Empty_Body"
  using range_response_cases [of X b a e n ct m r] by auto

lemma response_body_stream:
  assumes "response_body X file p meta cond (Some opts) = Inr r" "rs_body r = Mem_Cache_Body s"
  shows "\<exists>a n. ms_reader s = open_reader (nd_content file) (nd_read_err file) a n \<and>
    ms_mem_opts s = Some \<lparr>mt_file_path = p, mt_content_type = x_mime_from_path X p, mt_last_modified = meta_modified X meta\<rparr> \<and>
    ms_mem_buf s = Some \<lparr>bm_data = [], bm_capacity = x_bytes_capacity X (unat (of_nat (nd_len meta) :: u64))\<rparr> \<and>
    \<not> seek_fails file"
proof -
  have nf: "\<not> seek_fails file"
    using assms
    by (auto simp: response_body_def Let_def unsatisfied_response_def empty_response_def conditional_check_def
        split: conditional_body.splits sum.splits if_splits option.splits)
  let ?len = "of_nat (nd_len meta) :: u64"
  from response_body_range_cases [OF assms(1) nf] show ?thesis
  proof (elim disjE exE conjE)
    assume "conditional_check X cond (meta_modified X meta) = NoBody r"
    with assms(2) show ?thesis
      by (auto simp: conditional_check_def empty_response_def split: if_splits option.splits)
  next
    fix rg a b
    assume "r = range_response X (file_body X p (open_reader (nd_content file) (nd_read_err file) (unat a) (unat (b - a)))
      (optimal_buf_size (nd_blksize meta) (nd_len meta)) ?len (x_mime_from_path X p) (meta_modified X meta) (Some opts))
      a b ?len (x_mime_from_path X p) (meta_modified X meta)"
    from range_response_body [OF this [symmetric]] assms(2) nf show ?thesis
      by (auto simp: file_body_def Let_def path_to_str_def split: if_splits option.splits)
  qed (use assms(2) in \<open>auto simp: unsatisfied_response_def empty_response_def\<close>)
qed

text \<open>A stream over the file of its path starts well, and so does one over a shorter file.\<close>

lemma stream_ok_start:
  assumes "response_body X file p meta cond (Some opts) = Inr r" "rs_body r = Mem_Cache_Body s"
    and "nd_len meta < 2 ^ 64" "\<And>n. x_bytes_capacity X n = n"
    and "fs_open F p = Inr file \<and> meta = file \<or> length (nd_content file) < nd_len meta"
  shows "stream_ok X F s"
proof -
  from response_body_stream [OF assms(1,2)] assms(3,4) obtain a n where s:
    "ms_reader s = open_reader (nd_content file) (nd_read_err file) a n"
    "ms_mem_opts s = Some \<lparr>mt_file_path = p, mt_content_type = x_mime_from_path X p, mt_last_modified = meta_modified X meta\<rparr>"
    "ms_mem_buf s = Some \<lparr>bm_data = [], bm_capacity = nd_len meta\<rparr>"
    by (auto simp: unat_u64)
  from assms(5) show ?thesis
  proof
    assume f: "fs_open F p = Inr file \<and> meta = file"
    then have "length (nd_content file) \<le> nd_len meta"
      by (auto simp: nd_len_def nd_content_def split: file_kind.splits)
    with s f show ?thesis
      by (auto simp: stream_ok_def take_bytes_open take_is_prefix intro!: exI [of _ a])
  next
    assume "length (nd_content file) < nd_len meta"
    moreover have "length (take_bytes (ms_reader s)) \<le> length (nd_content file)"
      using s(1) by (simp add: take_bytes_open)
    ultimately show ?thesis using s(2,3) by (simp add: stream_ok_def)
  qed
qed

lemma small_files_regular:
  "small_files F \<Longrightarrow> fs_open F p = Inr nd \<Longrightarrow> is_regular nd \<Longrightarrow>
   nd_len nd = length (nd_content nd) \<and> \<not> seek_fails nd"
  by (auto simp: nd_len_def nd_content_def is_regular_def seek_fails_def split: file_kind.splits)

lemma range_response_same:
  "rs_status (range_response X b1 a e n ct m) = rs_status (range_response X b2 a e n ct m) \<and>
   rs_headers (range_response X b1 a e n ct m) = rs_headers (range_response X b2 a e n ct m) \<and>
   (body_bytes b1 = body_bytes b2 \<longrightarrow>
    body_bytes (rs_body (range_response X b1 a e n ct m)) = body_bytes (rs_body (range_response X b2 a e n ct m)))"
  by (cases "x_content_range X a e n"; cases m) (auto simp: range_response_def Let_def)

lemma small_files_nodes:
  assumes "\<forall>(ns, nd) \<in> set (fs_nodes F). length (nd_content nd) < 2 ^ 64 \<and> nd_len nd < 2 ^ 64"
  shows "small_files F"
proof -
  have "length (nd_content nd) < 2 ^ 64 \<and> nd_len nd < 2 ^ 64" if "fs_metadata F p = Inr nd" for p nd
  proof -
    from that obtain ns where "fs_lookup F ns = Some nd"
      by (auto simp: fs_metadata_def stat_with_def res_bind_Inr_iff split: option.splits)
    then show ?thesis
      using assms map_of_SomeD [of "fs_nodes F" ns nd]
      by (auto simp: fs_lookup_def root_inode_def nd_content_def nd_len_def split: if_splits)
  qed
  then show ?thesis by (simp add: small_files_def)
qed

definition demo_mem_opts :: mem_cache_opts where
  "demo_mem_opts = \<lparr>mc_max_file_size = 100\<rparr>"

end
