(* ===== verification/Static_Files.thy ===== *)
theory Static_Files
  imports Dir_Listing Compression Mem_Cache
begin

text \<open>
  The file server (\<open>src/static_files.rs\<close>): from a request path to a file with its index files,
  \<open>.html\<close> suffix and pre-compressed variant (\<open>get_composed_file_metadata\<close>), and the handler
  with its containment, symbolic-link and hidden-file checks (\<open>handle\<close>, \<open>file_reply\<close>). A failure
  is the status code of the source.
\<close>

section \<open>Metadata of the requested file\<close>

record file_metadata =
  fm_file_path :: path
  fm_metadata :: inode
  fm_is_dir :: bool
  fm_precompressed :: "(path \<times> content_coding) option"

definition DEFAULT_INDEX_FILES :: "string list" where
  "DEFAULT_INDEX_FILES = [''index.html'']"

definition static_variant :: "ext \<Rightarrow> fs \<Rightarrow> bool \<Rightarrow> path \<Rightarrow> headers \<Rightarrow> compressed_file_variant option" where
  "static_variant X F enabled p h = (if enabled then precompressed_variant X F p h else None)"

definition variant_metadata :: "path \<Rightarrow> compressed_file_variant \<Rightarrow> file_metadata" where
  "variant_metadata p v =
     \<lparr>fm_file_path = p, fm_metadata = cv_metadata v, fm_is_dir = False,
      fm_precompressed = Some (cv_file_path v, cv_encoding v)\<rparr>"

text \<open>
  The loop over the index files with the path that it changes in place: an early return on the left,
  or the path, the metadata and whether an index file was found.
\<close>

fun index_loop ::
  "ext \<Rightarrow> fs \<Rightarrow> headers \<Rightarrow> bool \<Rightarrow> path \<Rightarrow> inode \<Rightarrow> string list \<Rightarrow> file_metadata + (path \<times> inode \<times> bool)" where
  "index_loop X F h cs p meta [] = Inr (p, meta, False)"
| "index_loop X F h cs p meta (index # rest) =
     (let p1 = path_push p index
      in case static_variant X F cs p1 h of
           Some v \<Rightarrow> Inl (variant_metadata p1 v)
         | None \<Rightarrow>
             (case try_metadata F p1 of
                Inr (m, _) \<Rightarrow> Inr (p1, m, True)
              | Inl _ \<Rightarrow>
                  (case try_metadata_with_html_suffix F (path_pop p1) of
                     (p2, Some m) \<Rightarrow> Inr (p2, m, True)
                   | (p2, None) \<Rightarrow> index_loop X F h cs p2 meta rest)))"

definition get_composed_file_metadata ::
  "ext \<Rightarrow> fs \<Rightarrow> path \<Rightarrow> headers \<Rightarrow> bool \<Rightarrow> string list \<Rightarrow> nat + file_metadata" where
  "get_composed_file_metadata X F p h cs ixs =
     (case try_metadata F p of
        Inr (meta, is_dir) \<Rightarrow>
          (let ifs = (if ixs = [] then DEFAULT_INDEX_FILES else ixs)
           in case (if is_dir then index_loop X F h cs p meta ifs else Inr (p, meta, True)) of
                Inl fm \<Rightarrow> Inr fm
              | Inr (p1, m, found) \<Rightarrow>
                  (let p2 = (if is_dir \<and> \<not> found \<and> ifs \<noteq> [] then path_push p1 (last ifs) else p1)
                   in Inr \<lparr>fm_file_path = p2, fm_metadata = m, fm_is_dir = is_dir,
                          fm_precompressed =
                            map_option (\<lambda>v. (cv_file_path v, cv_encoding v)) (static_variant X F cs p2 h)\<rparr>))
      | Inl err \<Rightarrow>
          (case static_variant X F cs p h of
             Some v \<Rightarrow> Inr (variant_metadata p v)
           | None \<Rightarrow>
               (case try_metadata_with_html_suffix F p of
                  (p1, Some m) \<Rightarrow>
                    Inr \<lparr>fm_file_path = p1, fm_metadata = m, fm_is_dir = False, fm_precompressed = None\<rparr>
                | (p1, None) \<Rightarrow>
                    (case static_variant X F cs p1 h of
                       Some v \<Rightarrow> Inr (variant_metadata p1 v)
                     | None \<Rightarrow> Inl err))))"

section \<open>The reply\<close>

definition file_reply ::
  "ext \<Rightarrow> fs \<Rightarrow> headers \<Rightarrow> path \<Rightarrow> inode \<Rightarrow> path option \<Rightarrow> mem_cache_opts option \<Rightarrow> nat + response" where
  "file_reply X F h p meta precompressed cache =
     (let conditionals = conditional_headers_new X h;
          file_path = (case precompressed of Some q \<Rightarrow> q | None \<Rightarrow> p)
      in case fs_open F file_path of
           Inr file \<Rightarrow> response_body X file p meta conditionals cache
         | Inl e \<Rightarrow> Inl (open_error_status e))"

record handle_opts =
  ho_method :: http_method
  ho_memory_cache :: "mem_cache_opts option"
  ho_headers :: headers
  ho_base_path :: path
  ho_uri_path :: string
  ho_index_files :: "string list"
  ho_uri_query :: "string option"
  ho_dir_listing :: bool
  ho_dir_listing_order :: nat
  ho_dir_listing_format :: dir_list_fmt
  ho_dir_listing_download :: "dir_download_fmt list"
  ho_redirect_trailing_slash :: bool
  ho_compression_static :: bool
  ho_ignore_hidden_files :: bool
  ho_disable_symlinks :: bool

text \<open>The path that the checks look at: a directory request is checked without its index file.\<close>

definition checked_path :: "file_metadata \<Rightarrow> path" where
  "checked_path fm = (if fm_is_dir fm then path_pop (fm_file_path fm) else fm_file_path fm)"

definition path_checks :: "fs \<Rightarrow> handle_opts \<Rightarrow> path \<Rightarrow> nat + unit" where
  "path_checks F o' p =
     (case path_strip_prefix p (ho_base_path o') of
        None \<Rightarrow> Inl 404
      | Some rel \<Rightarrow>
          (case (fs_canonicalize F p, fs_canonicalize F (ho_base_path o')) of
             (Inr resolved, Inr base) \<Rightarrow>
               if \<not> path_starts_with resolved base then Inl 404
               else if ho_disable_symlinks o'
               then (case contains_symlink F rel (ho_base_path o') of
                       Inl _ \<Rightarrow> Inl 404
                     | Inr True \<Rightarrow> Inl 403
                     | Inr False \<Rightarrow>
                         if ho_ignore_hidden_files o' \<and> is_hidden rel then Inl 404 else Inr ())
               else if ho_ignore_hidden_files o' \<and> is_hidden rel then Inl 404
               else Inr ()
           | _ \<Rightarrow> Inl 404))"

definition trailing_slash_redirect :: "ext \<Rightarrow> handle_opts \<Rightarrow> nat + response" where
  "trailing_slash_redirect X o' =
     (let query = (case ho_uri_query o' of Some s \<Rightarrow> [CHR 0x3F] @ s | None \<Rightarrow> [])
      in case x_header_value X (ho_uri_path o' @ ''/'' @ query) of
           Some loc \<Rightarrow> Inr ((rs_insert ''location'' loc (response_new Empty_Body))\<lparr>rs_status := 308\<rparr>)
         | None \<Rightarrow> Inl 500)"

definition options_response :: response where
  "options_response =
     rs_insert ''accept-ranges'' ''bytes''
       (rs_insert ''allow'' (join '', '' HTTP_SUPPORTED_METHODS)
         ((response_new Empty_Body)\<lparr>rs_status := 204\<rparr>))"

definition list_opts :: "handle_opts \<Rightarrow> path \<Rightarrow> dir_list_opts" where
  "list_opts o' p =
     \<lparr>dl_root_path = ho_base_path o', dl_method = ho_method o', dl_current_path = ho_uri_path o',
      dl_uri_query = ho_uri_query o', dl_filepath = p, dl_order = ho_dir_listing_order o',
      dl_format = ho_dir_listing_format o', dl_download = ho_dir_listing_download o',
      dl_ignore_hidden = ho_ignore_hidden_files o', dl_disable_symlinks = ho_disable_symlinks o'\<rparr>"

definition download_requested :: "ext \<Rightarrow> handle_opts \<Rightarrow> bool" where
  "download_requested X o' =
     (ho_dir_listing_download o' \<noteq> [] \<and>
      list_ex (\<lambda>(k, _). k = DOWNLOAD_PARAM_KEY)
        (x_form_parse X (case ho_uri_query o' of Some q \<Rightarrow> q | None \<Rightarrow> [])))"

definition directory_reply :: "ext \<Rightarrow> fs \<Rightarrow> handle_opts \<Rightarrow> path \<Rightarrow> nat + response" where
  "directory_reply X F o' p =
     (if download_requested X o'
      then (case path_file_name (path_pop p) of
              Some filename \<Rightarrow> Inr (archive_reply X filename (path_pop p) (ho_method o'))
            | None \<Rightarrow> Inl 500)
      else auto_index X F (list_opts o' p))"

definition precompressed_reply ::
  "ext \<Rightarrow> fs \<Rightarrow> handle_opts \<Rightarrow> file_metadata \<Rightarrow> path \<Rightarrow> content_coding \<Rightarrow> nat + response" where
  "precompressed_reply X F o' fm precomp_path enc =
     res_bind (file_reply X F (ho_headers o') (fm_file_path fm) (fm_metadata fm) (Some precomp_path)
                 (ho_memory_cache o'))
       (\<lambda>resp. case x_header_value X (coding_str enc) of
          Some v \<Rightarrow> Inr (rs_insert ''content-encoding'' v (rs_remove ''content-length'' resp))
        | None \<Rightarrow> Inl 500)"

text \<open>What follows the checks, in the order of the source.\<close>

definition checked_reply :: "ext \<Rightarrow> fs \<Rightarrow> handle_opts \<Rightarrow> file_metadata \<Rightarrow> nat + response" where
  "checked_reply X F o' fm =
     (if fm_is_dir fm \<and> ho_redirect_trailing_slash o' \<and> \<not> suffix ''/'' (ho_uri_path o')
      then trailing_slash_redirect X o'
      else if is_options (ho_method o') then Inr options_response
      else if fm_is_dir fm \<and> ho_dir_listing o' \<and> \<not> fs_exists F (fm_file_path fm)
      then directory_reply X F o' (fm_file_path fm)
      else case fm_precompressed fm of
             Some (q, enc) \<Rightarrow> precompressed_reply X F o' fm q enc
           | None \<Rightarrow> file_reply X F (ho_headers o') (fm_file_path fm) (fm_metadata fm) None (ho_memory_cache o'))"

definition cache_path :: "handle_opts \<Rightarrow> path \<Rightarrow> path" where
  "cache_path o' p =
     (if ho_memory_cache o' \<noteq> None \<and> ho_redirect_trailing_slash o' \<and> suffix ''/'' (ho_uri_path o')
      then path_push p ''index.html'' else p)"

definition handle ::
  "ext \<Rightarrow> fs \<Rightarrow> mem_store \<Rightarrow> bool \<Rightarrow> handle_opts \<Rightarrow> nat + (response \<times> path)" where
  "handle X F store permit_closed o' =
     (if \<not> is_allowed (ho_method o') then Inl 405
      else res_bind (sanitize_path X (ho_base_path o') (ho_uri_path o')) (\<lambda>p0.
        (let p = cache_path o' p0
         in case (if ho_memory_cache o' \<noteq> None then get_or_acquire X store permit_closed p (ho_headers o')
                  else None) of
              Some result \<Rightarrow> res_bind result (\<lambda>resp. Inr (resp, p))
            | None \<Rightarrow>
                res_bind (get_composed_file_metadata X F p (ho_headers o') (ho_compression_static o')
                            (ho_index_files o')) (\<lambda>fm.
                res_bind (path_checks F o' (checked_path fm)) (\<lambda>_.
                res_bind (checked_reply X F o' fm) (\<lambda>resp. Inr (resp, fm_file_path fm)))))))"

section \<open>Lemmas\<close>

lemma path_checks_ok:
  assumes "path_checks F o' p = Inr ()"
  obtains rel cp cb where "path_strip_prefix p (ho_base_path o') = Some rel"
    "fs_canonicalize F p = Inr cp" "fs_canonicalize F (ho_base_path o') = Inr cb"
    "path_starts_with cp cb"
    "ho_disable_symlinks o' \<Longrightarrow> contains_symlink F rel (ho_base_path o') = Inr False"
    "ho_ignore_hidden_files o' \<Longrightarrow> \<not> is_hidden rel"
  using assms by (auto simp: path_checks_def split: option.splits sum.splits if_splits bool.splits)

section \<open>Properties\<close>

lemma path_checks_resolved:
  assumes "fs_wf F" "path_checks F o' p = Inr ()"
  shows "\<exists>rel ms ns. path_strip_prefix p (ho_base_path o') = Some rel \<and>
    resolve F (ho_base_path o') = Inr ms \<and> resolve F p = Inr ns \<and> prefix ms ns \<and>
    (if ho_disable_symlinks o' then contains_symlink F rel (ho_base_path o') = Inr False else True) \<and>
    (if ho_ignore_hidden_files o' then \<not> is_hidden rel else True)"
proof -
  from path_checks_ok [OF assms(2)] obtain rel cp cb where c:
    "path_strip_prefix p (ho_base_path o') = Some rel"
    "fs_canonicalize F p = Inr cp" "fs_canonicalize F (ho_base_path o') = Inr cb"
    "path_starts_with cp cb"
    "ho_disable_symlinks o' \<Longrightarrow> contains_symlink F rel (ho_base_path o') = Inr False"
    "ho_ignore_hidden_files o' \<Longrightarrow> \<not> is_hidden rel" by metis
  from canonical_starts_with [OF assms(1) c(2,3)] c(4) obtain ns ms where
    "resolve F p = Inr ns" "resolve F (ho_base_path o') = Inr ms" "prefix ms ns" by auto
  with c(1,5,6) show ?thesis by auto
qed

text \<open>A directory requested without a trailing slash is redirected permanently to the same target with
  the slash and its query, when the redirect is enabled, whatever the method.\<close>

theorem directory_redirect:
  assumes "is_allowed (ho_method o')" "ho_memory_cache o' = None" "ho_redirect_trailing_slash o'"
    and "\<not> suffix ''/'' (ho_uri_path o')"
    and "sanitize_path X (ho_base_path o') (ho_uri_path o') = Inr p"
    and "get_composed_file_metadata X F p (ho_headers o') (ho_compression_static o') (ho_index_files o') = Inr fm"
    and "fm_is_dir fm" "path_checks F o' (path_pop (fm_file_path fm)) = Inr ()"
    and "x_header_value X (ho_uri_path o' @ ''/'' @ (case ho_uri_query o' of Some s \<Rightarrow> [CHR 0x3F] @ s | None \<Rightarrow> [])) = Some loc"
  shows "\<exists>r. handle X F store closed o' = Inr (r, fm_file_path fm) \<and> rs_status r = 308 \<and>
    rs_get ''location'' r = Some loc \<and> rs_body r = Empty_Body"
  using assms
  by (simp add: handle_def cache_path_def checked_path_def checked_reply_def trailing_slash_redirect_def headers_simp)

section \<open>Concrete requests\<close>

definition demo_handle :: "string \<Rightarrow> handle_opts" where
  "demo_handle uri =
     \<lparr>ho_method = ''GET'', ho_memory_cache = None, ho_headers = [], ho_base_path = ''/srv'', ho_uri_path = uri,
      ho_index_files = [''index.html''], ho_uri_query = None, ho_dir_listing = False, ho_dir_listing_order = 6,
      ho_dir_listing_format = DirList_Html, ho_dir_listing_download = [], ho_redirect_trailing_slash = True,
      ho_compression_static = False, ho_ignore_hidden_files = True, ho_disable_symlinks = True\<rparr>"

lemma demo_handle_simps [simp]:
  "ho_method (demo_handle u) = ''GET''" "ho_memory_cache (demo_handle u) = None" "ho_headers (demo_handle u) = []"
  "ho_base_path (demo_handle u) = ''/srv''" "ho_uri_path (demo_handle u) = u"
  "ho_index_files (demo_handle u) = [''index.html'']" "ho_uri_query (demo_handle u) = None"
  "ho_dir_listing (demo_handle u) = False" "ho_redirect_trailing_slash (demo_handle u) = True"
  "ho_compression_static (demo_handle u) = False" "ho_ignore_hidden_files (demo_handle u) = True"
  "ho_disable_symlinks (demo_handle u) = True" "is_allowed ''GET''"
  by (simp_all add: demo_handle_def is_allowed_iff is_get_def)

lemma demo_unconditional: "conditional_check demo_ext (conditional_headers_new demo_ext []) d = WithBody None"
  by (simp add: conditional_headers_new_def typed_get_def hget_all_simps conditional_check_def
      check_unmodified_since_def check_not_modified_def)

lemma demo_places:
  "sanitize_path demo_ext ''/srv'' ''/a.html'' = Inr ''/srv/a.html''"
  "sanitize_path demo_ext ''/srv'' ''/docs/'' = Inr ''/srv/docs''"
  "sanitize_path demo_ext ''/srv'' ''/docs'' = Inr ''/srv/docs''"
  "path_strip_prefix ''/srv/a.html'' ''/srv'' = Some ''a.html''"
  "path_strip_prefix ''/srv/docs'' ''/srv'' = Some ''docs''"
  "path_push ''/srv'' ''docs'' = ''/srv/docs''" "path_push ''/srv'' ''a.html'' = ''/srv/a.html''"
  "path_push ''/srv/docs'' ''index.html'' = ''/srv/docs/index.html''"
  "path_pop ''/srv/docs/index.html'' = ''/srv/docs''"
  "components ''docs'' = [Normal ''docs'']" "components ''a.html'' = [Normal ''a.html'']"
  unfolding demo_sanitize by code_simp+

lemma demo_resolves:
  "fs_canonicalize demo_fs ''/srv'' = Inr ''/srv''" "fs_canonicalize demo_fs ''/srv/docs'' = Inr ''/srv/docs''"
  "fs_canonicalize demo_fs ''/srv/a.html'' = Inr ''/srv/a.html''"
  "fs_metadata demo_fs ''/srv/docs'' = Inr demo_dir" "fs_metadata demo_fs ''/srv/a.html'' = Inr demo_file"
  "fs_symlink_metadata demo_fs ''/srv/docs'' = Inr demo_dir"
  "fs_symlink_metadata demo_fs ''/srv/a.html'' = Inr demo_file"
  "fs_metadata demo_fs ''/srv/docs/index.html'' = Inr (demo_file\<lparr>nd_kind := Regular ''root''\<rparr>)"
  "resolve demo_fs ''/srv/docs/index.html'' = Inr [''etc'', ''passwd'']"
  by (simp_all add: walk_eval demo_fs_eval abs_path_def)

lemma demo_starts: "path_starts_with ''/srv/docs'' ''/srv''" "path_starts_with ''/srv/a.html'' ''/srv''"
  by code_simp+

lemma demo_checks:
  "path_checks demo_fs (demo_handle u) ''/srv/docs'' = Inr ()"
  "path_checks demo_fs (demo_handle u) ''/srv/a.html'' = Inr ()"
  by (simp_all add: path_checks_def demo_places demo_resolves demo_starts contains_symlink_def is_symlink_def
      is_hidden_def demo_dir_def demo_file_def)

definition demo_fm :: file_metadata where
  "demo_fm = \<lparr>fm_file_path = ''/srv/docs/index.html'', fm_metadata = demo_file\<lparr>nd_kind := Regular ''root''\<rparr>,
     fm_is_dir = True, fm_precompressed = None\<rparr>"

lemma demo_composed:
  "get_composed_file_metadata demo_ext demo_fs ''/srv/docs'' [] False [''index.html''] = Inr demo_fm"
  by (simp add: get_composed_file_metadata_def static_variant_def try_metadata_def demo_resolves demo_places
      is_dir_node_def demo_dir_def demo_file_def Let_def demo_fm_def)

lemma demo_index_served:
  "\<exists>r q. handle demo_ext demo_fs Map.empty False (demo_handle ''/docs/'') = Inr (r, q) \<and> rs_status r = 200"
proof -
  have op: "fs_open demo_fs ''/srv/docs/index.html'' = Inr (demo_file\<lparr>nd_kind := Regular ''root''\<rparr>)"
    by (simp add: fs_open_def demo_resolves demo_file_def)
  have s: "suffix ''/'' ''/docs/''" by (simp add: suffix_to_prefix)
  show ?thesis
    by (simp add: handle_def cache_path_def demo_places demo_composed demo_fm_def checked_path_def demo_checks checked_reply_def s
        is_options_def file_reply_def op response_body_def demo_unconditional Let_def bytes_range_def
        seek_fails_def nd_len_def nd_content_def demo_file_def range_response_def body_bytes_file_body
        take_bytes_open meta_modified_def demo_resolves)
qed

text \<open>C15. The index file of a directory is served whatever it is: the checks look at the directory, from which
  the index file has been removed. With links disabled, an index file that is a symbolic link to a file outside the
  root is answered as if it were a file of the directory.\<close>

theorem index_file_unchecked:
  assumes "is_get (ho_method o')" "ho_memory_cache o' = None" "\<not> ho_compression_static o'" "suffix ''/'' (ho_uri_path o')"
    and "sanitize_path X (ho_base_path o') (ho_uri_path o') = Inr p"
    and "fs_metadata F p = Inr d" "is_dir_node d" "ho_index_files o' = ix # ixs"
    and "fs_open F (path_push p ix) = Inr nd" "is_regular nd"
    and "path_checks F o' (path_pop (path_push p ix)) = Inr ()"
  shows "handle X F store closed o' = map_sum id (\<lambda>r. (r, path_push p ix))
    (response_body X nd (path_push p ix) nd (conditional_headers_new X (ho_headers o')) None)"
proof -
  have m: "fs_metadata F (path_push p ix) = Inr nd"
    using assms(9) by (auto simp: fs_open_def split: sum.splits fs_error.splits option.splits)
  have "\<not> is_dir_node nd" using assms(10) by (auto simp: is_dir_node_def is_regular_def)
  with m assms(6-8) have c: "get_composed_file_metadata X F p (ho_headers o') False (ho_index_files o') =
      Inr \<lparr>fm_file_path = path_push p ix, fm_metadata = nd, fm_is_dir = True, fm_precompressed = None\<rparr>"
    by (simp add: get_composed_file_metadata_def static_variant_def try_metadata_def Let_def)
  have "is_allowed (ho_method o')" "\<not> is_options (ho_method o')" "fs_exists F (path_push p ix)"
    using assms(1) m by (auto simp: is_allowed_iff is_get_def is_options_def fs_exists_def)
  with assms c show ?thesis
    by (cases "response_body X nd (path_push p ix) nd (conditional_headers_new X (ho_headers o')) None")
      (simp_all add: handle_def cache_path_def checked_path_def checked_reply_def file_reply_def Let_def)
qed

theorem index_file_unchecked_witness:
  "\<exists>r. handle demo_ext demo_fs Map.empty False (demo_handle ''/docs/'') = Inr (r, ''/srv/docs/index.html'') \<and>
     rs_status r = 200 \<and> body_bytes (rs_body r) = Some ''root'' \<and> ho_disable_symlinks (demo_handle ''/docs/'') \<and>
     resolve demo_fs ''/srv/docs/index.html'' = Inr [''etc'', ''passwd'']"
proof -
  let ?root = "demo_file\<lparr>nd_kind := Regular ''root''\<rparr>"
  have op: "fs_open demo_fs ''/srv/docs/index.html'' = Inr ?root"
    by (simp add: fs_open_def demo_resolves demo_file_def)
  have b: "\<exists>r. response_body demo_ext ?root ''/srv/docs/index.html'' ?root (conditional_headers_new demo_ext []) None = Inr r \<and>
      rs_status r = 200 \<and> body_bytes (rs_body r) = Some ''root''"
    by (simp add: response_body_def demo_unconditional Let_def bytes_range_def seek_fails_def nd_len_def nd_content_def
        demo_file_def range_response_def body_bytes_file_body take_bytes_open meta_modified_def)
  have s: "suffix ''/'' ''/docs/''" by (simp add: suffix_to_prefix)
  have "handle demo_ext demo_fs Map.empty False (demo_handle ''/docs/'') = map_sum id (\<lambda>r. (r, ''/srv/docs/index.html''))
      (response_body demo_ext ?root ''/srv/docs/index.html'' ?root (conditional_headers_new demo_ext []) None)"
    using index_file_unchecked [of "demo_handle ''/docs/''" demo_ext "''/srv/docs''" demo_fs demo_dir "''index.html''" "[]" ?root] s op
    by (simp add: is_get_def demo_places demo_resolves demo_checks is_dir_node_def demo_dir_def is_regular_def)
  with b show ?thesis by (auto simp: demo_resolves)
qed

theorem directory_redirect_witness:
  "\<exists>r q. handle demo_ext demo_fs Map.empty False (demo_handle ''/docs'') = Inr (r, q) \<and> rs_status r = 308 \<and>
     rs_get ''location'' r = Some ''/docs/''"
proof -
  have "\<not> suffix ''/'' ''/docs''" by (simp add: suffix_to_prefix)
  then have "\<exists>r. handle demo_ext demo_fs Map.empty False (demo_handle ''/docs'') = Inr (r, fm_file_path demo_fm) \<and>
      rs_status r = 308 \<and> rs_get ''location'' r = Some ''/docs/'' \<and> rs_body r = Empty_Body"
    by (intro directory_redirect [of _ demo_ext "''/srv/docs''"])
      (simp_all add: demo_places demo_checks demo_composed, simp_all add: demo_fm_def demo_places demo_checks)
  then show ?thesis by blast
qed

text \<open>A request that accepts gzip, with static compression enabled.\<close>

definition gzip_request :: "string \<Rightarrow> handle_opts" where
  "gzip_request u = (demo_handle u)\<lparr>ho_headers := [(''accept-encoding'', ''gzip'')], ho_compression_static := True\<rparr>"

lemma gzip_request_simps:
  "ho_headers (gzip_request u) = [(''accept-encoding'', ''gzip'')]" "ho_compression_static (gzip_request u)"
  "ho_method (gzip_request u) = ''GET''" "ho_memory_cache (gzip_request u) = None"
  "ho_base_path (gzip_request u) = ''/srv''" "ho_uri_path (gzip_request u) = u"
  "ho_disable_symlinks (gzip_request u)" "ho_ignore_hidden_files (gzip_request u)"
  by (simp_all add: gzip_request_def)

lemma gzip_unconditional:
  "conditional_check demo_ext (conditional_headers_new demo_ext [(''accept-encoding'', ''gzip'')]) d = WithBody None"
  by (simp add: conditional_headers_new_def typed_get_def hget_all_simps conditional_check_def
      check_unmodified_since_def check_not_modified_def)

lemma demo_gzip_encodings: "sorted_encodings demo_ext ''gzip'' = [GZIP]"
proof -
  have "trim ''gzip'' = ''gzip''" "trim_start ''gzip'' = ''gzip''"
    by (simp_all add: trim_visible trim_start_visible visible_def)
  then show ?thesis
    by (simp add: sorted_encodings_items quality_items_def quality_meta_try_from_def strip_prefix_def
        coding_from_def coding_from_str_def all_codings_def)
qed

text \<open>C16. The pre-compressed variant of a file that exists itself is sent with the size of that original: the body is
  the content of the variant cut at the length of the original, so a variant that is longer than its
  original, as that of a very small file is, reaches the client truncated, announced as complete.\<close>

theorem precompressed_cut_at_original_size:
  assumes "is_get (ho_method o')" "ho_memory_cache o' = None" "ho_compression_static o'"
    and "sanitize_path X (ho_base_path o') (ho_uri_path o') = Inr p" "path_checks F o' p = Inr ()"
    and "fs_open F p = Inr orig" "is_regular orig" "length (nd_content orig) < 2 ^ 64"
    and "precompressed_variant X F p (ho_headers o') = Some v"
    and "fs_open F (cv_file_path v) = Inr packed" "is_regular packed"
    and "conditional_check X (conditional_headers_new X (ho_headers o')) (meta_modified X orig) = WithBody None"
    and "x_header_value X (coding_str (cv_encoding v)) = Some w"
  shows "\<exists>r. handle X F store closed o' = Inr (r, p) \<and> rs_status r = 200 \<and> rs_get ''content-encoding'' r = Some w \<and>
    body_bytes (rs_body r) = Some (take (length (nd_content orig)) (nd_content packed))"
proof -
  let ?fm = "\<lparr>fm_file_path = p, fm_metadata = orig, fm_is_dir = False, fm_precompressed = Some (cv_file_path v, cv_encoding v)\<rparr>"
  have "try_metadata F p = Inr (orig, False)"
    using assms(6,7) by (auto simp: try_metadata_def fs_open_def is_dir_node_def is_regular_def
        split: sum.splits fs_error.splits option.splits)
  then have c: "get_composed_file_metadata X F p (ho_headers o') True (ho_index_files o') = Inr ?fm"
    using assms(9) by (simp add: get_composed_file_metadata_def static_variant_def Let_def)
  have "\<not> seek_fails packed" using assms(11) by (auto simp: is_regular_def seek_fails_def split: file_kind.splits)
  moreover have len: "nd_len orig = length (nd_content orig)"
    using assms(7) by (auto simp: nd_len_def nd_content_def is_regular_def split: file_kind.splits)
  moreover have "unat (of_nat (length (nd_content orig)) :: u64) = length (nd_content orig)"
    using assms(8) by (rule unat_u64)
  ultimately have "\<exists>r. precompressed_reply X F o' ?fm (cv_file_path v) (cv_encoding v) = Inr r \<and> rs_status r = 200 \<and>
      rs_get ''content-encoding'' r = Some w \<and>
      body_bytes (rs_body r) = Some (take (length (nd_content orig)) (nd_content packed))"
    using assms(2,10,12,13)
    by (auto simp: precompressed_reply_def file_reply_def response_body_def Let_def bytes_range_def
        range_response_def body_bytes_file_body take_bytes_open headers_simp split: option.split)
  moreover have "is_allowed (ho_method o')" "\<not> is_options (ho_method o')"
    using assms(1) by (simp_all add: is_allowed_iff is_get_def is_options_def)
  ultimately show ?thesis
    using assms(2-5) c by (auto simp: handle_def cache_path_def checked_path_def checked_reply_def Let_def)
qed

text \<open>A page of five bytes and a variant of ten: the client gets half of the variant.\<close>

definition packed_fs :: fs where
  "packed_fs = \<lparr>fs_nodes =
     [([''srv''], demo_dir), ([''srv'', ''a.html''], demo_file),
      ([''srv'', ''a.html.gz''], demo_file\<lparr>nd_kind := Regular ''compressed''\<rparr>)],
     fs_cwd = []\<rparr>"

theorem precompressed_cut_at_original_size_witness:
  "\<exists>r. handle demo_ext packed_fs Map.empty False (gzip_request ''/a.html'') = Inr (r, ''/srv/a.html'') \<and>
     rs_get ''content-encoding'' r = Some ''gzip'' \<and> body_bytes (rs_body r) = Some ''compr''"
proof -
  let ?h = "[(''accept-encoding'', ''gzip'')]" and ?packed = "demo_file\<lparr>nd_kind := Regular ''compressed''\<rparr>"
  let ?v = "\<lparr>cv_file_path = ''/srv/a.html.gz'', cv_metadata = ?packed, cv_encoding = GZIP\<rparr>"
  have F: "fs_canonicalize packed_fs ''/srv'' = Inr ''/srv''" "fs_canonicalize packed_fs ''/srv/a.html'' = Inr ''/srv/a.html''"
    "fs_symlink_metadata packed_fs ''/srv/a.html'' = Inr demo_file" "fs_metadata packed_fs ''/srv/a.html'' = Inr demo_file"
    "fs_metadata packed_fs ''/srv/a.html.gz'' = Inr ?packed"
    by (simp_all add: walk_eval packed_fs_def demo_fs_eval abs_path_def)
  have u: "valid_utf8 ''a.html''" by (rule valid_utf8_ascii) simp
  have p: "set_file_name ''/srv/a.html'' ''a.html.gz'' = ''/srv/a.html.gz''" "path_file_name ''/srv/a.html'' = Some ''a.html''"
    by (simp_all add: path_eval)
  have v: "precompressed_variant demo_ext packed_fs ''/srv/a.html'' ?h = Some ?v"
    using u p by (simp add: precompressed_variant_def demo_typed_ae demo_gzip_encodings path_to_str_def
        try_metadata_def F is_dir_node_def demo_file_def)
  have k: "path_checks packed_fs (gzip_request ''/a.html'') ''/srv/a.html'' = Inr ()"
    by (simp add: path_checks_def gzip_request_simps demo_places F demo_starts contains_symlink_def is_symlink_def is_hidden_def demo_file_def)
  have op: "fs_open packed_fs ''/srv/a.html'' = Inr demo_file" "fs_open packed_fs ''/srv/a.html.gz'' = Inr ?packed"
    by (simp_all add: fs_open_def F demo_file_def)
  have "\<exists>r. handle demo_ext packed_fs Map.empty False (gzip_request ''/a.html'') = Inr (r, ''/srv/a.html'') \<and> rs_status r = 200 \<and>
      rs_get ''content-encoding'' r = Some ''gzip'' \<and>
      body_bytes (rs_body r) = Some (take (length (nd_content demo_file)) (nd_content ?packed))"
    by (rule precompressed_cut_at_original_size [where v = ?v])
      (use v k op in \<open>simp_all add: gzip_request_simps demo_places is_get_def is_regular_def demo_file_def nd_content_def gzip_unconditional\<close>)
  then show ?thesis by (auto simp: demo_file_def nd_content_def)
qed

end
