(* ===== verification/Cached_Files.thy ===== *)
theory Cached_Files
  imports Static_Files
begin

text \<open>
  The memory cache behind the file server (\<open>src/static_files.rs\<close>, \<open>src/mem_cache/\<close>, the cache
  section of \<open>src/response.rs\<close>): requests are answered from the store or from the files, an answer
  from a file may start a stream that fills the store while it is sent, streams are polled in any
  order, and the library may evict an entry. What is shown is where entries and answers come from and
  which bytes they hold, under which conditions an entry is the file of its path, and which requests
  then get the answer that they get without the cache.
\<close>

section \<open>The file behind a request\<close>

lemma html_suffix_kept:
  assumes "try_metadata_with_html_suffix F p = (q, None)"
  shows "real_components q = real_components p"
proof (cases "path_file_name p")
  case (Some f)
  let ?p1 = "set_file_name p (f @ ''.html'')"
  have f: "is_normal_name f" using Some by (rule file_name_normal)
  then have h: "is_normal_name (f @ ''.html'')" by (auto simp: is_normal_name_def)
  have n: "path_file_name ?p1 = Some (f @ ''.html'')"
    using h by (simp add: set_file_name_def file_name_push)
  have q: "q = set_file_name ?p1 f"
    using assms Some by (auto simp: try_metadata_with_html_suffix_def Let_def split: sum.splits)
  obtain cs where "rev (components p) = Normal f # cs"
    using Some by (auto simp: path_file_name_def split: list.splits component.splits)
  then have "components p = rev cs @ [Normal f]" by (metis rev.simps(2) rev_rev_ident)
  then have "real_components p = butlast (real_components p) @ [Normal f]" by (simp add: real_components_def)
  with q show ?thesis
    by (simp add: real_components_set_file_name [OF n f] real_components_set_file_name [OF Some h])
qed (use assms in \<open>simp add: try_metadata_with_html_suffix_def\<close>)

lemma html_suffix_found:
  "try_metadata_with_html_suffix F p = (q, Some m) \<Longrightarrow> fs_metadata F q = Inr m"
  by (auto simp: try_metadata_with_html_suffix_def try_metadata_def Let_def split: option.splits sum.splits)

lemma try_metadata_found: "try_metadata F p = Inr (m, d) \<Longrightarrow> fs_metadata F p = Inr m"
  by (auto simp: try_metadata_def split: sum.splits)

lemma metadata_opened: "fs_metadata F p = Inr m \<Longrightarrow> fs_open F p = Inr file \<Longrightarrow> file = m"
  by (auto simp: fs_open_def split: option.splits)

text \<open>The loop over the index files: what it finds is at the path it stops at; when it finds nothing, the
  last index file is not there.\<close>

lemma index_loop_found:
  "index_loop X F h cs p meta ixs = Inr (q, m, True) \<Longrightarrow> fs_metadata F q = Inr m"
  by (induction ixs arbitrary: p)
    (auto simp: Let_def split: option.splits sum.splits prod.splits dest: html_suffix_found try_metadata_found)

lemma index_loop_variant:
  "index_loop X F h cs p meta ixs = Inl fm \<Longrightarrow> fm_precompressed fm \<noteq> None"
  by (induction ixs arbitrary: p)
    (auto simp: Let_def variant_metadata_def split: option.splits sum.splits prod.splits)

lemma index_loop_absent:
  "index_loop X F h cs p meta ixs = Inr (q, m, False) \<Longrightarrow> ixs \<noteq> [] \<Longrightarrow> list_all is_normal_name ixs \<Longrightarrow>
   \<exists>e. fs_open F (path_push q (last ixs)) = Inl e"
proof (induction ixs arbitrary: p)
  case (Cons ix rest)
  let ?p1 = "path_push p ix"
  have ix: "is_normal_name ix" "list_all is_normal_name rest" using Cons.prems(3) by auto
  from Cons.prems(1) obtain e q2 where t: "try_metadata F ?p1 = Inl e"
    "try_metadata_with_html_suffix F (path_pop ?p1) = (q2, None)"
    "index_loop X F h cs q2 meta rest = Inr (q, m, False)"
    by (auto simp: Let_def split: option.splits sum.splits prod.splits)
  show ?case
  proof (cases "rest = []")
    case True
    with t have "real_components q = real_components p"
      using html_suffix_kept [OF t(2)] real_components_pop_push [OF ix(1)] by simp
    from fs_real(2) [OF ix(1) this] t(1) True show ?thesis
      by (auto simp: fs_open_def try_metadata_def split: sum.splits option.splits fs_error.splits)
  next
    case False
    with Cons.IH [OF t(3) _ ix(2)] show ?thesis by simp
  qed
qed simp

text \<open>Without a variant, what is opened is what the metadata was read from.\<close>

lemma composed_original:
  assumes "get_composed_file_metadata X F p h cs ixs = Inr fm" "fm_precompressed fm = None"
    and "list_all is_normal_name ixs" "fs_open F (fm_file_path fm) = Inr file"
  shows "file = fm_metadata fm"
proof (cases "try_metadata F p")
  case (Inl e)
  with assms(1,2,4) show ?thesis
    by (auto simp: get_composed_file_metadata_def variant_metadata_def split: option.splits prod.splits
        dest!: html_suffix_found dest: metadata_opened)
next
  case (Inr a)
  obtain meta d where a: "a = (meta, d)" by (cases a)
  let ?ifs = "if ixs = [] then DEFAULT_INDEX_FILES else ixs"
  have ifs: "?ifs \<noteq> []" "list_all is_normal_name ?ifs"
    using assms(3) by (simp_all add: DEFAULT_INDEX_FILES_def is_normal_name_def)
  show ?thesis
  proof (cases d)
    case False
    with assms Inr a show ?thesis
      by (auto simp: get_composed_file_metadata_def Let_def dest!: try_metadata_found dest: metadata_opened)
  next
    case True
    show ?thesis
    proof (cases "index_loop X F h cs p meta ?ifs")
      case (Inl fm')
      from index_loop_variant [OF this] Inl Inr a True assms(1,2) show ?thesis by (simp add: get_composed_file_metadata_def Let_def)
    next
      case (Inr r)
      obtain q m found where r: "r = (q, m, found)" by (cases r)
      have fm: "fm_metadata fm = m" "fm_file_path fm = (if found then q else path_push q (last ?ifs))"
        using Inr r \<open>try_metadata F p = Inr a\<close> a True ifs(1) assms(1)
        by (auto simp: get_composed_file_metadata_def Let_def split: if_splits)
      show ?thesis
      proof (cases found)
        case True
        with fm index_loop_found [of X F h cs p meta ?ifs q m] Inr r assms(4) show ?thesis
          by (simp add: metadata_opened)
      next
        case False
        with fm index_loop_absent [OF _ ifs, of X F h cs p meta q m] Inr r assms(4) show ?thesis by auto
      qed
    qed
  qed
qed

section \<open>Where a stream comes from\<close>

text \<open>A successful answer is a hit or comes from the files.\<close>

lemma handle_hit_or_file:
  assumes "handle X F st closed o' = Inr (resp, q)"
  obtains (hit) p mf where "ho_memory_cache o' \<noteq> None"
      "sanitize_path X (ho_base_path o') (ho_uri_path o') = Inr p" "q = cache_path o' p"
      "st q = Some mf" "mem_file_response_body X mf (ho_headers o') = Inr resp"
    | (fresh) p fm where "sanitize_path X (ho_base_path o') (ho_uri_path o') = Inr p"
      "get_composed_file_metadata X F (cache_path o' p) (ho_headers o') (ho_compression_static o') (ho_index_files o') = Inr fm"
      "path_checks F o' (checked_path fm) = Inr ()" "checked_reply X F o' fm = Inr resp" "q = fm_file_path fm"
proof -
  obtain p where p: "sanitize_path X (ho_base_path o') (ho_uri_path o') = Inr p"
    by (auto simp: sanitize_path_def)
  let ?g = "if ho_memory_cache o' \<noteq> None then get_or_acquire X st closed (cache_path o' p) (ho_headers o') else None"
  show ?thesis
  proof (cases ?g)
    case None
    obtain fm where "get_composed_file_metadata X F (cache_path o' p) (ho_headers o') (ho_compression_static o')
        (ho_index_files o') = Inr fm" "path_checks F o' (checked_path fm) = Inr ()"
      "checked_reply X F o' fm = Inr resp" "q = fm_file_path fm"
      using assms p None
      by (auto simp: handle_def res_bind_Inr_iff Let_def split: if_split_asm option.splits)
    with p show ?thesis by (rule fresh)
  next
    case (Some r)
    with assms p have "r = Inr resp" "q = cache_path o' p"
      by (auto simp: handle_def res_bind_Inr_iff Let_def split: if_split_asm)
    with Some obtain mf where "ho_memory_cache o' \<noteq> None" "st q = Some mf"
      "mem_file_response_body X mf (ho_headers o') = Inr resp"
      by (auto simp: get_or_acquire_def path_to_str_def split: if_split_asm option.splits)
    with p \<open>q = _\<close> show ?thesis by (intro hit)
  qed
qed

lemma listing_body: "auto_index X F o' = Inr r \<Longrightarrow> rs_body r \<noteq> Mem_Cache_Body s"
  by (auto simp: auto_index_def read_dir_entries_def listing_response_def Let_def
      split: sum.splits option.splits if_splits prod.splits dir_list_fmt.splits)

lemma range_response_cached:
  "rs_body (range_response X b a e n ct m) = Mem_Cache_Body s \<Longrightarrow> b = Mem_Cache_Body s"
  using range_response_body [of X b a e n ct m] by auto

lemma hit_body: "mem_file_response_body X mf h = Inr r \<Longrightarrow> rs_body r \<noteq> Mem_Cache_Body s"
  by (auto simp: mem_file_response_body_def Let_def conditional_check_def empty_response_def unsatisfied_response_def
      split: conditional_body.splits sum.splits option.splits if_splits dest!: range_response_cached)

lemma response_body_uncached: "response_body X nd p meta cond None = Inr r \<Longrightarrow> rs_body r \<noteq> Mem_Cache_Body s"
  by (auto simp: response_body_def file_body_def Let_def conditional_check_def empty_response_def unsatisfied_response_def
      split: conditional_body.splits sum.splits option.splits if_splits dest!: range_response_cached)

text \<open>The file that is opened for a reply.\<close>

definition opened_path :: "file_metadata \<Rightarrow> path" where
  "opened_path fm = (case fm_precompressed fm of Some (q, _) \<Rightarrow> q | None \<Rightarrow> fm_file_path fm)"

lemma checked_reply_stream:
  assumes "checked_reply X F o' fm = Inr resp" "rs_body resp = Mem_Cache_Body s"
  obtains nd opts r where "fs_open F (opened_path fm) = Inr nd" "ho_memory_cache o' = Some opts"
    "response_body X nd (fm_file_path fm) (fm_metadata fm) (conditional_headers_new X (ho_headers o')) (Some opts) = Inr r"
    "rs_body r = Mem_Cache_Body s"
proof -
  from assms have "(\<exists>q enc. fm_precompressed fm = Some (q, enc) \<and> precompressed_reply X F o' fm q enc = Inr resp) \<or>
      fm_precompressed fm = None \<and>
      file_reply X F (ho_headers o') (fm_file_path fm) (fm_metadata fm) None (ho_memory_cache o') = Inr resp"
    by (auto simp: checked_reply_def trailing_slash_redirect_def options_response_def directory_reply_def
        archive_reply_def Let_def listing_body split: if_splits option.splits)
  then obtain r where r: "rs_body r = Mem_Cache_Body s"
    "file_reply X F (ho_headers o') (fm_file_path fm) (fm_metadata fm) (map_option fst (fm_precompressed fm))
       (ho_memory_cache o') = Inr r"
    using assms(2) by (auto simp: precompressed_reply_def res_bind_Inr_iff split: option.splits)
  then obtain nd where nd: "fs_open F (opened_path fm) = Inr nd"
    "response_body X nd (fm_file_path fm) (fm_metadata fm) (conditional_headers_new X (ho_headers o'))
       (ho_memory_cache o') = Inr r"
    by (auto simp: file_reply_def opened_path_def Let_def split: option.splits sum.splits)
  moreover obtain opts where "ho_memory_cache o' = Some opts"
    using response_body_uncached nd(2) r(1) by (cases "ho_memory_cache o'") fastforce+
  ultimately show ?thesis using that r(1) by simp
qed

text \<open>The metadata in use is that of an existing file.\<close>

lemma static_variant_metadata:
  "static_variant X F cs p h = Some v \<Longrightarrow> \<exists>q. fs_metadata F q = Inr (cv_metadata v)"
proof -
  have "fs_metadata F (cv_file_path v) = Inr (cv_metadata v)" if "variant_loop F p encs = Some v" for encs
    using that by (induction encs)
      (auto simp: Let_def dest!: try_metadata_found split: option.splits sum.splits prod.splits if_splits)
  then show "static_variant X F cs p h = Some v \<Longrightarrow> ?thesis"
    by (auto simp: static_variant_def precompressed_variant_def split: if_splits option.splits)
qed

lemma index_loop_metadata:
  "index_loop X F h cs p meta ixs = Inl fm \<Longrightarrow> \<exists>q. fs_metadata F q = Inr (fm_metadata fm)"
  "index_loop X F h cs p meta ixs = Inr (q, m, found) \<Longrightarrow> fs_metadata F p0 = Inr meta \<Longrightarrow> \<exists>q. fs_metadata F q = Inr m"
  by (induction ixs arbitrary: p)
    (auto simp: Let_def variant_metadata_def dest!: try_metadata_found html_suffix_found static_variant_metadata
      split: option.splits sum.splits prod.splits)

lemma composed_metadata:
  assumes "get_composed_file_metadata X F p h cs ixs = Inr fm"
  shows "\<exists>q. fs_metadata F q = Inr (fm_metadata fm)"
proof (cases "try_metadata F p")
  case (Inl e)
  with assms show ?thesis
    by (auto simp: get_composed_file_metadata_def variant_metadata_def dest!: html_suffix_found static_variant_metadata
        split: option.splits prod.splits)
next
  case (Inr a)
  obtain meta d where a: "a = (meta, d)" by (cases a)
  with Inr have m: "fs_metadata F p = Inr meta" by (auto dest: try_metadata_found)
  let ?ifs = "if ixs = [] then DEFAULT_INDEX_FILES else ixs"
  from index_loop_metadata(2) [OF _ m, of X h cs p ?ifs] index_loop_metadata(1) [of X F h cs p meta ?ifs] assms Inr a m
  show ?thesis
    by (auto simp: get_composed_file_metadata_def Let_def split: sum.splits prod.splits if_split_asm)
qed

section \<open>Interleaved requests\<close>

text \<open>
  The state is the store with the streams in progress. Requests are those that \<open>P\<close> allows, each with the file
  system it meets: one that is answered from a file may start a stream; streams are polled in any
  order, and the library may evict an entry.
\<close>

type_synonym cache_config = "mem_store \<times> mem_cache_stream list"

type_synonym requests = "fs \<Rightarrow> handle_opts \<Rightarrow> bool"

inductive cache_step :: "ext \<Rightarrow> requests \<Rightarrow> cache_config \<Rightarrow> cache_config \<Rightarrow> bool" for X P where
  start: "P F o' \<Longrightarrow> handle X F st closed o' = Inr (resp, q) \<Longrightarrow> rs_body resp = Mem_Cache_Body s \<Longrightarrow>
      cache_step X P (st, ss) (st, s # ss)"
| poll: "i < length ss \<Longrightarrow> mem_poll_next X (ss ! i) st = (it, s', st') \<Longrightarrow>
      cache_step X P (st, ss) (st', ss[i := s'])"
| evict: "cache_step X P (st, ss) (st(k := None), ss)"

inductive cache_reachable :: "ext \<Rightarrow> requests \<Rightarrow> cache_config \<Rightarrow> bool" for X P where
  initial: "cache_reachable X P (Map.empty, [])"
| step: "cache_reachable X P c \<Longrightarrow> cache_step X P c c' \<Longrightarrow> cache_reachable X P c'"

lemma cache_reachable_mono:
  assumes "cache_reachable X P c" "\<And>F o'. P F o' \<Longrightarrow> P' F o'"
  shows "cache_reachable X P' c"
  using assms(1)
proof (induction rule: cache_reachable.induct)
  case (step c c')
  from step.hyps(2) have "cache_step X P' c c'"
    by (cases rule: cache_step.cases) (auto intro: cache_step.intros assms(2))
  with step.IH show ?case by (rule cache_reachable.step)
qed (rule cache_reachable.initial)

text \<open>
  An invariant of streams that holds when they start, and that a poll keeps while it enters only what
  the invariant of entries allows, gives an invariant of every reachable store.
\<close>

locale cache_invariant =
  fixes X :: ext and P :: requests and S :: "mem_cache_stream \<Rightarrow> bool" and Q :: "string \<Rightarrow> mem_file \<Rightarrow> bool"
  assumes starts: "P F o' \<Longrightarrow> handle X F st closed o' = Inr (resp, q) \<Longrightarrow> rs_body resp = Mem_Cache_Body s \<Longrightarrow> S s"
    and polls: "mem_poll_next X s st = (it, s', st') \<Longrightarrow> S s \<Longrightarrow> S s' \<and> entered Q s st st'"
begin

definition holds :: "cache_config \<Rightarrow> bool" where
  "holds c = ((\<forall>k mf. fst c k = Some mf \<longrightarrow> Q k mf) \<and> (\<forall>s \<in> set (snd c). S s))"

lemma step_holds:
  assumes "cache_step X P c c'" "holds c"
  shows "holds c'"
  using assms(1)
proof (cases rule: cache_step.cases)
  case (start F o' st closed resp q s ss)
  with assms(2) starts [OF start(3-5)] show ?thesis by (simp add: holds_def)
next
  case (poll i ss st it s' st')
  with assms(2) have "S s' \<and> entered Q (ss ! i) st st'" by (intro polls [OF poll(4)]) (simp add: holds_def)
  with poll assms(2) show ?thesis
    by (auto simp: holds_def entered_def dest: set_update_subset_insert [THEN subsetD] split: if_splits)
next
  case (evict st ss k)
  with assms(2) show ?thesis by (simp add: holds_def)
qed

lemma reachable_holds: "cache_reachable X P c \<Longrightarrow> holds c"
  by (induction rule: cache_reachable.induct) (simp add: holds_def, rule step_holds)

lemma entry: "cache_reachable X P (st, ss) \<Longrightarrow> st k = Some mf \<Longrightarrow> Q k mf"
  using reachable_holds [of "(st, ss)"] by (simp add: holds_def)

end

text \<open>The file that a request is answered with when its path passes the checks.\<close>

definition checked_file :: "ext \<Rightarrow> fs \<Rightarrow> handle_opts \<Rightarrow> file_metadata \<Rightarrow> bool" where
  "checked_file X F o' fm =
     (\<exists>p. sanitize_path X (ho_base_path o') (ho_uri_path o') = Inr p \<and>
        get_composed_file_metadata X F (cache_path o' p) (ho_headers o') (ho_compression_static o') (ho_index_files o')
          = Inr fm \<and>
        path_checks F o' (checked_path fm) = Inr ())"

definition file_found :: "ext \<Rightarrow> fs \<Rightarrow> handle_opts \<Rightarrow> path \<Rightarrow> bool" where
  "file_found X F o' k = (\<exists>fm. checked_file X F o' fm \<and> k = fm_file_path fm)"

text \<open>An answer that sends a part of the file that was opened for it, and the answer for a directory.\<close>

definition sends_opened :: "fs \<Rightarrow> file_metadata \<Rightarrow> string \<Rightarrow> bool" where
  "sends_opened F fm bs = (\<exists>nd. fs_open F (opened_path fm) = Inr nd \<and> sublist bs (nd_content nd))"

definition sends_directory :: "ext \<Rightarrow> fs \<Rightarrow> handle_opts \<Rightarrow> file_metadata \<Rightarrow> response \<Rightarrow> bool" where
  "sends_directory X F o' fm resp =
     (fm_is_dir fm \<and> ho_dir_listing o' \<and> \<not> fs_exists F (fm_file_path fm) \<and>
      directory_reply X F o' (fm_file_path fm) = Inr resp)"

definition found_by :: "ext \<Rightarrow> requests \<Rightarrow> path \<Rightarrow> string \<Rightarrow> bool" where
  "found_by X P k bs = (\<exists>F o' fm. P F o' \<and> checked_file X F o' fm \<and> k = fm_file_path fm \<and> sends_opened F fm bs)"

lemma found_by_part: "found_by X P k bs \<Longrightarrow> sublist bs' bs \<Longrightarrow> found_by X P k bs'"
  by (auto simp: found_by_def sends_opened_def) (metis sublist_order.order_trans)

lemma checked_reply_sends:
  assumes "checked_reply X F o' fm = Inr resp" "rs_status resp = 200 \<or> rs_status resp = 206"
  shows "sends_directory X F o' fm resp \<or>
    (\<exists>bs. body_bytes (rs_body resp) = Some bs \<and> sends_opened F fm bs)"
proof (cases "sends_directory X F o' fm resp")
  case False
  have "trailing_slash_redirect X o' = Inr resp \<Longrightarrow> rs_status resp = 308"
    by (auto simp: trailing_slash_redirect_def Let_def split: option.splits)
  with False assms have "(\<exists>q enc. fm_precompressed fm = Some (q, enc) \<and> precompressed_reply X F o' fm q enc = Inr resp) \<or>
      fm_precompressed fm = None \<and>
      file_reply X F (ho_headers o') (fm_file_path fm) (fm_metadata fm) None (ho_memory_cache o') = Inr resp"
    by (auto simp: checked_reply_def sends_directory_def options_response_def split: if_splits option.splits)
  then obtain r where r: "rs_body r = rs_body resp"
    "file_reply X F (ho_headers o') (fm_file_path fm) (fm_metadata fm) (map_option fst (fm_precompressed fm))
       (ho_memory_cache o') = Inr r"
    by (auto simp: precompressed_reply_def res_bind_Inr_iff split: option.splits)
  then obtain nd where nd: "fs_open F (opened_path fm) = Inr nd"
    "response_body X nd (fm_file_path fm) (fm_metadata fm) (conditional_headers_new X (ho_headers o'))
       (ho_memory_cache o') = Inr r"
    by (auto simp: file_reply_def opened_path_def Let_def split: option.splits sum.splits)
  from response_body_part [OF nd(2)] nd(1) r(1) show ?thesis by (auto simp: sends_opened_def)
qed simp

lemma hit_sends:
  "mem_file_response_body X mf h = Inr r \<Longrightarrow> \<exists>bs. body_bytes (rs_body r) = Some bs \<and> sublist bs (mf_data mf)"
proof -
  have f: "body_bytes (File_Body \<lparr>st_reader = cursor_reader (mf_data mf) a n, st_buf_size = b\<rparr>) = Some (take n (drop a (mf_data mf)))"
    for a n b by (simp add: take_bytes_cursor)
  assume "mem_file_response_body X mf h = Inr r"
  then show ?thesis
    using range_response_sends [OF f]
    by (fastforce simp: mem_file_response_body_def Let_def conditional_check_def empty_response_def unsatisfied_response_def
        sublist_take_drop split: conditional_body.splits sum.splits option.splits if_splits)
qed

text \<open>The answer that starts a stream, with the file behind it.\<close>

lemma stream_started:
  assumes "handle X F st closed o' = Inr (resp, q)" "rs_body resp = Mem_Cache_Body s"
  obtains p fm nd opts r where "checked_file X F o' fm"
    "get_composed_file_metadata X F (cache_path o' p) (ho_headers o') (ho_compression_static o') (ho_index_files o') = Inr fm"
    "fs_open F (opened_path fm) = Inr nd"
    "response_body X nd (fm_file_path fm) (fm_metadata fm) (conditional_headers_new X (ho_headers o')) (Some opts) = Inr r"
    "rs_body r = Mem_Cache_Body s"
  using assms(1)
proof (cases rule: handle_hit_or_file)
  case (hit p mf)
  with assms(2) show ?thesis by (simp add: hit_body)
next
  case (fresh p fm)
  from checked_reply_stream [OF fresh(4) assms(2)] obtain nd opts r where
    "fs_open F (opened_path fm) = Inr nd"
    "response_body X nd (fm_file_path fm) (fm_metadata fm) (conditional_headers_new X (ho_headers o')) (Some opts) = Inr r"
    "rs_body r = Mem_Cache_Body s" by blast
  with fresh show ?thesis by (intro that [of fm p nd opts r]) (auto simp: checked_file_def)
qed

section \<open>Where entries come from\<close>

text \<open>
  Without any assumption, an entry is under the path of a file that a request found and was allowed,
  and holds a part of the file that was opened for it.
\<close>

definition stream_found :: "ext \<Rightarrow> requests \<Rightarrow> mem_cache_stream \<Rightarrow> bool" where
  "stream_found X P s = (case ms_mem_opts s of Some t \<Rightarrow> found_by X P (mt_file_path t) (collected s) | None \<Rightarrow> True)"

interpretation provenance: cache_invariant X P "stream_found X P" "\<lambda>k mf. found_by X P k (mf_data mf)" for X P
proof unfold_locales
  fix F o' st closed resp q s
  assume P: "P F o'" and h: "handle X F st closed o' = Inr (resp, q)" "rs_body resp = Mem_Cache_Body s"
  from h obtain p fm nd opts r where f: "checked_file X F o' fm"
    "get_composed_file_metadata X F (cache_path o' p) (ho_headers o') (ho_compression_static o') (ho_index_files o') = Inr fm"
    "fs_open F (opened_path fm) = Inr nd"
    "response_body X nd (fm_file_path fm) (fm_metadata fm) (conditional_headers_new X (ho_headers o')) (Some opts) = Inr r"
    "rs_body r = Mem_Cache_Body s" by (rule stream_started)
  from response_body_stream [OF f(4,5)] have "sublist (collected s) (nd_content nd)"
    by (auto simp: collected_def take_bytes_open sublist_take_drop)
  with P f(1,3) response_body_stream [OF f(4,5)] show "stream_found X P s"
    by (fastforce simp: stream_found_def found_by_def sends_opened_def)
next
  fix s st it s' st'
  assume p: "mem_poll_next X s st = (it, s', st')" and s: "stream_found X P s"
  from mem_poll_collects [OF p] have c: "sublist (collected s') (collected s)"
    and e: "entered (\<lambda>k mf. sublist (mf_data mf) (collected s)) s st st'" by blast+
  have part: "ms_mem_opts s = Some t \<Longrightarrow> sublist d (collected s) \<Longrightarrow> found_by X P (mt_file_path t) d" for t d
    using s found_by_part by (fastforce simp: stream_found_def)
  have "stream_found X P s'"
    using part c mem_poll_path [OF p] by (auto simp: stream_found_def split: option.split)
  moreover have "entered (\<lambda>k mf. found_by X P k (mf_data mf)) s st st'"
    using e by (rule entered_mono) (rule part)
  ultimately show "stream_found X P s' \<and> entered (\<lambda>k mf. found_by X P k (mf_data mf)) s st st'" ..
qed

text \<open>A success is the answer with a file that this request was allowed, or with one that an earlier request was
  allowed and that is in the cache under the path of this request.\<close>

lemma answered_from_checked_file:
  assumes "cache_reachable X P (st, ss)" "handle X F st closed o' = Inr (resp, q)"
  shows "\<exists>F' o'' fm. checked_file X F' o'' fm \<and> q = fm_file_path fm \<and>
    ((F', o'') = (F, o') \<or> P F' o'' \<and> st q \<noteq> None \<and>
      (\<exists>p. sanitize_path X (ho_base_path o') (ho_uri_path o') = Inr p \<and> q = cache_path o' p))"
  using assms(2)
proof (cases rule: handle_hit_or_file)
  case (hit p mf)
  from provenance.entry [OF assms(1) hit(4)] obtain F' o'' fm where "P F' o''" "checked_file X F' o'' fm" "q = fm_file_path fm"
    by (auto simp: found_by_def)
  with hit(2-4) show ?thesis by blast
next
  case (fresh p fm)
  then have "checked_file X F o' fm" by (auto simp: checked_file_def)
  with fresh(5) show ?thesis by blast
qed

text \<open>What it sends is a part of the file that was opened for that path, or the listing or archive of a directory.\<close>

lemma answered_with_opened_file:
  assumes "cache_reachable X P (st, ss)" "handle X F st closed o' = Inr (resp, q)"
    and "rs_status resp = 200 \<or> rs_status resp = 206"
  shows "\<exists>F' o'' fm. checked_file X F' o'' fm \<and> q = fm_file_path fm \<and>
    ((F', o'') = (F, o') \<and> sends_directory X F' o'' fm resp \<or>
     ((F', o'') = (F, o') \<or> P F' o'' \<and> st q \<noteq> None \<and>
        (\<exists>p. sanitize_path X (ho_base_path o') (ho_uri_path o') = Inr p \<and> q = cache_path o' p)) \<and>
     (\<exists>bs. body_bytes (rs_body resp) = Some bs \<and> sends_opened F' fm bs))"
  using assms(2)
proof (cases rule: handle_hit_or_file)
  case (hit p mf)
  from hit_sends [OF hit(5)] obtain bs where bs: "body_bytes (rs_body resp) = Some bs" "sublist bs (mf_data mf)" by blast
  from found_by_part [OF provenance.entry [OF assms(1) hit(4)] bs(2)] obtain F' o'' fm where
    "P F' o''" "checked_file X F' o'' fm" "q = fm_file_path fm" "sends_opened F' fm bs"
    unfolding found_by_def by blast
  with hit(2-4) bs(1) show ?thesis by blast
next
  case (fresh p fm)
  then have "checked_file X F o' fm" by (auto simp: checked_file_def)
  with fresh(5) checked_reply_sends [OF fresh(4) assms(3)] show ?thesis by blast
qed

text \<open>A pre-compressed variant lies beside its original.\<close>

definition beside :: "path \<Rightarrow> path \<Rightarrow> bool" where
  "beside p q = (\<exists>n e. path_file_name p = Some n \<and> q = set_file_name p (n @ ''.'' @ e))"

definition variant_beside :: "file_metadata \<Rightarrow> bool" where
  "variant_beside fm = (case fm_precompressed fm of None \<Rightarrow> True | Some (q, _) \<Rightarrow> beside (fm_file_path fm) q)"

lemma static_variant_beside: "static_variant X F cs p h = Some v \<Longrightarrow> beside p (cv_file_path v)"
  unfolding beside_def
  by (auto simp: static_variant_def precompressed_variant_def dest!: variant_loop_Some split: if_splits option.splits)

lemma index_loop_beside: "index_loop X F h cs p meta ixs = Inl fm \<Longrightarrow> variant_beside fm"
  by (induction ixs arbitrary: p)
    (auto simp: Let_def variant_metadata_def variant_beside_def dest: static_variant_beside
      split: option.splits sum.splits prod.splits)

lemma composed_beside: "get_composed_file_metadata X F p h cs ixs = Inr fm \<Longrightarrow> variant_beside fm"
  by (auto simp: get_composed_file_metadata_def Let_def variant_metadata_def variant_beside_def
      dest: static_variant_beside index_loop_beside [unfolded variant_beside_def]
      split: sum.splits option.splits prod.splits if_split_asm)

lemma checked_file_beside: "checked_file X F o' fm \<Longrightarrow> variant_beside fm"
  by (auto simp: checked_file_def dest: composed_beside)

lemma checked_file_contained:
  assumes "fs_wf F" "checked_file X F o' fm"
  shows "\<exists>rel ms ns. path_strip_prefix (checked_path fm) (ho_base_path o') = Some rel \<and>
    resolve F (ho_base_path o') = Inr ms \<and> resolve F (checked_path fm) = Inr ns \<and> prefix ms ns \<and>
    (if ho_disable_symlinks o' then contains_symlink F rel (ho_base_path o') = Inr False else True) \<and>
    (if ho_ignore_hidden_files o' then \<not> is_hidden rel else True)"
proof -
  from assms(2) have "path_checks F o' (checked_path fm) = Inr ()" by (auto simp: checked_file_def)
  with assms(1) show ?thesis by (rule path_checks_resolved)
qed

section \<open>When entries are the files of their paths\<close>

text \<open>
  The conditions on a request and its file system: file sizes fit their type, index files are plain
  names, and a pre-compressed variant, if one is chosen, is strictly shorter than the size that it is
  sent with.
\<close>

definition variants_shorter :: "ext \<Rightarrow> fs \<Rightarrow> handle_opts \<Rightarrow> bool" where
  "variants_shorter X F o' =
     (\<forall>p fm nd. get_composed_file_metadata X F p (ho_headers o') (ho_compression_static o') (ho_index_files o') = Inr fm \<longrightarrow>
        fm_precompressed fm \<noteq> None \<longrightarrow> fs_open F (opened_path fm) = Inr nd \<longrightarrow>
        length (nd_content nd) < nd_len (fm_metadata fm))"

definition cacheable :: "ext \<Rightarrow> fs \<Rightarrow> handle_opts \<Rightarrow> bool" where
  "cacheable X F o' = (small_files F \<and> list_all is_normal_name (ho_index_files o') \<and> variants_shorter X F o')"

lemma no_variant_composed:
  "get_composed_file_metadata X F p h False ixs = Inr fm \<Longrightarrow> fm_precompressed fm = None"
proof -
  have l: "index_loop X F h False p meta ixs = Inl fm \<Longrightarrow> False" for p meta ixs
    by (induction ixs arbitrary: p) (auto simp: Let_def static_variant_def split: option.splits sum.splits prod.splits)
  show "get_composed_file_metadata X F p h False ixs = Inr fm \<Longrightarrow> ?thesis"
    by (auto simp: get_composed_file_metadata_def static_variant_def Let_def dest: l
        split: sum.splits option.splits prod.splits if_split_asm)
qed

lemma cacheable_without_variants:
  "small_files F \<Longrightarrow> list_all is_normal_name (ho_index_files o') \<Longrightarrow> \<not> ho_compression_static o' \<Longrightarrow> cacheable X F o'"
  by (auto simp: cacheable_def variants_shorter_def dest: no_variant_composed)

lemma stream_starts_ok:
  assumes "handle X F st closed o' = Inr (resp, q)" "rs_body resp = Mem_Cache_Body s"
    and "cacheable X F o'" "\<And>n. x_bytes_capacity X n = n"
  shows "stream_ok X F s"
proof -
  from assms(1,2) obtain p fm nd opts r where c:
    "get_composed_file_metadata X F (cache_path o' p) (ho_headers o') (ho_compression_static o') (ho_index_files o') = Inr fm"
    "fs_open F (opened_path fm) = Inr nd"
    "response_body X nd (fm_file_path fm) (fm_metadata fm) (conditional_headers_new X (ho_headers o')) (Some opts) = Inr r"
    "rs_body r = Mem_Cache_Body s" by (rule stream_started)
  have ok: "small_files F" "list_all is_normal_name (ho_index_files o')" "variants_shorter X F o'"
    using assms(3) by (simp_all add: cacheable_def)
  have len: "nd_len (fm_metadata fm) < 2 ^ 64"
    using composed_metadata [OF c(1)] ok(1) by (auto simp: small_files_def)
  have "fs_open F (fm_file_path fm) = Inr nd \<and> fm_metadata fm = nd \<or> length (nd_content nd) < nd_len (fm_metadata fm)"
  proof (cases "fm_precompressed fm")
    case None
    then have "fs_open F (fm_file_path fm) = Inr nd" using c(2) by (simp add: opened_path_def)
    with composed_original [OF c(1) None ok(2)] show ?thesis by blast
  next
    case (Some v)
    with c(1,2) ok(3) show ?thesis unfolding variants_shorter_def by blast
  qed
  with stream_ok_start [OF c(3,4) len assms(4)] show ?thesis by blast
qed

definition stream_faithful :: "ext \<Rightarrow> requests \<Rightarrow> mem_cache_stream \<Rightarrow> bool" where
  "stream_faithful X P s =
     (\<exists>F. stream_ok X F s \<and>
        (case ms_mem_opts s of Some t \<Rightarrow> \<exists>o'. P F o' \<and> file_found X F o' (mt_file_path t) | None \<Rightarrow> True))"

definition entry_faithful :: "ext \<Rightarrow> requests \<Rightarrow> string \<Rightarrow> mem_file \<Rightarrow> bool" where
  "entry_faithful X P k mf = (\<exists>F o'. P F o' \<and> file_found X F o' k \<and> entry_ok X F k mf)"

text \<open>The requests of \<open>P\<close> that are cacheable, when a buffer has the capacity that was asked for.\<close>

definition cacheable_requests :: "ext \<Rightarrow> requests \<Rightarrow> requests" where
  "cacheable_requests X P F o' = (P F o' \<and> cacheable X F o' \<and> (\<forall>n. x_bytes_capacity X n = n))"

interpretation faithful: cache_invariant X "cacheable_requests X P" "stream_faithful X P" "entry_faithful X P" for X P
proof unfold_locales
  fix F o' st closed resp q s
  assume P: "cacheable_requests X P F o'" and h: "handle X F st closed o' = Inr (resp, q)" "rs_body resp = Mem_Cache_Body s"
  then have ok: "stream_ok X F s" by (intro stream_starts_ok [OF h]) (auto simp: cacheable_requests_def)
  from h obtain p fm nd opts r where "checked_file X F o' fm"
    "get_composed_file_metadata X F (cache_path o' p) (ho_headers o') (ho_compression_static o') (ho_index_files o') = Inr fm"
    "fs_open F (opened_path fm) = Inr nd"
    "response_body X nd (fm_file_path fm) (fm_metadata fm) (conditional_headers_new X (ho_headers o')) (Some opts) = Inr r"
    "rs_body r = Mem_Cache_Body s" by (rule stream_started)
  with P ok response_body_stream show "stream_faithful X P s"
    by (fastforce simp: stream_faithful_def cacheable_requests_def file_found_def)
next
  fix s st it s' st'
  assume p: "mem_poll_next X s st = (it, s', st')" and s: "stream_faithful X P s"
  then obtain F where F: "stream_ok X F s"
    "case ms_mem_opts s of Some t \<Rightarrow> \<exists>o'. P F o' \<and> file_found X F o' (mt_file_path t) | None \<Rightarrow> True"
    by (auto simp: stream_faithful_def)
  from mem_poll_ok [OF p F(1)] F(2) mem_poll_path [OF p]
  show "stream_faithful X P s' \<and> entered (entry_faithful X P) s st st'"
    by (auto simp: stream_faithful_def entry_faithful_def entered_def)
qed

lemma entries_faithful:
  assumes "cache_reachable X P (st, ss)" "\<And>F o'. P F o' \<Longrightarrow> cacheable X F o'" "\<And>n. x_bytes_capacity X n = n"
    and "st k = Some mf"
  shows "entry_faithful X P k mf"
proof -
  have "cache_reachable X (cacheable_requests X P) (st, ss)"
    by (rule cache_reachable_mono [OF assms(1)]) (simp add: cacheable_requests_def assms(2,3))
  then show ?thesis by (rule faithful.entry) (rule assms(4))
qed

section \<open>Hits and files\<close>

text \<open>A hit is the answer that reading the file gives, when the entry is the file.\<close>

lemma hit_like_file:
  assumes "entry_ok X F p mf" "small_files F" "fs_open F p = Inr nd" "nd_read_err nd = None"
    and "mem_file_response_body X mf h = Inr r"
  shows "\<exists>r'. response_body X nd p nd (conditional_headers_new X h) cache = Inr r' \<and>
    rs_status r = rs_status r' \<and> rs_headers r = rs_headers r' \<and>
    body_bytes (rs_body r) = body_bytes (rs_body r')"
proof -
  from assms(1,3) have e: "mf_data mf = nd_content nd" "nd_content nd \<noteq> []"
    "mf_content_type mf = x_mime_from_path X p" "mf_last_modified mf = meta_modified X nd"
    by (auto simp: entry_ok_def)
  then have "is_regular nd" by (auto simp: nd_content_def is_regular_def split: file_kind.splits)
  then have len: "nd_len nd = length (nd_content nd)" "\<not> seek_fails nd"
    using small_files_regular assms(2,3) by blast+
  have bytes: "body_bytes (File_Body \<lparr>st_reader = cursor_reader c a n, st_buf_size = b1\<rparr>) =
      body_bytes (file_body X p (open_reader c None a n) b2 l ct m cache)" for c a n b1 b2 l ct m
    by (simp add: body_bytes_file_body take_bytes_open take_bytes_cursor)
  show ?thesis
    using assms(5) e len assms(4)
    by (auto simp: mem_file_response_body_def response_body_def Let_def
        range_response_same bytes body_bytes_file_body take_bytes_open take_bytes_cursor
        intro!: range_response_same [THEN conjunct1] range_response_same [THEN conjunct2, THEN conjunct1]
          range_response_same [THEN conjunct2, THEN conjunct2, rule_format]
        split: conditional_body.splits sum.splits)
qed

text \<open>A file is answered by its content when it is asked for by its own path.\<close>

lemma regular_file_reply:
  assumes "is_get (ho_method o') \<or> is_head (ho_method o')" "\<not> ho_compression_static o'"
    and "sanitize_path X (ho_base_path o') (ho_uri_path o') = Inr p"
    and "fs_open F (cache_path o' p) = Inr nd" "is_regular nd"
    and "handle X F Map.empty closed o' = Inr (r, q)"
  shows "q = cache_path o' p \<and>
    response_body X nd q nd (conditional_headers_new X (ho_headers o')) (ho_memory_cache o') = Inr r"
proof -
  have nd: "try_metadata F (cache_path o' p) = Inr (nd, False)"
    using assms(4,5) by (auto simp: try_metadata_def fs_open_def is_dir_node_def is_regular_def
        split: sum.splits fs_error.splits option.splits)
  have m: "\<not> is_options (ho_method o')" using assms(1) by (auto simp: is_get_def is_head_def is_options_def)
  from assms(6) show ?thesis
  proof (cases rule: handle_hit_or_file)
    case (fresh p1 fm)
    then have "p1 = p" using assms(3) by simp
    with fresh(2) nd assms(2) have fm: "fm = \<lparr>fm_file_path = cache_path o' p, fm_metadata = nd, fm_is_dir = False, fm_precompressed = None\<rparr>"
      by (simp add: get_composed_file_metadata_def static_variant_def Let_def)
    with fresh(4,5) m assms(4) show ?thesis by (simp add: checked_reply_def file_reply_def Let_def)
  qed simp
qed

text \<open>Two answers that a client can not tell apart: the same bytes, or the same body when it has to be generated.\<close>

definition same_answer :: "response \<Rightarrow> response \<Rightarrow> bool" where
  "same_answer r r' =
     (rs_status r = rs_status r' \<and> rs_headers r = rs_headers r' \<and>
      (rs_body r = rs_body r' \<or>
       (\<exists>bs. body_bytes (rs_body r) = Some bs \<and> body_bytes (rs_body r') = Some bs)))"

lemma same_answer_refl [simp]: "same_answer r r"
  by (simp add: same_answer_def)

lemma same_answer_trans: "same_answer a b \<Longrightarrow> same_answer b c \<Longrightarrow> same_answer a c"
  by (auto simp: same_answer_def)

lemma same_answer_headers:
  "same_answer r r' \<Longrightarrow> same_answer (rs_insert k v r) (rs_insert k v r')"
  "same_answer r r' \<Longrightarrow> same_answer (rs_remove k r) (rs_remove k r')"
  by (simp_all add: same_answer_def rs_insert_def rs_remove_def)

lemma cache_transparent_lemma:
  assumes "cache_reachable X P (st, ss)" "\<And>F' o''. P F' o'' \<Longrightarrow> F' = F \<and> cacheable X F o''"
    and "\<And>n. x_bytes_capacity X n = n" "\<And>p nd. fs_open F p = Inr nd \<Longrightarrow> nd_read_err nd = None"
    and "is_get (ho_method o') \<or> is_head (ho_method o')" "\<not> ho_compression_static o'"
    and "handle X F Map.empty closed o' = Inr (r', q)"
  shows "\<exists>r. handle X F st closed o' = Inr (r, q) \<and> same_answer r r'"
proof -
  obtain p where p: "sanitize_path X (ho_base_path o') (ho_uri_path o') = Inr p" by (auto simp: sanitize_path_def)
  let ?p = "cache_path o' p"
  show ?thesis
  proof (cases "ho_memory_cache o' \<noteq> None \<and> valid_utf8 ?p \<and> st ?p \<noteq> None")
    case False
    with assms(7) p have "handle X F st closed o' = Inr (r', q)"
      by (auto simp: handle_def get_or_acquire_def path_to_str_def Let_def split: if_split_asm option.splits)
    then show ?thesis by auto
  next
    case True
    then obtain mf where mf: "st ?p = Some mf" by auto
    have "entry_faithful X P ?p mf"
      by (rule entries_faithful [OF assms(1) _ assms(3) mf]) (metis assms(2))
    then obtain F' o'' where P: "P F' o''" and e: "entry_ok X F' ?p mf"
      unfolding entry_faithful_def by blast
    from assms(2) [OF P] e have e: "entry_ok X F ?p mf" and small: "small_files F"
      by (simp_all add: cacheable_def)
    from e obtain nd where nd: "fs_open F ?p = Inr nd" "mf_data mf = nd_content nd" "mf_data mf \<noteq> []"
      by (auto simp: entry_ok_def)
    then have reg: "is_regular nd" by (auto simp: nd_content_def is_regular_def split: file_kind.splits)
    from regular_file_reply [OF assms(5,6) p nd(1) reg assms(7)] have q: "q = ?p"
      "response_body X nd q nd (conditional_headers_new X (ho_headers o')) (ho_memory_cache o') = Inr r'" by blast+
    have err: "nd_read_err nd = None" using assms(4) nd(1) by blast
    have al: "is_allowed (ho_method o')" using assms(5) by (auto simp: is_allowed_iff)
    have hit: ?thesis if r: "mem_file_response_body X mf (ho_headers o') = Inr r" for r
    proof -
      have "handle X F st closed o' = Inr (r, q)"
        unfolding handle_def p Let_def using q(1) mf True al r
        by (simp add: get_or_acquire_def path_to_str_def)
      with hit_like_file [OF e small nd(1) err r, of "ho_memory_cache o'"] hit_sends [OF r] q show ?thesis
        by (auto simp: same_answer_def)
    qed
    obtain r where "mem_file_response_body X mf (ho_headers o') = Inr r"
      by (cases "mem_file_response_body X mf (ho_headers o')")
        (auto simp: mem_file_response_body_def Let_def split: conditional_body.splits sum.splits prod.splits)
    then show ?thesis by (rule hit [of r])
  qed
qed

section \<open>The server with and without the cache\<close>

lemma response_body_cache:
  assumes "response_body X nd p meta cond c1 = Inr r'"
  shows "\<exists>r. response_body X nd p meta cond c2 = Inr r \<and> same_answer r r'"
proof -
  have b: "body_bytes (file_body X p rd bs len ct m c1) = body_bytes (file_body X p rd bs len ct m c2)"
    "body_bytes (file_body X p rd bs len ct m c) \<noteq> None" for rd bs len ct m c
    by (simp_all add: body_bytes_file_body)
  have "same_answer (range_response X (file_body X p rd bs len ct m c2) a e n ct m)
      (range_response X (file_body X p rd bs len ct m c1) a e n ct m)" for rd bs len ct m a e n
    using range_response_same [of X "file_body X p rd bs len ct m c2" a e n ct m "file_body X p rd bs len ct m c1"] b
      range_response_sends [of "file_body X p rd bs len ct m c2" "take_bytes rd" X a e n ct m]
    by (auto simp: same_answer_def body_bytes_file_body)
  with assms show ?thesis
    by (auto simp: response_body_def Let_def split: conditional_body.splits sum.splits prod.splits if_splits)
qed

lemma file_reply_cache:
  "file_reply X F h p meta pc c1 = Inr r' \<Longrightarrow> \<exists>r. file_reply X F h p meta pc c2 = Inr r \<and> same_answer r r'"
  by (auto simp: file_reply_def Let_def dest: response_body_cache [of _ _ _ _ _ _ _ c2] split: sum.splits)

lemma cache_option_simps:
  "ho_method (o'\<lparr>ho_memory_cache := c\<rparr>) = ho_method o'" "ho_headers (o'\<lparr>ho_memory_cache := c\<rparr>) = ho_headers o'"
  "ho_base_path (o'\<lparr>ho_memory_cache := c\<rparr>) = ho_base_path o'" "ho_uri_path (o'\<lparr>ho_memory_cache := c\<rparr>) = ho_uri_path o'"
  "ho_uri_query (o'\<lparr>ho_memory_cache := c\<rparr>) = ho_uri_query o'" "ho_dir_listing (o'\<lparr>ho_memory_cache := c\<rparr>) = ho_dir_listing o'"
  "ho_dir_listing_order (o'\<lparr>ho_memory_cache := c\<rparr>) = ho_dir_listing_order o'"
  "ho_dir_listing_format (o'\<lparr>ho_memory_cache := c\<rparr>) = ho_dir_listing_format o'"
  "ho_dir_listing_download (o'\<lparr>ho_memory_cache := c\<rparr>) = ho_dir_listing_download o'"
  "ho_ignore_hidden_files (o'\<lparr>ho_memory_cache := c\<rparr>) = ho_ignore_hidden_files o'"
  "ho_disable_symlinks (o'\<lparr>ho_memory_cache := c\<rparr>) = ho_disable_symlinks o'"
  by simp_all

lemma cache_option_unused:
  "trailing_slash_redirect X (o'\<lparr>ho_memory_cache := c\<rparr>) = trailing_slash_redirect X o'"
  "directory_reply X F (o'\<lparr>ho_memory_cache := c\<rparr>) p = directory_reply X F o' p"
  "path_checks F (o'\<lparr>ho_memory_cache := c\<rparr>) p = path_checks F o' p"
  unfolding trailing_slash_redirect_def directory_reply_def download_requested_def list_opts_def path_checks_def
    cache_option_simps by (rule refl)+

lemma checked_reply_cache:
  assumes "checked_reply X F (o'\<lparr>ho_memory_cache := c\<rparr>) fm = Inr r'"
  shows "\<exists>r. checked_reply X F o' fm = Inr r \<and> same_answer r r'"
proof -
  have "\<exists>r. precompressed_reply X F o' fm q enc = Inr r \<and> same_answer r r'"
    if "precompressed_reply X F (o'\<lparr>ho_memory_cache := c\<rparr>) fm q enc = Inr r'" for q enc
  proof -
    from that obtain r1 w where r1: "file_reply X F (ho_headers o') (fm_file_path fm) (fm_metadata fm) (Some q) c = Inr r1"
      "x_header_value X (coding_str enc) = Some w" "r' = rs_insert ''content-encoding'' w (rs_remove ''content-length'' r1)"
      by (auto simp: precompressed_reply_def res_bind_Inr_iff split: option.splits)
    from file_reply_cache [OF r1(1), of "ho_memory_cache o'"] obtain r2 where
      "file_reply X F (ho_headers o') (fm_file_path fm) (fm_metadata fm) (Some q) (ho_memory_cache o') = Inr r2"
      "same_answer r2 r1" by blast
    with r1(2,3) show ?thesis by (simp add: precompressed_reply_def same_answer_headers)
  qed
  moreover have "\<exists>r. file_reply X F (ho_headers o') (fm_file_path fm) (fm_metadata fm) None (ho_memory_cache o') = Inr r \<and> same_answer r r'"
    if "file_reply X F (ho_headers o') (fm_file_path fm) (fm_metadata fm) None c = Inr r'"
    using that by (rule file_reply_cache)
  ultimately show ?thesis
    using assms by (auto simp: checked_reply_def cache_option_unused split: if_splits option.splits)
qed

text \<open>With an empty cache the server answers as without one, when the path is not extended for the cache.\<close>

lemma handle_cache_off:
  assumes "handle X F st closed (o'\<lparr>ho_memory_cache := None\<rparr>) = Inr (r', q)"
    and "\<not> (ho_redirect_trailing_slash o' \<and> suffix ''/'' (ho_uri_path o'))"
  shows "\<exists>r. handle X F Map.empty False o' = Inr (r, q) \<and> same_answer r r'"
proof -
  have al: "is_allowed (ho_method o')" using assms(1) by (auto simp: handle_def split: if_splits)
  have k: "cache_path (o'\<lparr>ho_memory_cache := c\<rparr>) p = p" "cache_path o' p = p" for c p
    using assms(2) by (auto simp: cache_path_def)
  from assms(1) show ?thesis
  proof (cases rule: handle_hit_or_file)
    case (fresh p fm)
    from checked_reply_cache [OF fresh(4)] obtain r where "checked_reply X F o' fm = Inr r" "same_answer r r'" by blast
    with fresh al k show ?thesis by (simp add: handle_def get_or_acquire_def path_to_str_def Let_def cache_option_unused)
  qed simp
qed

section \<open>A file that is sent in full enters the cache\<close>

lemma mem_drain_settled:
  "ms_mem_buf s = None \<Longrightarrow> mem_drain X fuel s st = Some (cs, e, st') \<Longrightarrow> st' = st"
proof (induction fuel arbitrary: s st cs)
  case (Suc fuel)
  obtain it s1 st1 where p: "mem_poll_next X s st = (it, s1, st1)" by (metis prod_cases3)
  with Suc.prems(1) have "ms_mem_buf s1 = None" "st1 = st"
    by (auto simp: mem_poll_next_def mem_stream_record_def split: prod.splits sum.splits if_splits option.splits)
  with p Suc show ?case by (cases it) (auto simp: mem_drain.simps(2))
qed simp

lemma mem_poll_item:
  "mem_poll_next X s st = (Item bs, s1, st1) \<Longrightarrow> \<exists>r. take_bytes (ms_reader s) = bs @ take_bytes r \<and> bs \<noteq> [] \<and>
     mem_stream_record X (s\<lparr>ms_reader := r\<rparr>) bs st = (s1, st1) \<and> ms_reader s1 = r"
  using taken.rd_data
  by (auto simp: mem_poll_next_def split: prod.splits sum.splits if_splits)
    (metis fst_conv mem_cache_stream.select_convs(1) mem_cache_stream.surjective mem_cache_stream.update_convs(1) mem_stream_record_reader(1))+

lemma mem_drain_fills:
  assumes "ms_mem_opts s = Some t" "ms_mem_buf s = Some b" "0 < ms_buf_size s"
    and "bm_capacity b = length (bm_data b) + length (take_bytes (ms_reader s))" "take_bytes (ms_reader s) \<noteq> []"
    and "mem_drain X fuel s st = Some (cs, None, st')"
  shows "st' = st(mt_file_path t \<mapsto>
    mem_file_new (bm_data b @ take_bytes (ms_reader s)) (ms_buf_size s) (mt_content_type t) (mt_last_modified t))"
  using assms
proof (induction fuel arbitrary: s b st cs)
  case (Suc fuel)
  obtain it s1 st1 where p: "mem_poll_next X s st = (it, s1, st1)" by (metis prod_cases3)
  show ?case
  proof (cases it)
    case Finished
    with mem_poll_refines [OF p] taken.poll_finished Suc.prems(3,5) show ?thesis
      by (fastforce simp: plain_stream_def)
  next
    case (Fail e)
    with p Suc.prems(6) show ?thesis by (simp add: mem_drain.simps(2))
  next
    case (Item bs)
    with p obtain r where r: "take_bytes (ms_reader s) = bs @ take_bytes r" "bs \<noteq> []" "ms_reader s1 = r"
      "mem_stream_record X (s\<lparr>ms_reader := r\<rparr>) bs st = (s1, st1)"
      using mem_poll_item by blast
    from Item p Suc.prems(6) obtain cs1 where d: "mem_drain X fuel s1 st1 = Some (cs1, None, st')"
      by (auto simp: mem_drain.simps(2))
    have put: "bytes_mut_put X b bs = \<lparr>bm_data = bm_data b @ bs, bm_capacity = bm_capacity b\<rparr>"
      using Suc.prems(4) r(1) by (simp add: bytes_mut_put_def)
    have keeps: "ms_mem_opts s1 = Some t" "ms_buf_size s1 = ms_buf_size s"
      using mem_poll_path [OF p] Suc.prems(1) mem_poll_refines [OF p] taken.poll_item(4) [of "plain_stream s" bs "plain_stream s1"] Item
      by (auto simp: plain_stream_def)
    show ?thesis
    proof (cases "take_bytes r = []")
      case True
      with r(1) r(4) [symmetric] Suc.prems(1,2,4) put have "ms_mem_buf s1 = None" "st1 = st(mt_file_path t \<mapsto>
          mem_file_new (bm_data b @ take_bytes (ms_reader s)) (ms_buf_size s) (mt_content_type t) (mt_last_modified t))"
        by (auto simp: mem_stream_record_def Let_def)
      with mem_drain_settled d show ?thesis by blast
    next
      case False
      with r(1,2) r(4) [symmetric] Suc.prems(1,2,4) put have b: "ms_mem_buf s1 = Some \<lparr>bm_data = bm_data b @ bs, bm_capacity = bm_capacity b\<rparr>" "st1 = st"
        by (auto simp: mem_stream_record_def Let_def)
      from Suc.IH [OF keeps(1) b(1) _ _ _ d] keeps(2) b(2) r(1,3) False Suc.prems(3,4) show ?thesis by simp
    qed
  qed
qed simp

lemma mem_drain_complete:
  assumes "source_err (tr_source (ms_reader s)) = None" "0 < ms_buf_size s"
    and "length (take_bytes (ms_reader s)) < fuel"
  shows "\<exists>cs st'. mem_drain X fuel s st = Some (cs, None, st') \<and> concat cs = take_bytes (ms_reader s)"
proof -
  from drain_complete [of "plain_stream s" fuel] assms obtain cs where
    "drain take_read fuel (plain_stream s) = Some (cs, None)" "concat cs = take_bytes (ms_reader s)"
    by (auto simp: plain_stream_def)
  with mem_drain_refines [of X fuel s st] show ?thesis
    by (cases "mem_drain X fuel s st") auto
qed

lemma file_reply_fills:
  assumes "fs_open F (case pc of Some q \<Rightarrow> q | None \<Rightarrow> p) = Inr nd" "is_regular nd" "nd_read_err nd = None"
    and "nd_len meta \<le> length (nd_content nd)" "0 < nd_len meta" "nd_len meta < 2 ^ 64"
    and "of_nat (nd_len meta) \<le> mc_max_file_size opts" "valid_utf8 p" "\<And>n. x_bytes_capacity X n = n"
    and "conditional_check X (conditional_headers_new X h) (meta_modified X meta) = WithBody None"
  shows "\<exists>r s cs. file_reply X F h p meta pc (Some opts) = Inr r \<and> rs_status r = 200 \<and> rs_body r = Mem_Cache_Body s \<and>
    concat cs = take (nd_len meta) (nd_content nd) \<and>
    mem_drain X (Suc (nd_len meta)) s st = Some (cs, None, st(p \<mapsto>
      mem_file_new (take (nd_len meta) (nd_content nd)) (optimal_buf_size (nd_blksize meta) (nd_len meta))
        (x_mime_from_path X p) (meta_modified X meta)))"
proof -
  let ?n = "nd_len meta" and ?bs = "optimal_buf_size (nd_blksize meta) (nd_len meta)"
  let ?s = "\<lparr>ms_reader = open_reader (nd_content nd) None 0 ?n, ms_buf_size = ?bs,
    ms_mem_opts = Some \<lparr>mt_file_path = p, mt_content_type = x_mime_from_path X p, mt_last_modified = meta_modified X meta\<rparr>,
    ms_mem_buf = Some \<lparr>bm_data = [], bm_capacity = ?n\<rparr>\<rparr>"
  have u: "unat (of_nat ?n :: u64) = ?n" using assms(6) by (rule unat_u64)
  have nf: "\<not> seek_fails nd" using assms(2) by (auto simp: is_regular_def seek_fails_def split: file_kind.splits)
  have bs: "0 < ?bs" using assms(5) by (auto simp: optimal_buf_size_def get_block_size_def DEFAULT_READ_BUF_SIZE_def)
  have tb: "take_bytes (ms_reader ?s) = take ?n (nd_content nd)" by (simp add: take_bytes_open)
  let ?r = "range_response X (Mem_Cache_Body ?s) 0 (of_nat ?n) (of_nat ?n) (x_mime_from_path X p) (meta_modified X meta)"
  have reply: "file_reply X F h p meta pc (Some opts) = Inr ?r"
    using assms(1,3,7,8) u nf
    by (simp add: file_reply_def response_body_def assms(9,10) bytes_range_def Let_def file_body_def path_to_str_def)
  have st: "rs_status ?r = 200" "rs_body ?r = Mem_Cache_Body ?s"
    by (auto simp: range_response_def Let_def split: option.split)
  have "\<exists>cs st'. mem_drain X (Suc ?n) ?s st = Some (cs, None, st') \<and> concat cs = take_bytes (ms_reader ?s)"
    by (rule mem_drain_complete) (simp_all add: bs take_bytes_open, simp add: open_reader_def)
  then obtain cs st' where
    d: "mem_drain X (Suc ?n) ?s st = Some (cs, None, st')" "concat cs = take ?n (nd_content nd)"
    unfolding tb by blast
  have ne: "take ?n (nd_content nd) \<noteq> []" using assms(4,5) by auto
  have "st' = st(p \<mapsto> mem_file_new (take ?n (nd_content nd)) ?bs (x_mime_from_path X p) (meta_modified X meta))"
    using mem_drain_fills [of ?s _ _ X "Suc ?n" st cs st', OF _ _ _ _ _ d(1)] bs tb ne assms(4) by simp
  with reply st d show ?thesis by blast
qed

section \<open>Properties\<close>

text \<open>C13. Whatever the file server answers with success, from a file or from the cache, is under a path that
  a request passed the checks with, this one or an earlier one that filled the cache: the path that was checked starts with the
  root of that request, resolves to a place at or below the place of the root, has no link below the
  root when links are disabled and no hidden component when hidden files are ignored. Requests are
  interleaved, streams polled and entries evicted in any order, in file systems that change.\<close>

theorem answers_from_checked_paths:
  assumes "cache_reachable X P (st, ss)" "handle X F st closed o' = Inr (resp, q)"
    and "fs_wf F" "\<And>F' o''. P F' o'' \<Longrightarrow> fs_wf F'"
  shows "\<exists>F' o'' fm rel ms ns. checked_file X F' o'' fm \<and> q = fm_file_path fm \<and>
    ((F', o'') = (F, o') \<or> P F' o'' \<and> st q \<noteq> None \<and>
      (\<exists>p. sanitize_path X (ho_base_path o') (ho_uri_path o') = Inr p \<and> q = cache_path o' p)) \<and>
    path_strip_prefix (checked_path fm) (ho_base_path o'') = Some rel \<and>
    resolve F' (ho_base_path o'') = Inr ms \<and> resolve F' (checked_path fm) = Inr ns \<and> prefix ms ns \<and>
    (if ho_disable_symlinks o'' then contains_symlink F' rel (ho_base_path o'') = Inr False else True) \<and>
    (if ho_ignore_hidden_files o'' then \<not> is_hidden rel else True)"
proof -
  from answered_from_checked_file [OF assms(1,2)] obtain F' o'' fm where a: "checked_file X F' o'' fm" "q = fm_file_path fm"
    "(F', o'') = (F, o') \<or> P F' o'' \<and> st q \<noteq> None \<and>
      (\<exists>p. sanitize_path X (ho_base_path o') (ho_uri_path o') = Inr p \<and> q = cache_path o' p)" by blast
  with assms(3,4) have "fs_wf F'" by blast
  from checked_file_contained [OF this a(1)] a show ?thesis by blast
qed

text \<open>C19. Cached files are the files of their paths, under these conditions on the requests that fill the cache: sizes fit
  64 bits, the names of index files are plain, every pre-compressed variant that is chosen is
  shorter than the size it is sent with (so always without static compression), and a buffer has the capacity that
  was asked for. Then, whatever requests are interleaved, however their streams are polled and whatever is evicted, an entry
  holds the whole content that the file of its path had when a request found it, with its media
  type and modification date; a stream that sends a part of a file never leaves a partial entry.\<close>

theorem cached_files_faithful:
  assumes "cache_reachable X P (st, ss)" "\<And>F o'. P F o' \<Longrightarrow> cacheable X F o'" "\<And>n. x_bytes_capacity X n = n"
    and "st k = Some mf"
  shows "\<exists>F o' nd. P F o' \<and> file_found X F o' k \<and> fs_open F k = Inr nd \<and> mf_data mf = nd_content nd \<and>
    mf_content_type mf = x_mime_from_path X k \<and> mf_last_modified mf = meta_modified X nd"
  using entries_faithful [OF assms] by (auto simp: entry_faithful_def entry_ok_def)

text \<open>C20. Switching the cache on does not change the file a client gets: a GET or HEAD request without static compression, whose
  path does not end with a slash (or with the redirect for slashes disabled), and which the server
  with the cache switched off answers with success, is answered with the cache on under the same path with the
  same status, the same headers and the same bytes, whatever other requests were answered, sent and evicted
  before. The files do not change meanwhile and can be read without errors, and the requests that fill the cache meet the
  conditions under which entries are the files of their paths. Not covered, because they differ: OPTIONS
  requests and requests that the checks refuse (a hit comes before both), and directories with a
  slash, for which the cache only knows \<open>index.html\<close>.\<close>

theorem cache_transparent:
  assumes "cache_reachable X P (st, ss)" "\<And>F' o''. P F' o'' \<Longrightarrow> F' = F \<and> cacheable X F o''"
    and "\<And>n. x_bytes_capacity X n = n" "\<And>p nd. fs_open F p = Inr nd \<Longrightarrow> nd_read_err nd = None"
    and "is_get (ho_method o') \<or> is_head (ho_method o')" "\<not> ho_compression_static o'"
    and "\<not> (ho_redirect_trailing_slash o' \<and> suffix ''/'' (ho_uri_path o'))"
    and "handle X F st' closed (o'\<lparr>ho_memory_cache := None\<rparr>) = Inr (r', q)"
  shows "\<exists>r. handle X F st False o' = Inr (r, q) \<and> same_answer r r'"
proof -
  from handle_cache_off [OF assms(8,7)] obtain r0 where r0: "handle X F Map.empty False o' = Inr (r0, q)" "same_answer r0 r'"
    by blast
  have "\<exists>r. handle X F st False o' = Inr (r, q) \<and> same_answer r r0"
    by (rule cache_transparent_lemma [OF assms(1) _ assms(3) _ assms(5,6) r0(1)]) (use assms(2,4) in blast)+
  with r0(2) show ?thesis by (blast intro: same_answer_trans)
qed

text \<open>C22. A pre-compressed variant poisons the cache: when it is at least as long as the size it is sent with,
  as it always is for an index file of a directory, sending it to its end enters its first bytes under
  the path of the original with the media type of the original, and a later request that accepts no
  coding is answered with them from the cache, without a content-encoding.\<close>

theorem variant_poisons_cache:
  assumes "fs_open F q = Inr nd" "is_regular nd" "nd_read_err nd = None"
    and "nd_len meta \<le> length (nd_content nd)" "0 < nd_len meta" "nd_len meta < 2 ^ 64"
    and "of_nat (nd_len meta) \<le> mc_max_file_size opts" "valid_utf8 p" "\<And>n. x_bytes_capacity X n = n"
    and "conditional_check X (conditional_headers_new X h) (meta_modified X meta) = WithBody None"
    and "conditional_check X (conditional_headers_new X h') (meta_modified X meta) = WithBody None"
  shows "\<exists>r s cs st' r'. file_reply X F h p meta (Some q) (Some opts) = Inr r \<and> rs_body r = Mem_Cache_Body s \<and>
    mem_drain X (Suc (nd_len meta)) s st = Some (cs, None, st') \<and>
    get_or_acquire X st' closed p h' = Some (Inr r') \<and> rs_status r' = 200 \<and>
    rs_get ''content-encoding'' r' = None \<and> rs_get ''content-type'' r' = Some (x_mime_from_path X p) \<and>
    body_bytes (rs_body r') = Some (take (nd_len meta) (nd_content nd))"
proof -
  let ?mf = "mem_file_new (take (nd_len meta) (nd_content nd)) (optimal_buf_size (nd_blksize meta) (nd_len meta))
        (x_mime_from_path X p) (meta_modified X meta)"
  from file_reply_fills [where pc = "Some q" and F = F and p = p and nd = nd and meta = meta and opts = opts and X = X and h = h and st = st] assms obtain r s cs where
    "file_reply X F h p meta (Some q) (Some opts) = Inr r" "rs_body r = Mem_Cache_Body s"
    "mem_drain X (Suc (nd_len meta)) s st = Some (cs, None, st(p \<mapsto> ?mf))"
    by auto
  moreover from assms(4-6) have "unat (of_nat (nd_len meta) :: u64) = nd_len meta" by (simp add: unat_u64)
  then obtain r' where "mem_file_response_body X ?mf h' = Inr r'" "rs_status r' = 200"
    "rs_get ''content-encoding'' r' = None" "rs_get ''content-type'' r' = Some (x_mime_from_path X p)"
    "body_bytes (rs_body r') = Some (take (nd_len meta) (nd_content nd))"
    using assms(4,11)
    by (auto simp: mem_file_response_body_def mem_file_new_def bytes_range_def Let_def range_response_def
        take_bytes_cursor headers_simp split: option.split)
  moreover have "get_or_acquire X (st(p \<mapsto> ?mf)) closed p h' = Some (mem_file_response_body X ?mf h')"
    using assms(8) by (simp add: get_or_acquire_def path_to_str_def)
  ultimately show ?thesis by metis
qed

text \<open>C21. A file that is sent enters the cache: when a small readable file is answered in full and its stream is
  polled to its end, the polls give the whole content, the number of polls is bounded by its length,
  only the entry of its path changes, and whatever is asked for under that path is answered from
  the cache from then on.\<close>

theorem sent_file_enters_cache:
  assumes "fs_open F p = Inr nd" "is_regular nd" "nd_read_err nd = None"
    and "nd_content nd \<noteq> []" "length (nd_content nd) < 2 ^ 64"
    and "of_nat (length (nd_content nd)) \<le> mc_max_file_size opts" "valid_utf8 p" "\<And>n. x_bytes_capacity X n = n"
    and "conditional_check X (conditional_headers_new X h) (meta_modified X nd) = WithBody None"
  shows "\<exists>r s cs mf. file_reply X F h p nd None (Some opts) = Inr r \<and> rs_status r = 200 \<and> rs_body r = Mem_Cache_Body s \<and>
    mem_drain X (Suc (length (nd_content nd))) s st = Some (cs, None, st(p \<mapsto> mf)) \<and> concat cs = nd_content nd \<and>
    mf_data mf = nd_content nd \<and>
    (\<forall>h'. get_or_acquire X (st(p \<mapsto> mf)) closed p h' = Some (mem_file_response_body X mf h'))"
proof -
  have len: "nd_len nd = length (nd_content nd)"
    using assms(2) by (auto simp: nd_len_def nd_content_def is_regular_def split: file_kind.splits)
  from file_reply_fills [where pc = None and F = F and p = p and nd = nd and meta = nd and opts = opts and X = X and h = h and st = st]
    assms len obtain r s cs where
    "file_reply X F h p nd None (Some opts) = Inr r" "rs_status r = 200" "rs_body r = Mem_Cache_Body s"
    "concat cs = nd_content nd"
    "mem_drain X (Suc (length (nd_content nd))) s st = Some (cs, None, st(p \<mapsto>
      mem_file_new (nd_content nd) (optimal_buf_size (nd_blksize nd) (nd_len nd)) (x_mime_from_path X p) (meta_modified X nd)))"
    by auto
  then show ?thesis
    using assms(7) by (fastforce simp: mem_file_new_def get_or_acquire_def path_to_str_def)
qed

text \<open>A pre-compressed variant whose original does not exist is found by the lookup and then refused: the check that
  follows resolves the path of the original.\<close>

theorem variant_without_original_refused:
  assumes "is_allowed (ho_method o')" "ho_memory_cache o' = None"
    and "sanitize_path X (ho_base_path o') (ho_uri_path o') = Inr p"
    and "resolve F p = Inl e" "static_variant X F (ho_compression_static o') p (ho_headers o') = Some v"
  shows "get_composed_file_metadata X F p (ho_headers o') (ho_compression_static o') (ho_index_files o')
      = Inr (variant_metadata p v) \<and>
    handle X F st closed o' = Inl 404"
proof -
  have "try_metadata F p = Inl 404"
    using assms(4) by (simp add: try_metadata_def fs_metadata_def stat_with_def)
  with assms(5) have c: "get_composed_file_metadata X F p (ho_headers o') (ho_compression_static o') (ho_index_files o')
      = Inr (variant_metadata p v)"
    by (simp add: get_composed_file_metadata_def)
  have "path_checks F o' p = Inl 404"
    using assms(4) by (auto simp: path_checks_def fs_canonicalize_def split: option.split sum.split)
  with c assms(1-3) show ?thesis
    by (simp add: handle_def cache_path_def variant_metadata_def checked_path_def)
qed

text \<open>A hit answers before the method is looked at and before the path is checked: an OPTIONS request gets the
  file, and links or hidden names on the path do not matter any more.\<close>

theorem hit_before_checks:
  assumes "is_allowed (ho_method o')" "ho_memory_cache o' \<noteq> None" "st (cache_path o' p) = Some mf"
    and "sanitize_path X (ho_base_path o') (ho_uri_path o') = Inr p" "valid_utf8 (cache_path o' p)"
    and "mem_file_response_body X mf (ho_headers o') = Inr r"
  shows "handle X F st closed o' = Inr (r, cache_path o' p)"
  using assms by (simp add: handle_def get_or_acquire_def path_to_str_def Let_def)

section \<open>Concrete requests\<close>

text \<open>Polling a stream to its end is a run of the transition system.\<close>

lemma drain_reachable:
  "cache_reachable X P (st, s # ss) \<Longrightarrow> mem_drain X fuel s st = Some (cs, e, st') \<Longrightarrow>
   \<exists>s'. cache_reachable X P (st', s' # ss)"
proof (induction fuel arbitrary: s st cs)
  case (Suc fuel)
  obtain it s1 st1 where p: "mem_poll_next X s st = (it, s1, st1)" by (metis prod_cases3)
  have "cache_step X P (st, s # ss) (st1, (s # ss)[0 := s1])" by (rule cache_step.poll) (simp_all add: p)
  with Suc.prems(1) have r: "cache_reachable X P (st1, s1 # ss)" by (auto intro: cache_reachable.step)
  show ?case
  proof (cases it)
    case (Item bs)
    with Suc.prems(2) p obtain cs1 where "mem_drain X fuel s1 st1 = Some (cs1, e, st')"
      by (auto simp: mem_drain.simps(2))
    from Suc.IH [OF r this] show ?thesis .
  qed (use Suc.prems(2) p r in \<open>auto simp: mem_drain.simps(2)\<close>)
qed simp

definition demo_cached :: "string \<Rightarrow> handle_opts" where
  "demo_cached u = (demo_handle u)\<lparr>ho_memory_cache := Some demo_mem_opts\<rparr>"

definition demo_requests :: requests where
  "demo_requests F o' = (F = demo_fs \<and> o' = demo_cached ''/a.html'')"

definition demo_cache_entry :: mem_file where
  "demo_cache_entry = \<lparr>mf_data = ''hello'', mf_buf_size = 5, mf_content_type = ''text/html'', mf_last_modified = None\<rparr>"

lemma demo_open: "fs_open demo_fs ''/srv/a.html'' = Inr demo_file"
  by (simp add: fs_open_def demo_resolves demo_file_def)

lemma demo_read: "fs_open demo_fs p = Inr nd \<Longrightarrow> nd_read_err nd = None"
  by (auto simp: fs_open_def fs_metadata_def stat_with_def res_bind_Inr_iff fs_lookup_def root_inode_def demo_fs_eval
      split: sum.splits option.splits fs_error.splits if_splits)

lemma demo_small: "small_files demo_fs"
  by (rule small_files_nodes) (simp add: demo_fs_def demo_file_def demo_dir_def demo_link_def nd_content_def nd_len_def)

lemma demo_cached_simps [simp]:
  "ho_method (demo_cached u) = ''GET''" "ho_memory_cache (demo_cached u) = Some demo_mem_opts"
  "ho_headers (demo_cached u) = []" "ho_base_path (demo_cached u) = ''/srv''" "ho_uri_path (demo_cached u) = u"
  "ho_index_files (demo_cached u) = [''index.html'']" "ho_compression_static (demo_cached u) = False"
  "ho_disable_symlinks (demo_cached u) = True" "ho_ignore_hidden_files (demo_cached u) = True"
  "ho_redirect_trailing_slash (demo_cached u) = True"
  by (simp_all add: demo_cached_def)

lemma demo_cached_checks: "path_checks F (demo_cached u) p = path_checks F (demo_handle u) p"
  unfolding path_checks_def demo_cached_simps demo_handle_simps ..

lemma demo_cacheable: "demo_requests F o' \<Longrightarrow> F = demo_fs \<and> cacheable demo_ext demo_fs o'"
  by (auto simp: demo_requests_def is_normal_name_def demo_small intro!: cacheable_without_variants)

lemma demo_utf8: "valid_utf8 ''/srv/a.html''" "valid_utf8 ''/a.html''"
  by (rule valid_utf8_ascii; simp)+

lemma demo_filled:
  obtains r s cs where "file_reply demo_ext demo_fs [] ''/srv/a.html'' demo_file None (Some demo_mem_opts) = Inr r"
    "rs_status r = 200" "rs_body r = Mem_Cache_Body s" "concat cs = ''hello''"
    "mem_drain demo_ext (Suc 5) s Map.empty = Some (cs, None, Map.empty(''/srv/a.html'' \<mapsto> demo_cache_entry))"
proof -
  have m: "x_mime_from_path demo_ext ''/srv/a.html'' = ''text/html''" by (simp add: suffix_to_prefix)
  have e: "mem_file_new (take 5 ''hello'') (optimal_buf_size 4096 5)
      (x_mime_from_path demo_ext ''/srv/a.html'') (meta_modified demo_ext demo_file) = demo_cache_entry"
    by (simp add: demo_cache_entry_def mem_file_new_def optimal_buf_size_def get_block_size_def DEFAULT_READ_BUF_SIZE_def
        demo_file_simps meta_modified_def suffix_to_prefix)
  have "\<exists>r s cs. file_reply demo_ext demo_fs [] ''/srv/a.html'' demo_file None (Some demo_mem_opts) = Inr r \<and> rs_status r = 200 \<and>
    rs_body r = Mem_Cache_Body s \<and> concat cs = take (nd_len demo_file) (nd_content demo_file) \<and>
    mem_drain demo_ext (Suc (nd_len demo_file)) s Map.empty = Some (cs, None, Map.empty(''/srv/a.html'' \<mapsto>
      mem_file_new (take (nd_len demo_file) (nd_content demo_file)) (optimal_buf_size (nd_blksize demo_file) (nd_len demo_file))
        (x_mime_from_path demo_ext ''/srv/a.html'') (meta_modified demo_ext demo_file)))"
    by (rule file_reply_fills)
      (use demo_unconditional in \<open>simp_all add: demo_open demo_file_simps demo_utf8 demo_mem_opts_def\<close>)
  then show ?thesis using that unfolding demo_file_simps e by force
qed

lemma demo_answered:
  obtains r s where "handle demo_ext demo_fs Map.empty False (demo_cached ''/a.html'') = Inr (r, ''/srv/a.html'')"
    "rs_body r = Mem_Cache_Body s"
    "cache_reachable demo_ext demo_requests (Map.empty, [s])"
    "\<exists>ss. cache_reachable demo_ext demo_requests (Map.empty(''/srv/a.html'' \<mapsto> demo_cache_entry), ss)"
proof -
  obtain r s cs where f: "file_reply demo_ext demo_fs [] ''/srv/a.html'' demo_file None (Some demo_mem_opts) = Inr r"
    "rs_status r = 200" "rs_body r = Mem_Cache_Body s" "concat cs = ''hello''"
    "mem_drain demo_ext (Suc 5) s Map.empty = Some (cs, None, Map.empty(''/srv/a.html'' \<mapsto> demo_cache_entry))"
    by (rule demo_filled)
  have h: "handle demo_ext demo_fs Map.empty False (demo_cached ''/a.html'') = Inr (r, ''/srv/a.html'')"
    using f(1) demo_checks(2) [of "''/a.html''"]
    by (simp add: handle_def cache_path_def demo_places get_or_acquire_def path_to_str_def demo_utf8
        get_composed_file_metadata_def try_metadata_def demo_resolves is_dir_node_def demo_file_simps static_variant_def
        checked_path_def checked_reply_def is_options_def Let_def suffix_to_prefix demo_cached_checks)
  have "cache_step demo_ext demo_requests (Map.empty, []) (Map.empty, [s])"
    by (rule cache_step.start [OF _ h f(3)]) (simp add: demo_requests_def)
  then have "cache_reachable demo_ext demo_requests (Map.empty, [s])"
    by (rule cache_reachable.step [OF cache_reachable.initial])
  with drain_reachable [OF this f(5)] that [OF h f(3)] show ?thesis by blast
qed

lemma demo_answered_off:
  "\<exists>r. handle demo_ext demo_fs Map.empty False (demo_handle ''/a.html'') = Inr (r, ''/srv/a.html'')"
  using demo_checks(2) [of "''/a.html''"] demo_unconditional
  by (simp add: handle_def cache_path_def demo_places get_composed_file_metadata_def try_metadata_def demo_resolves
      is_dir_node_def demo_file_simps static_variant_def checked_path_def checked_reply_def is_options_def Let_def
      suffix_to_prefix file_reply_def demo_open response_body_def bytes_range_def seek_fails_def meta_modified_def)

theorem answers_from_checked_paths_witness:
  "\<exists>ss r ms ns. handle demo_ext demo_fs (Map.empty(''/srv/a.html'' \<mapsto> demo_cache_entry)) False (demo_cached ''/a.html'')
       = Inr (r, ''/srv/a.html'') \<and>
     cache_reachable demo_ext demo_requests (Map.empty(''/srv/a.html'' \<mapsto> demo_cache_entry), ss) \<and>
     resolve demo_fs ''/srv'' = Inr ms \<and> prefix ms ns"
proof -
  obtain r' s where d: "handle demo_ext demo_fs Map.empty False (demo_cached ''/a.html'') = Inr (r', ''/srv/a.html'')"
    "\<exists>ss. cache_reachable demo_ext demo_requests (Map.empty(''/srv/a.html'' \<mapsto> demo_cache_entry), ss)"
    by (rule demo_answered)
  then obtain ss where ss: "cache_reachable demo_ext demo_requests (Map.empty(''/srv/a.html'' \<mapsto> demo_cache_entry), ss)" by blast
  have "\<exists>r. handle demo_ext demo_fs (Map.empty(''/srv/a.html'' \<mapsto> demo_cache_entry)) False (demo_cached ''/a.html'')
      = Inr (r, ''/srv/a.html'') \<and> same_answer r r'"
    by (rule cache_transparent_lemma [OF ss demo_cacheable _ _ _ _ d(1)]) (simp_all add: is_get_def demo_read)
  then obtain r where r: "handle demo_ext demo_fs (Map.empty(''/srv/a.html'' \<mapsto> demo_cache_entry)) False (demo_cached ''/a.html'')
      = Inr (r, ''/srv/a.html'')" by blast
  have wf: "fs_wf demo_fs" by (simp add: fs_wf_def demo_fs_def)
  have P: "F' = demo_fs \<and> o'' = demo_cached ''/a.html''" if "demo_requests F' o''" for F' o''
    using that by (simp add: demo_requests_def)
  let ?st = "Map.empty(''/srv/a.html'' \<mapsto> demo_cache_entry)" and ?o = "demo_cached ''/a.html''"
  have "\<exists>F' o'' fm rel ms ns. checked_file demo_ext F' o'' fm \<and> ''/srv/a.html'' = fm_file_path fm \<and>
    ((F', o'') = (demo_fs, ?o) \<or> demo_requests F' o'' \<and> ?st ''/srv/a.html'' \<noteq> None \<and>
      (\<exists>p. sanitize_path demo_ext (ho_base_path ?o) (ho_uri_path ?o) = Inr p \<and> ''/srv/a.html'' = cache_path ?o p)) \<and>
    path_strip_prefix (checked_path fm) (ho_base_path o'') = Some rel \<and>
    resolve F' (ho_base_path o'') = Inr ms \<and> resolve F' (checked_path fm) = Inr ns \<and> prefix ms ns \<and>
    (if ho_disable_symlinks o'' then contains_symlink F' rel (ho_base_path o'') = Inr False else True) \<and>
    (if ho_ignore_hidden_files o'' then \<not> is_hidden rel else True)"
    by (rule answers_from_checked_paths [OF ss r wf]) (use wf in \<open>auto simp: demo_requests_def\<close>)
  then have "\<exists>ms ns. resolve demo_fs ''/srv'' = Inr ms \<and> prefix ms ns"
    using P by fastforce
  with r ss show ?thesis by blast
qed

theorem cached_files_faithful_witness:
  "\<exists>nd. fs_open demo_fs ''/srv/a.html'' = Inr nd \<and> nd_content nd = ''hello''"
proof -
  obtain r' s where "\<exists>ss. cache_reachable demo_ext demo_requests (Map.empty(''/srv/a.html'' \<mapsto> demo_cache_entry), ss)"
    by (rule demo_answered)
  then obtain ss where ss: "cache_reachable demo_ext demo_requests (Map.empty(''/srv/a.html'' \<mapsto> demo_cache_entry), ss)" by blast
  have "\<exists>F o' nd. demo_requests F o' \<and> file_found demo_ext F o' ''/srv/a.html'' \<and> fs_open F ''/srv/a.html'' = Inr nd \<and>
      mf_data demo_cache_entry = nd_content nd \<and> mf_content_type demo_cache_entry = x_mime_from_path demo_ext ''/srv/a.html'' \<and>
      mf_last_modified demo_cache_entry = meta_modified demo_ext nd"
    by (rule cached_files_faithful [OF ss]) (use demo_cacheable in auto)
  then show ?thesis by (auto simp: demo_requests_def demo_cache_entry_def)
qed

text \<open>The entry of the cache is sent as the file is without the cache.\<close>

theorem cache_transparent_witness:
  "\<exists>r r'. handle demo_ext demo_fs (Map.empty(''/srv/a.html'' \<mapsto> demo_cache_entry)) False (demo_cached ''/a.html'')
       = Inr (r, ''/srv/a.html'') \<and>
     handle demo_ext demo_fs Map.empty False (demo_handle ''/a.html'') = Inr (r', ''/srv/a.html'') \<and> same_answer r r'"
proof -
  obtain r s where d: "handle demo_ext demo_fs Map.empty False (demo_cached ''/a.html'') = Inr (r, ''/srv/a.html'')"
    "\<exists>ss. cache_reachable demo_ext demo_requests (Map.empty(''/srv/a.html'' \<mapsto> demo_cache_entry), ss)"
    by (rule demo_answered)
  then obtain ss where ss: "cache_reachable demo_ext demo_requests (Map.empty(''/srv/a.html'' \<mapsto> demo_cache_entry), ss)" by blast
  have o': "demo_handle ''/a.html'' = (demo_cached ''/a.html'')\<lparr>ho_memory_cache := None\<rparr>"
    by (simp add: demo_cached_def demo_handle_def)
  obtain r' where r': "handle demo_ext demo_fs Map.empty False (demo_handle ''/a.html'') = Inr (r', ''/srv/a.html'')"
    using demo_answered_off by blast
  have "\<exists>r. handle demo_ext demo_fs (Map.empty(''/srv/a.html'' \<mapsto> demo_cache_entry)) False (demo_cached ''/a.html'')
      = Inr (r, ''/srv/a.html'') \<and> same_answer r r'"
    by (rule cache_transparent [OF ss demo_cacheable _ _ _ _ _ r' [unfolded o']]) (simp_all add: is_get_def demo_read suffix_to_prefix)
  with r' show ?thesis by blast
qed

theorem variant_poisons_cache_witness:
  "\<exists>F nd r s cs st' r'. fs_open F ''/a.html.gz'' = Inr nd \<and> nd_content nd = ''compressed'' \<and>
     file_reply demo_ext F [] ''/a.html'' demo_file (Some ''/a.html.gz'') (Some demo_mem_opts) = Inr r \<and>
     rs_body r = Mem_Cache_Body s \<and> mem_drain demo_ext 6 s Map.empty = Some (cs, None, st') \<and>
     get_or_acquire demo_ext st' False ''/a.html'' [] = Some (Inr r') \<and> body_bytes (rs_body r') = Some ''compr''"
proof -
  let ?f = "demo_file\<lparr>nd_kind := Regular ''compressed''\<rparr>"
  let ?F = "\<lparr>fs_nodes = [([''a.html''], demo_file), ([''a.html.gz''], ?f)], fs_cwd = []\<rparr>"
  have op: "fs_open ?F ''/a.html.gz'' = Inr ?f" by (simp add: fs_open_def walk_eval demo_file_def)
  have f: "is_regular ?f" "nd_read_err ?f = None" "nd_content ?f = ''compressed''"
    by (simp_all add: is_regular_def nd_content_def demo_file_simps)
  have "\<exists>r s cs st' r'. file_reply demo_ext ?F [] ''/a.html'' demo_file (Some ''/a.html.gz'') (Some demo_mem_opts) = Inr r \<and>
    rs_body r = Mem_Cache_Body s \<and> mem_drain demo_ext (Suc (nd_len demo_file)) s Map.empty = Some (cs, None, st') \<and>
    get_or_acquire demo_ext st' False ''/a.html'' [] = Some (Inr r') \<and> rs_status r' = 200 \<and>
    rs_get ''content-encoding'' r' = None \<and>
    rs_get ''content-type'' r' = Some (x_mime_from_path demo_ext ''/a.html'') \<and>
    body_bytes (rs_body r') = Some (take (nd_len demo_file) (nd_content ?f))"
    by (rule variant_poisons_cache [OF op f(1,2)])
      (use demo_unconditional in \<open>simp_all add: f demo_file_simps demo_utf8 demo_mem_opts_def\<close>)
  with op f(3) show ?thesis by (intro exI [of _ ?F] exI [of _ ?f]) (auto simp: demo_file_simps)
qed

theorem sent_file_enters_cache_witness:
  "\<exists>r s cs mf. file_reply demo_ext demo_fs [] ''/srv/a.html'' demo_file None (Some demo_mem_opts) = Inr r \<and>
     rs_body r = Mem_Cache_Body s \<and> mem_drain demo_ext 6 s Map.empty = Some (cs, None, Map.empty(''/srv/a.html'' \<mapsto> mf)) \<and>
     mf_data mf = ''hello''"
proof -
  have "\<exists>r s cs mf. file_reply demo_ext demo_fs [] ''/srv/a.html'' demo_file None (Some demo_mem_opts) = Inr r \<and> rs_status r = 200 \<and>
    rs_body r = Mem_Cache_Body s \<and>
    mem_drain demo_ext (Suc (length (nd_content demo_file))) s Map.empty = Some (cs, None, Map.empty(''/srv/a.html'' \<mapsto> mf)) \<and>
    concat cs = nd_content demo_file \<and> mf_data mf = nd_content demo_file \<and>
    (\<forall>h'. get_or_acquire demo_ext (Map.empty(''/srv/a.html'' \<mapsto> mf)) False ''/srv/a.html'' h' =
       Some (mem_file_response_body demo_ext mf h'))"
    by (rule sent_file_enters_cache)
      (use demo_unconditional in \<open>simp_all add: demo_open demo_file_simps demo_utf8 demo_mem_opts_def\<close>)
  moreover have "Suc (length (nd_content demo_file)) = 6" by (simp add: demo_file_simps)
  ultimately show ?thesis by (auto simp only: demo_file_simps)
qed

theorem hit_before_checks_witness:
  "\<exists>r. handle demo_ext demo_fs (Map.empty(''/srv/a.html'' \<mapsto> demo_cache_entry)) False
       ((demo_cached ''/a.html'')\<lparr>ho_method := ''OPTIONS''\<rparr>) = Inr (r, ''/srv/a.html'') \<and>
     body_bytes (rs_body r) = Some ''hello''"
proof -
  let ?o = "(demo_cached ''/a.html'')\<lparr>ho_method := ''OPTIONS''\<rparr>"
  have c: "cache_path ?o ''/srv/a.html'' = ''/srv/a.html''" by (simp add: cache_path_def suffix_to_prefix)
  obtain r where r: "mem_file_response_body demo_ext demo_cache_entry [] = Inr r" "body_bytes (rs_body r) = Some ''hello''"
    by (simp add: mem_file_response_body_def demo_cache_entry_def demo_unconditional bytes_range_def Let_def
        range_response_def take_bytes_cursor)
  from hit_before_checks [of ?o "Map.empty(''/srv/a.html'' \<mapsto> demo_cache_entry)" "''/srv/a.html''" demo_cache_entry demo_ext r demo_fs False] r
  show ?thesis by (auto simp: c demo_places demo_utf8 is_allowed_iff is_options_def)
qed

text \<open>A variant that is a symbolic link is followed although links are disabled: only the path of the original is
  checked.\<close>

definition link_variant_fs :: fs where
  "link_variant_fs = \<lparr>fs_nodes =
     [([''srv''], demo_dir), ([''srv'', ''a.html''], demo_file), ([''srv'', ''a.html.gz''], demo_link ''/etc/passwd''),
      ([''etc''], demo_dir), ([''etc'', ''passwd''], demo_file\<lparr>nd_kind := Regular ''root''\<rparr>)],
     fs_cwd = []\<rparr>"

lemma link_variant_eval:
  "fs_canonicalize link_variant_fs ''/srv'' = Inr ''/srv''"
  "fs_canonicalize link_variant_fs ''/srv/a.html'' = Inr ''/srv/a.html''"
  "fs_symlink_metadata link_variant_fs ''/srv/a.html'' = Inr demo_file"
  "fs_metadata link_variant_fs ''/srv/a.html'' = Inr demo_file"
  "fs_metadata link_variant_fs ''/srv/a.html.gz'' = Inr (demo_file\<lparr>nd_kind := Regular ''root''\<rparr>)"
  by (simp_all add: walk_eval link_variant_fs_def demo_fs_eval abs_path_def)

theorem linked_variant_escapes:
  "case handle demo_ext link_variant_fs Map.empty False (gzip_request ''/a.html'') of
     Inr (r, q) \<Rightarrow> rs_status r = 200 \<and> body_bytes (rs_body r) = Some ''root'' \<and>
       rs_get ''content-encoding'' r = Some ''gzip'' \<and> ho_disable_symlinks (gzip_request ''/a.html'')
   | Inl _ \<Rightarrow> False"
proof -
  let ?h = "[(''accept-encoding'', ''gzip'')]" and ?root = "demo_file\<lparr>nd_kind := Regular ''root''\<rparr>"
  have u: "valid_utf8 ''a.html''" by (rule valid_utf8_ascii) simp
  have p: "set_file_name ''/srv/a.html'' ''a.html.gz'' = ''/srv/a.html.gz''" "path_file_name ''/srv/a.html'' = Some ''a.html''"
    by (simp_all add: path_eval)
  have v: "static_variant demo_ext link_variant_fs True ''/srv/a.html'' ?h =
      Some \<lparr>cv_file_path = ''/srv/a.html.gz'', cv_metadata = ?root, cv_encoding = GZIP\<rparr>"
    using u p by (simp add: static_variant_def precompressed_variant_def demo_typed_ae demo_gzip_encodings path_to_str_def
        try_metadata_def link_variant_eval is_dir_node_def demo_file_def)
  have k: "path_checks link_variant_fs (gzip_request ''/a.html'') ''/srv/a.html'' = Inr ()"
    by (simp add: path_checks_def gzip_request_simps demo_places link_variant_eval demo_starts contains_symlink_def is_symlink_def
        is_hidden_def demo_file_def)
  have op: "fs_open link_variant_fs ''/srv/a.html.gz'' = Inr ?root"
    by (simp add: fs_open_def link_variant_eval demo_file_def)
  show ?thesis
    by (simp add: handle_def cache_path_def gzip_request_simps demo_places get_composed_file_metadata_def try_metadata_def link_variant_eval
        is_dir_node_def demo_file_simps v checked_path_def k checked_reply_def is_options_def precompressed_reply_def
        file_reply_def op response_body_def gzip_unconditional Let_def bytes_range_def seek_fails_def nd_content_def range_response_def
        body_bytes_file_body take_bytes_open meta_modified_def headers_simp)
qed

definition lone_variant_fs :: fs where
  "lone_variant_fs = \<lparr>fs_nodes = [([''srv''], demo_dir), ([''srv'', ''a.html.gz''], demo_file)], fs_cwd = []\<rparr>"

theorem variant_without_original_refused_witness:
  "fs_metadata lone_variant_fs ''/srv/a.html.gz'' = Inr demo_file \<and>
   handle demo_ext lone_variant_fs Map.empty False (gzip_request ''/a.html'') = Inl 404"
proof -
  have m: "fs_metadata lone_variant_fs ''/srv/a.html.gz'' = Inr demo_file"
    by (simp add: walk_eval lone_variant_fs_def demo_fs_eval)
  have e: "resolve lone_variant_fs ''/srv/a.html'' = Inl ENOENT"
    by (simp add: walk_eval lone_variant_fs_def demo_fs_eval)
  have u: "valid_utf8 ''a.html''" by (rule valid_utf8_ascii) simp
  have p: "set_file_name ''/srv/a.html'' ''a.html.gz'' = ''/srv/a.html.gz''" "path_file_name ''/srv/a.html'' = Some ''a.html''"
    by (simp_all add: path_eval)
  have v: "static_variant demo_ext lone_variant_fs True ''/srv/a.html'' [(''accept-encoding'', ''gzip'')] =
      Some \<lparr>cv_file_path = ''/srv/a.html.gz'', cv_metadata = demo_file, cv_encoding = GZIP\<rparr>"
    using u p by (simp add: static_variant_def precompressed_variant_def demo_typed_ae demo_gzip_encodings path_to_str_def
        try_metadata_def m is_dir_node_def demo_file_def)
  from variant_without_original_refused [of "gzip_request ''/a.html''" demo_ext "''/srv/a.html''" lone_variant_fs ENOENT
      "\<lparr>cv_file_path = ''/srv/a.html.gz'', cv_metadata = demo_file, cv_encoding = GZIP\<rparr>" Map.empty False] e v m
  show ?thesis by (simp add: gzip_request_def demo_places)
qed

end
