(* ===== verification/Handler.thy ===== *)
theory Handler
  imports Metrics Cached_Files Access_Control
begin

text \<open>
  The request handler (\<open>src/handler.rs\<close>): the reverse-proxy attempt, the pipeline of a request from
  the method check to the custom headers, and the metrics around it. What the pipeline reads and does
  not change is one record \<open>env\<close>; the options travel along because the counters of the proxy rules and
  the tunnel permits live in them. \<open>gate_list\<close> is the abstract view: a sequence of gates, each of which
  answers or lets the request pass, and \<open>handle_inner\<close> refines it.
\<close>

section \<open>The pipeline\<close>

record env =
  ev_ext :: ext
  ev_fs :: fs
  ev_store :: mem_store
  ev_permit_closed :: bool
  ev_up :: "request \<Rightarrow> response res"
    \<comment> \<open>what an upstream answers\<close>
  ev_encode :: "metrics \<Rightarrow> string"
    \<comment> \<open>the metrics text encoder\<close>

abbreviation env_error :: "env \<Rightarrow> handler_opts \<Rightarrow> request \<Rightarrow> nat \<Rightarrow> response" where
  "env_error V opts req status \<equiv> error_reply (ev_ext V) (ev_fs V) opts (rq_method req) status"

definition try_reverse_proxy ::
  "env \<Rightarrow> handler_opts \<Rightarrow> request \<Rightarrow> peer option \<Rightarrow> response res option \<times> request \<times> handler_opts" where
  "try_reverse_proxy V opts req remote =
     (case proxy_pre_process (ev_ext V) (ev_up V) opts req remote of
        (None, req', opts') \<Rightarrow> (None, req', opts')
      | (Some (Inl _), req', opts') \<Rightarrow> (Some (Inr (env_error V opts' req' 502)), req', opts')
      | (Some (Inr resp), req', opts') \<Rightarrow>
          if rs_status resp = 101 then (Some (Inr resp), req', opts')
          else (Some (Inr (cors_post_process (ev_ext V) opts' req' resp)), req', opts'))"

definition selected_root :: "ext \<Rightarrow> handler_opts \<Rightarrow> request \<Rightarrow> path" where
  "selected_root X opts req =
     (case advanced_opts opts of
        None \<Rightarrow> root_dir opts
      | Some a \<Rightarrow> (case get_real_root X req (ad_virtual_hosts a) of Some root \<Rightarrow> root | None \<Rightarrow> root_dir opts))"

definition static_opts :: "handler_opts \<Rightarrow> request \<Rightarrow> path \<Rightarrow> string \<Rightarrow> handle_opts" where
  "static_opts opts req base upath =
     \<lparr>ho_method = rq_method req, ho_memory_cache = memory_cache opts, ho_headers = rq_headers req,
      ho_base_path = base, ho_uri_path = upath, ho_index_files = index_files opts,
      ho_uri_query = uri_query (rq_uri req), ho_dir_listing = dir_listing opts,
      ho_dir_listing_order = dir_listing_order opts, ho_dir_listing_format = dir_listing_format opts,
      ho_dir_listing_download = dir_listing_download opts,
      ho_redirect_trailing_slash = redirect_trailing_slash opts,
      ho_compression_static = compression_static opts, ho_ignore_hidden_files = ignore_hidden_files opts,
      ho_disable_symlinks = disable_symlinks opts\<rparr>"

text \<open>The stages after the file server, in their order.\<close>

definition static_stages ::
  "ext \<Rightarrow> handler_opts \<Rightarrow> request \<Rightarrow> bool \<Rightarrow> path option \<Rightarrow> response \<Rightarrow> response res" where
  "static_stages X opts req is_md file_path resp =
     (let r1 = fallback_post_process opts req resp;
          r2 = cors_post_process X opts req r1;
          r3 = markdown_post_process X is_md opts r2;
          r4 = text_charset_post_process X opts r3
      in res_bind (compression_static_post_process X opts r4) (\<lambda>r5.
         res_bind (compression_post_process X opts req r5) (\<lambda>r6.
         (let r7 = cache_control_post_process opts req r6;
              r8 = security_post_process opts r7
          in Inr (custom_headers_post_process X opts req file_path r8)))))"

definition markdown_path :: "env \<Rightarrow> handler_opts \<Rightarrow> request \<Rightarrow> string option" where
  "markdown_path V opts req =
     (if accept_markdown opts
      then markdown_pre_process (ev_ext V) (ev_fs V) req (selected_root (ev_ext V) opts req) (uri_path (rq_uri req))
      else None)"

definition served_path :: "env \<Rightarrow> handler_opts \<Rightarrow> request \<Rightarrow> string" where
  "served_path V opts req =
     (case markdown_path V opts req of Some p \<Rightarrow> p | None \<Rightarrow> uri_path (rq_uri req))"

definition served_opts :: "env \<Rightarrow> handler_opts \<Rightarrow> request \<Rightarrow> handle_opts" where
  "served_opts V opts req =
     static_opts opts req (selected_root (ev_ext V) opts req) (served_path V opts req)"

definition serve_static :: "env \<Rightarrow> handler_opts \<Rightarrow> request \<Rightarrow> response res" where
  "serve_static V opts req =
     (case handle (ev_ext V) (ev_fs V) (ev_store V) (ev_permit_closed V) (served_opts V opts req) of
        Inr (resp, p) \<Rightarrow>
          static_stages (ev_ext V) opts req (markdown_path V opts req \<noteq> None) (Some p) resp
      | Inl status \<Rightarrow>
          static_stages (ev_ext V) opts req (markdown_path V opts req \<noteq> None) None
            (env_error V opts req status))"

text \<open>The steps in the order of the source: every early return is a branch.\<close>

definition handle_inner ::
  "env \<Rightarrow> metrics \<Rightarrow> handler_opts \<Rightarrow> request \<Rightarrow> peer option \<Rightarrow> response res \<times> request \<times> handler_opts" where
  "handle_inner V M opts req remote =
     (if \<not> is_allowed (rq_method req) then (Inr (env_error V opts req 405), req, opts)
      else case health_pre_process opts req of
        Some r \<Rightarrow> (Inr r, req, opts)
      | None \<Rightarrow>
     (case metrics_pre_process (ev_encode V) M opts req of
        Some r \<Rightarrow> (Inr r, req, opts)
      | None \<Rightarrow>
     (case cors_pre_process (ev_ext V) (ev_fs V) opts req of
        Some r \<Rightarrow> (Inr r, req, opts)
      | None \<Rightarrow>
     (case auth_pre_process (ev_ext V) (ev_fs V) opts req of
        Some r \<Rightarrow> (Inr r, req, opts)
      | None \<Rightarrow>
     (case maintenance_pre_process (ev_ext V) (ev_fs V) opts req of
        Some r \<Rightarrow> (Inr r, req, opts)
      | None \<Rightarrow>
     (case (if proxy_first opts then try_reverse_proxy V opts req remote else (None, req, opts)) of
        (Some r, req1, opts1) \<Rightarrow> (r, req1, opts1)
      | (None, req1, opts1) \<Rightarrow>
     (case redirects_pre_process (ev_ext V) (ev_fs V) opts1 req1 of
        Some r \<Rightarrow> (Inr r, req1, opts1)
      | None \<Rightarrow>
     (case rewrites_pre_process (ev_ext V) (ev_fs V) opts1 req1 of
        (Some r, req2) \<Rightarrow> (Inr r, req2, opts1)
      | (None, req2) \<Rightarrow>
     (case (if \<not> proxy_first opts1 then try_reverse_proxy V opts1 req2 remote else (None, req2, opts1)) of
        (Some r, req3, opts3) \<Rightarrow> (r, req3, opts3)
      | (None, req3, opts3) \<Rightarrow> (serve_static V opts3 req3, req3, opts3))))))))))"

section \<open>Metrics around the pipeline\<close>

definition handle_start :: "handler_opts \<Rightarrow> metrics \<Rightarrow> metrics" where
  "handle_start opts M = (if metrics_enabled opts then inc_requests_inflight M else M)"

definition response_length :: "ext \<Rightarrow> response \<Rightarrow> u64" where
  "response_length X resp =
     (case Option.bind (Option.bind (rs_get ''content-length'' resp) (x_header_str X))
             (parse_uint (2 ^ 64 - 1)) of
        Some n \<Rightarrow> of_nat n
      | None \<Rightarrow> 0)"

definition handle_finish ::
  "ext \<Rightarrow> handler_opts \<Rightarrow> request \<Rightarrow> response res \<Rightarrow> nat \<Rightarrow> metrics \<Rightarrow> metrics" where
  "handle_finish X opts req result elapsed M =
     (if metrics_enabled opts
      then (let M1 = dec_requests_inflight M
            in case result of
                 Inr resp \<Rightarrow> record_request X req (rs_status resp) (response_length X resp) elapsed M1
               | Inl _ \<Rightarrow> M1)
      else M)"

text \<open>A request from start to end: the log line, the result, the options and the metrics.\<close>

definition handle_request ::
  "env \<Rightarrow> nat \<Rightarrow> handler_opts \<Rightarrow> metrics \<Rightarrow> request \<Rightarrow> peer option
   \<Rightarrow> (log_level \<times> string) \<times> response res \<times> handler_opts \<times> metrics" where
  "handle_request V elapsed opts M req remote =
     (let log = log_addr_pre_process (ev_ext V) opts req remote;
          M1 = handle_start opts M
      in case handle_inner V M1 opts req remote of
           (result, req', opts') \<Rightarrow>
             (log, result, opts', handle_finish (ev_ext V) opts req' result elapsed M1))"

text \<open>\<open>RequestService::call\<close>.\<close>

definition request_service_call ::
  "env \<Rightarrow> nat \<Rightarrow> handler_opts \<Rightarrow> metrics \<Rightarrow> request_service \<Rightarrow> request
   \<Rightarrow> (log_level \<times> string) \<times> response res \<times> handler_opts \<times> metrics" where
  "request_service_call V elapsed opts M s req =
     handle_request V elapsed opts M req (sv_remote_addr s)"

section \<open>The gates\<close>

text \<open>A gate answers, or passes a request and options on.\<close>

type_synonym gate = "request \<times> handler_opts \<Rightarrow> response res option \<times> request \<times> handler_opts"

fun run_gates :: "gate list \<Rightarrow> gate" where
  "run_gates [] s = (None, s)"
| "run_gates (g # gs) s =
     (case g s of (Some r, s') \<Rightarrow> (Some r, s') | (None, s') \<Rightarrow> run_gates gs s')"

definition pure_gate :: "(handler_opts \<Rightarrow> request \<Rightarrow> response option) \<Rightarrow> gate" where
  "pure_gate f = (\<lambda>(req, opts). (map_option Inr (f opts req), req, opts))"

definition proxy_gate :: "env \<Rightarrow> peer option \<Rightarrow> gate" where
  "proxy_gate V remote = (\<lambda>(req, opts). try_reverse_proxy V opts req remote)"

definition rewrite_gate :: "env \<Rightarrow> gate" where
  "rewrite_gate V = (\<lambda>(req, opts).
     case rewrites_pre_process (ev_ext V) (ev_fs V) opts req of (r, req') \<Rightarrow> (map_option Inr r, req', opts))"

definition front_checks :: "env \<Rightarrow> metrics \<Rightarrow> (handler_opts \<Rightarrow> request \<Rightarrow> response option) list" where
  "front_checks V M =
     [\<lambda>opts req. if is_allowed (rq_method req) then None else Some (env_error V opts req 405),
      health_pre_process, metrics_pre_process (ev_encode V) M,
      cors_pre_process (ev_ext V) (ev_fs V), auth_pre_process (ev_ext V) (ev_fs V),
      maintenance_pre_process (ev_ext V) (ev_fs V)]"

definition redirect_gate :: "env \<Rightarrow> gate" where
  "redirect_gate V = pure_gate (redirects_pre_process (ev_ext V) (ev_fs V))"

definition routing_gates :: "env \<Rightarrow> peer option \<Rightarrow> bool \<Rightarrow> gate list" where
  "routing_gates V remote first =
     (if first then [proxy_gate V remote, redirect_gate V, rewrite_gate V]
      else [redirect_gate V, rewrite_gate V, proxy_gate V remote])"

definition gateway_spec :: "env \<Rightarrow> metrics \<Rightarrow> peer option \<Rightarrow> request \<times> handler_opts \<Rightarrow> response res \<times> request \<times> handler_opts" where
  "gateway_spec V M remote s =
     (case run_gates (map pure_gate (front_checks V M) @ routing_gates V remote (proxy_first (snd s))) s of
        (Some r, s') \<Rightarrow> (r, s')
      | (None, req', opts') \<Rightarrow> (serve_static V opts' req', req', opts'))"

text \<open>A gate that changes nothing can be skipped or asked first without a trace.\<close>

locale passive_gate =
  fixes g :: gate
  assumes keeps: "snd (g s) = s"
begin

lemma run: "run_gates (g # gs) s = (case fst (g s) of Some r \<Rightarrow> (Some r, s) | None \<Rightarrow> run_gates gs s)"
  using keeps [of s] by (cases "g s") (auto split: option.split)

end

interpretation checks: passive_gate "pure_gate f" for f
  by unfold_locales (auto simp: pure_gate_def split: prod.split)

interpretation redirecting: passive_gate "redirect_gate V" for V
  by unfold_locales (auto simp: redirect_gate_def pure_gate_def split: prod.split)

lemma run_gates_append:
  "run_gates (gs @ hs) s = (case run_gates gs s of (Some r, s') \<Rightarrow> (Some r, s') | (None, s') \<Rightarrow> run_gates hs s')"
  by (induction gs arbitrary: s) (auto split: prod.split option.split)

fun first_answer :: "(handler_opts \<Rightarrow> request \<Rightarrow> response option) list \<Rightarrow> handler_opts \<Rightarrow> request \<Rightarrow> response option" where
  "first_answer [] opts req = None"
| "first_answer (f # fs) opts req = (case f opts req of Some r \<Rightarrow> Some r | None \<Rightarrow> first_answer fs opts req)"

lemma run_pure_gates:
  "run_gates (map pure_gate fs) (req, opts) = (map_option Inr (first_answer fs opts req), req, opts)"
  by (induction fs) (auto simp: checks.run pure_gate_def split: option.split)

lemma first_answer_cases:
  "first_answer fs opts req = Some r \<Longrightarrow> \<exists>f \<in> set fs. f opts req = Some r"
  by (induction fs) (auto split: option.splits)

lemma first_answer_stops:
  "first_answer (fs @ f # gs) opts req = Some r \<Longrightarrow> f opts req \<noteq> None \<Longrightarrow>
   \<exists>h \<in> set fs \<union> {f}. h opts req = Some r"
  by (induction fs) (auto split: option.splits)

lemma try_reverse_proxy_opts:
  "try_reverse_proxy V opts req remote = (r, req', opts') \<Longrightarrow> proxy_first opts' = proxy_first opts"
  by (auto simp: try_reverse_proxy_def proxy_pre_process_def put_rule_def split: option.splits prod.splits sum.splits if_splits)

section \<open>Properties of the pipeline\<close>

lemma gate_eq:
  "handle_inner V M opts req remote = gateway_spec V M remote (req, opts)"
proof (cases "first_answer (front_checks V M) opts req")
  case None
  then have front: "is_allowed (rq_method req)" "health_pre_process opts req = None"
    "metrics_pre_process (ev_encode V) M opts req = None" "cors_pre_process (ev_ext V) (ev_fs V) opts req = None"
    "auth_pre_process (ev_ext V) (ev_fs V) opts req = None"
    "maintenance_pre_process (ev_ext V) (ev_fs V) opts req = None"
    by (auto simp: front_checks_def split: if_splits option.splits)
  show ?thesis
  proof (cases "proxy_first opts")
    case True
    have "proxy_first opts1" if "try_reverse_proxy V opts req remote = (r, req1, opts1)" for r req1 opts1
      using that True by (simp add: try_reverse_proxy_opts)
    with True front None show ?thesis
      by (auto simp: handle_inner_def gateway_spec_def run_gates_append run_pure_gates routing_gates_def
          proxy_gate_def redirecting.run redirect_gate_def pure_gate_def rewrite_gate_def
          split: option.split prod.split)
  next
    case False
    with front None show ?thesis
      by (auto simp: handle_inner_def gateway_spec_def run_gates_append run_pure_gates routing_gates_def
          proxy_gate_def redirecting.run redirect_gate_def pure_gate_def rewrite_gate_def
          split: option.split prod.split)
  qed
next
  case (Some r)
  then have "handle_inner V M opts req remote = (Inr r, req, opts)"
    by (auto simp: handle_inner_def front_checks_def split: if_splits option.splits)
  with Some show ?thesis by (simp add: gateway_spec_def run_gates_append run_pure_gates)
qed

text \<open>C3. The handler refines the gate view: it answers with the first gate that answers, in the order
  method, health, metrics, CORS, authentication, maintenance, then proxy, redirects and rewrites or
  redirects, rewrites and proxy, each seeing the request and the options that the gates before it
  left, and serves a file when all let the request pass.\<close>

theorem handler_refines_gates:
  "handle_inner V M opts req remote = gateway_spec V M remote (req, opts)"
  by (rule gate_eq)

lemma handle_inner_front:
  assumes "first_answer (front_checks V M) opts req = Some r"
  shows "handle_inner V M opts req remote = (Inr r, req, opts)"
  using assms by (simp add: gate_eq gateway_spec_def run_gates_append run_pure_gates)

lemma handle_inner_passed:
  assumes "first_answer (front_checks V M) opts req = None"
  shows "handle_inner V M opts req remote =
    (case run_gates (routing_gates V remote (proxy_first opts)) (req, opts) of
        (Some r, s') \<Rightarrow> (r, s')
      | (None, req', opts') \<Rightarrow> (serve_static V opts' req', req', opts'))"
  using assms by (simp add: gate_eq gateway_spec_def run_gates_append run_pure_gates)

lemma no_credentials_stops:
  assumes "basic_auth opts \<noteq> []" "\<not> is_options (rq_method req)"
    and "\<not> (\<exists>u h p. split_once (CHR '':'') (basic_auth opts) = Some (u, h) \<and>
      typed_get (x_basic_credentials X) ''authorization'' (rq_headers req) = Some (u, p) \<and>
      x_bcrypt_verify X p h = Some True)"
  shows "\<exists>r. auth_pre_process X F opts req = Some r \<and> (rs_status r = 401 \<or> rs_status r = 500)"
  using assms
  by (auto simp: auth_pre_process_def auth_check_request_def split: option.split if_splits)

lemma front_answer_upto:
  assumes "f \<in> set (front_checks V M)" "f opts req \<noteq> None"
  shows "\<exists>r. first_answer (front_checks V M) opts req = Some r"
proof (rule ccontr)
  assume "\<not> ?thesis"
  moreover have "first_answer fs opts req = None \<Longrightarrow> \<forall>f \<in> set fs. f opts req = None" for fs
    by (induction fs) (auto split: option.splits)
  ultimately show False using assms by auto
qed

lemma front_checks_frame: "front_checks (V\<lparr>ev_up := up, ev_store := st, ev_permit_closed := cl\<rparr>) M = front_checks V M"
  by (simp add: front_checks_def cong: if_cong)

lemma front_checks_auth:
  "front_checks V M =
     [\<lambda>opts req. if is_allowed (rq_method req) then None else Some (env_error V opts req 405),
      health_pre_process, metrics_pre_process (ev_encode V) M, cors_pre_process (ev_ext V) (ev_fs V)]
     @ auth_pre_process (ev_ext V) (ev_fs V) # [maintenance_pre_process (ev_ext V) (ev_fs V)]"
  by (simp add: front_checks_def)

lemma stops_unauthenticated:
  assumes "basic_auth opts \<noteq> []" "\<not> is_options (rq_method req)"
    and "\<not> (\<exists>u h p. split_once (CHR '':'') (basic_auth opts) = Some (u, h) \<and>
      typed_get (x_basic_credentials (ev_ext V)) ''authorization'' (rq_headers req) = Some (u, p) \<and>
      x_bcrypt_verify (ev_ext V) p h = Some True)"
  shows "\<exists>r. (rs_status r = 405 \<or> health_pre_process opts req = Some r \<or>
      metrics_pre_process (ev_encode V) M opts req = Some r \<or>
      cors_pre_process (ev_ext V) (ev_fs V) opts req = Some r \<or> rs_status r = 401 \<or> rs_status r = 500) \<and>
    (\<forall>up st cl. handle_inner (V\<lparr>ev_up := up, ev_store := st, ev_permit_closed := cl\<rparr>) M opts req remote
       = (Inr r, req, opts))"
proof -
  from no_credentials_stops [OF assms] obtain a where
    a: "auth_pre_process (ev_ext V) (ev_fs V) opts req = Some a" "rs_status a = 401 \<or> rs_status a = 500" by auto
  have "auth_pre_process (ev_ext V) (ev_fs V) \<in> set (front_checks V M)" by (simp add: front_checks_def)
  with front_answer_upto a(1) obtain r where r: "first_answer (front_checks V M) opts req = Some r" by blast
  then have "\<exists>h \<in> set [\<lambda>opts req. if is_allowed (rq_method req) then None else Some (env_error V opts req 405),
      health_pre_process, metrics_pre_process (ev_encode V) M, cors_pre_process (ev_ext V) (ev_fs V)]
      \<union> {auth_pre_process (ev_ext V) (ev_fs V)}. h opts req = Some r"
    using a(1) by (intro first_answer_stops) (simp_all add: front_checks_auth)
  with a have "rs_status r = 405 \<or> health_pre_process opts req = Some r \<or>
      metrics_pre_process (ev_encode V) M opts req = Some r \<or>
      cors_pre_process (ev_ext V) (ev_fs V) opts req = Some r \<or> rs_status r = 401 \<or> rs_status r = 500"
    by (auto split: if_splits)
  moreover have "handle_inner (V\<lparr>ev_up := up, ev_store := st, ev_permit_closed := cl\<rparr>) M opts req remote
       = (Inr r, req, opts)" for up st cl
    by (rule handle_inner_front) (simp add: front_checks_frame r)
  ultimately show ?thesis by blast
qed

text \<open>Maintenance mode covers the gateway: with it on, no request is served from files or forwarded;
  every request that the earlier checks let pass gets the maintenance status, and no upstream and no
  cached file has an influence.\<close>

theorem maintenance_covers_everything:
  assumes "maintenance_mode opts"
  shows "\<exists>r. (rs_status r = maintenance_mode_status opts \<or> rs_status r = 405 \<or>
      health_pre_process opts req = Some r \<or> metrics_pre_process (ev_encode V) M opts req = Some r \<or>
      cors_pre_process (ev_ext V) (ev_fs V) opts req = Some r \<or>
      auth_pre_process (ev_ext V) (ev_fs V) opts req = Some r) \<and>
    (\<forall>up st cl. handle_inner (V\<lparr>ev_up := up, ev_store := st, ev_permit_closed := cl\<rparr>) M opts req remote
       = (Inr r, req, opts))"
proof -
  have "maintenance_pre_process (ev_ext V) (ev_fs V) \<in> set (front_checks V M)"
    "maintenance_pre_process (ev_ext V) (ev_fs V) opts req \<noteq> None"
    using assms by (simp_all add: front_checks_def maintenance_pre_process_def)
  with front_answer_upto obtain r where r: "first_answer (front_checks V M) opts req = Some r" by blast
  from first_answer_cases [OF r]
  have "rs_status r = maintenance_mode_status opts \<or> rs_status r = 405 \<or>
      health_pre_process opts req = Some r \<or> metrics_pre_process (ev_encode V) M opts req = Some r \<or>
      cors_pre_process (ev_ext V) (ev_fs V) opts req = Some r \<or>
      auth_pre_process (ev_ext V) (ev_fs V) opts req = Some r"
    by (auto simp: front_checks_def maintenance_pre_process_def maintenance_get_response_def split: if_splits)
  moreover have "handle_inner (V\<lparr>ev_up := up, ev_store := st, ev_permit_closed := cl\<rparr>) M opts req remote
       = (Inr r, req, opts)" for up st cl
    by (rule handle_inner_front) (simp add: front_checks_frame r)
  ultimately show ?thesis by blast
qed

text \<open>Only OPTIONS, HEAD and GET get past the first gate, also when a proxy rule would match and the
  proxy comes first: any other method is answered with 405 and never reaches an upstream.\<close>

theorem other_methods_never_proxied:
  assumes "rq_method req \<noteq> ''OPTIONS''" "rq_method req \<noteq> ''HEAD''" "rq_method req \<noteq> ''GET''"
  shows "\<exists>r. rs_status r = 405 \<and>
    (\<forall>up. handle_inner (V\<lparr>ev_up := up\<rparr>) M opts req remote = (Inr r, req, opts))"
  using assms
  by (auto simp: handle_inner_def is_allowed_iff is_get_def is_head_def is_options_def
      intro!: exI [of _ "env_error V opts req 405"])

section \<open>Metrics of a request\<close>

text \<open>C6. With metrics on, a finished request leaves the gauge of requests in flight where it was, and if
  it was answered and its target (after rewrites) is not the metrics endpoint, the counter of its
  method, status class and host, and no other, has moved by one; nothing else counts.\<close>

theorem request_counted_once:
  assumes "metrics_enabled opts" "handle_inner V (handle_start opts M) opts req remote = (result, req', opts')"
    and "handle_request V elapsed opts M req remote = (log, res, opts'', M')"
  shows "mx_requests_inflight M' = mx_requests_inflight M \<and>
    mx_requests_total M' =
      (case result of
         Inl _ \<Rightarrow> mx_requests_total M
       | Inr resp \<Rightarrow>
           if uri_path (rq_uri req') = ''/metrics'' then mx_requests_total M
           else counter_inc_by (request_labels (ev_ext V) req' (rs_status resp)) 1 (mx_requests_total M))"
proof -
  have M': "M' = handle_finish (ev_ext V) opts req' result elapsed (handle_start opts M)"
    using assms(2,3) by (auto simp: handle_request_def)
  show ?thesis
  proof (cases result)
    case (Inl e)
    with M' assms(1) show ?thesis by (simp add: handle_finish_def handle_start_def)
  next
    case (Inr resp)
    with M' assms(1) show ?thesis
      by (auto simp: handle_finish_def handle_start_def record_request_def Let_def)
  qed
qed

text \<open>Requests start, finish in any order, or are dropped with their connection while they wait: the
  number running, the number dropped, and the metrics.\<close>

inductive inflight_step :: "env \<Rightarrow> handler_opts \<Rightarrow> nat \<times> nat \<times> metrics \<Rightarrow> nat \<times> nat \<times> metrics \<Rightarrow> bool"
  for V :: env and opts :: handler_opts where
  request_started: "inflight_step V opts (n, d, M) (Suc n, d, handle_start opts M)"
| request_finished:
    "inflight_step V opts (Suc n, d, M) (n, d, handle_finish (ev_ext V) opts req result elapsed M)"
| request_cancelled: "inflight_step V opts (Suc n, d, M) (n, Suc d, M)"

inductive_cases inflight_stepE: "inflight_step V opts (n, d, M) c"

lemma inflight_step_gauge:
  assumes "inflight_step V opts (n, d, M) (n', d', M')" "metrics_enabled opts"
    "mx_requests_inflight M = of_nat (n + d)"
  shows "mx_requests_inflight M' = of_nat (n' + d')"
  using assms
  by (elim inflight_stepE) (auto simp: handle_start_def handle_finish_def Let_def split: sum.split)

text \<open>C7. The gauge of requests in flight counts the requests running and, for ever, the requests that were
  dropped before their answer: it is decremented after the answer only, so it drifts upwards by one
  with every cancelled request.\<close>

theorem inflight_counts_cancelled:
  assumes "(inflight_step V opts)\<^sup>*\<^sup>* (0, 0, M) (n, d, M')" "metrics_enabled opts" "mx_requests_inflight M = 0"
  shows "mx_requests_inflight M' = of_nat (n + d)"
  using assms(1)
proof (induction "(n, d, M')" arbitrary: n d M' rule: rtranclp_induct)
  case base
  with assms(3) show ?case by simp
next
  case (step c)
  obtain a b N where c: "c = (a, b, N)" by (cases c)
  show ?case by (rule inflight_step_gauge [OF step(2) [unfolded c] assms(2) step(3) [OF c]])
qed

section \<open>Every request is answered\<close>

text \<open>What \<open>HeaderValue\<close> documents: the text of a value is visible ASCII or tabs, and every such text
  is a value.\<close>

definition header_char :: "char \<Rightarrow> bool" where
  "header_char c = ((32 \<le> (of_char c :: nat) \<and> (of_char c :: nat) < 127) \<or> (of_char c :: nat) = 9)"

definition header_values_documented :: "ext \<Rightarrow> bool" where
  "header_values_documented X =
     ((\<forall>v s. x_header_str X v = Some s \<longrightarrow> list_all header_char s) \<and>
      (\<forall>s. list_all header_char s \<longrightarrow> x_header_value X s \<noteq> None))"

lemma header_str_then_value:
  assumes "header_values_documented X" "x_header_str X v = Some s" "list_all header_char t"
  shows "\<exists>w. x_header_value X (s @ t) = Some w"
  using assms by (auto simp: header_values_documented_def)

lemma header_literals:
  "list_all header_char '',accept-encoding''" "list_all header_char ''accept-encoding''"
  by (code_simp)+

lemma compression_static_answers:
  assumes "header_values_documented X"
  shows "\<exists>r. compression_static_post_process X opts resp = Inr r"
proof (cases "rs_get ''vary'' resp")
  case (Some h)
  then show ?thesis
  proof (cases "x_header_str X h")
    case None
    have "\<exists>w. x_header_value X '',accept-encoding'' = Some w"
      using assms header_literals(1) by (auto simp: header_values_documented_def)
    with Some None show ?thesis by (auto simp: compression_static_post_process_def)
  next
    case (Some s)
    from header_str_then_value [OF assms Some header_literals(1)] Some \<open>rs_get ''vary'' resp = Some h\<close>
    show ?thesis by (auto simp: compression_static_post_process_def)
  qed
qed (simp add: compression_static_post_process_def)

lemma compression_answers:
  assumes "header_values_documented X"
  shows "\<exists>r. compression_post_process X opts req resp = Inr r"
proof -
  have "\<exists>v. compression_vary X resp = Inr v"
  proof (cases "rs_get ''vary'' resp")
    case (Some h)
    have ok: "list_all header_char a \<Longrightarrow>
      \<exists>w. x_header_value X (if str_contains ''accept-encoding'' a then a
                     else (if a = [] then a else a @ '','') @ ''accept-encoding'') = Some w" for a
      using assms header_literals by (auto simp: header_values_documented_def)
    have "list_all header_char (case x_header_str X h of Some s \<Rightarrow> s | None \<Rightarrow> [])"
      using assms by (auto simp: header_values_documented_def split: option.split)
    from ok [OF this] Some show ?thesis by (auto simp: compression_vary_def Let_def)
  qed (simp add: compression_vary_def)
  then show ?thesis by (auto simp: compression_post_process_def)
qed

lemma static_stages_answer:
  assumes "header_values_documented X"
  shows "\<exists>r. static_stages X opts req md fp resp = Inr r"
proof -
  from compression_static_answers [OF assms] obtain r5 where
    "compression_static_post_process X opts
       (text_charset_post_process X opts (markdown_post_process X md opts (cors_post_process X opts req
          (fallback_post_process opts req resp)))) = Inr r5" by blast
  moreover from compression_answers [OF assms] obtain r6 where
    "compression_post_process X opts req r5 = Inr r6" by blast
  ultimately show ?thesis by (simp add: static_stages_def)
qed

lemma serve_static_answers:
  "header_values_documented (ev_ext V) \<Longrightarrow> \<exists>r. serve_static V opts req = Inr r"
  by (simp add: serve_static_def static_stages_answer split: sum.split prod.split)

lemma try_reverse_proxy_answers:
  "try_reverse_proxy V opts req remote = (Some r, req', opts') \<Longrightarrow> \<exists>resp. r = Inr resp"
  by (auto simp: try_reverse_proxy_def split: option.splits sum.splits prod.splits if_splits)

lemma routing_gates_answer:
  "run_gates (routing_gates V remote first) s = (Some r, s') \<Longrightarrow> \<exists>resp. r = Inr resp"
  by (cases s)
    (auto simp: routing_gates_def proxy_gate_def redirecting.run redirect_gate_def pure_gate_def rewrite_gate_def
      dest: try_reverse_proxy_answers split: if_splits option.splits prod.splits)

text \<open>C4. Every request is answered: whatever the files, the upstreams (failing ones included), the
  options and the request, the handler returns a response and never an error or a panic, under what
  the \<open>http\<close> crate documents of header values. A failing upstream in particular is a 502 page.\<close>

theorem handler_always_answers:
  assumes "header_values_documented (ev_ext V)"
  shows "\<exists>resp. fst (handle_inner V M opts req remote) = Inr resp"
proof (cases "first_answer (front_checks V M) opts req")
  case None
  obtain r s' where g: "run_gates (routing_gates V remote (proxy_first opts)) (req, opts) = (r, s')" by (rule prod.exhaust)
  show ?thesis
  proof (cases r)
    case None
    with g \<open>first_answer _ opts req = None\<close> show ?thesis
      by (cases s') (simp add: handle_inner_passed serve_static_answers [OF assms])
  next
    case (Some x)
    with routing_gates_answer g have "\<exists>resp. x = Inr resp" by metis
    with g Some \<open>first_answer _ opts req = None\<close> show ?thesis
      by (auto simp: handle_inner_passed)
  qed
qed (simp add: handle_inner_front)

section \<open>The answers of the file server\<close>

lemma static_stages_security:
  assumes "static_stages X opts req md fp resp = Inr r" "security_headers opts"
    and "k \<in> security_names" "k \<notin> custom_names opts"
  shows "rs_get k r \<noteq> None"
  using assms
  by (auto simp: static_stages_def res_bind_Inr_iff Let_def custom_stage.untouched security_post_process_def
      security_append_headers_def security_names_def headers_simp)

text \<open>With security headers on, every response of the file server carries all four of them, error pages,
  redirects of directories and fallback pages included, whatever the other stages did; only a custom
  header rule for the same name could replace one.\<close>

theorem security_headers_on_every_file_response:
  assumes "serve_static V opts req = Inr r" "security_headers opts"
    and "k \<in> security_names" "k \<notin> custom_names opts"
  shows "rs_get k r \<noteq> None"
  using assms(1) static_stages_security [OF _ assms(2-4)]
  by (auto simp: serve_static_def split: sum.splits prod.splits)

text \<open>The statuses that the file server fails with.\<close>

definition error_status :: "nat \<Rightarrow> bool" where
  "error_status s = (s \<in> {403, 404, 405, 500})"

lemma error_statuses [simp]:
  "error_status 403" "error_status 404" "error_status 405" "error_status 500"
  "\<not> error_status 200" "\<not> error_status 206" "error_status (open_error_status e)"
  by (auto simp: error_status_def open_error_status_def split: open_error.split)

lemma file_reply_error: "file_reply X F h p meta pc cache = Inl s \<Longrightarrow> error_status s"
  by (auto simp: file_reply_def response_body_def Let_def
      split: sum.splits option.splits conditional_body.splits if_splits prod.splits)

lemma precompressed_reply_error: "precompressed_reply X F o' fm q enc = Inl s \<Longrightarrow> error_status s"
  by (auto simp: precompressed_reply_def res_bind_Inl_iff dest: file_reply_error split: option.splits)

lemma directory_reply_error: "directory_reply X F o' p = Inl s \<Longrightarrow> error_status s"
  by (auto simp: directory_reply_def auto_index_def split: if_splits option.splits sum.splits)

lemma trailing_slash_error: "trailing_slash_redirect X o' = Inl s \<Longrightarrow> error_status s"
  by (auto simp: trailing_slash_redirect_def Let_def split: option.splits)

lemma checked_reply_error: "checked_reply X F o' fm = Inl s \<Longrightarrow> error_status s"
  by (auto simp: checked_reply_def
      dest: file_reply_error precompressed_reply_error directory_reply_error trailing_slash_error
      split: if_splits option.splits)

lemma metadata_error: "get_composed_file_metadata X F p h cs ixs = Inl s \<Longrightarrow> error_status s"
  by (auto simp: get_composed_file_metadata_def try_metadata_def Let_def
      split: sum.splits option.splits prod.splits)

lemma path_checks_error: "path_checks F o' p = Inl s \<Longrightarrow> error_status s"
  by (auto simp: path_checks_def split: option.splits sum.splits bool.splits if_splits)

lemma sanitize_error: "sanitize_path X base p = Inl s \<Longrightarrow> error_status s"
  by (auto simp: sanitize_path_def Let_def split: if_splits option.splits)

lemma cache_error: "get_or_acquire X store closed p h = Some (Inl s) \<Longrightarrow> error_status s"
  by (auto simp: get_or_acquire_def mem_file_response_body_def Let_def
      split: if_splits option.splits conditional_body.splits sum.splits)

lemma handle_error_status: "handle X F store closed o' = Inl s \<Longrightarrow> error_status s"
  by (auto simp: handle_def res_bind_Inl_iff Let_def
      dest: checked_reply_error metadata_error path_checks_error sanitize_error cache_error
      split: if_splits option.splits)

text \<open>The statuses of its successes.\<close>

definition success_status :: "nat \<Rightarrow> bool" where
  "success_status s = (s \<in> {200, 204, 206, 304, 308, 412, 416})"

lemma success_statuses [simp]:
  "success_status 200" "success_status 204" "success_status 206" "success_status 304" "success_status 308"
  "success_status 412" "success_status 416"
  by (simp_all add: success_status_def)

lemma range_response_status: "success_status (rs_status (range_response X b s e n ct m))"
  by (cases "x_content_range X s e n"; cases m)
    (auto simp: range_response_def Let_def unsatisfied_response_def empty_response_def)

lemma conditional_status: "conditional_check X c m = NoBody r \<Longrightarrow> success_status (rs_status r)"
  by (auto simp: conditional_check_def empty_response_def split: option.splits if_splits)

lemma unsatisfied_status: "success_status (rs_status (unsatisfied_response n))"
  by (simp add: unsatisfied_response_def empty_response_def)

lemma response_body_status: "response_body X f p m c mc = Inr r \<Longrightarrow> success_status (rs_status r)"
  by (auto simp: response_body_def Let_def range_response_status conditional_status unsatisfied_status
      split: conditional_body.splits sum.splits if_splits prod.splits)

lemma file_reply_status: "file_reply X F h p meta pc cache = Inr r \<Longrightarrow> success_status (rs_status r)"
  by (auto simp: file_reply_def Let_def response_body_status split: sum.splits option.splits)

lemma mem_file_status: "mem_file_response_body X mf h = Inr r \<Longrightarrow> success_status (rs_status r)"
  by (auto simp: mem_file_response_body_def Let_def range_response_status conditional_status unsatisfied_status
      split: conditional_body.splits sum.splits if_splits prod.splits)

lemma listing_status: "read_dir_entries X F opt = Inr r \<Longrightarrow> rs_status r = 200"
  by (auto simp: read_dir_entries_def listing_response_def Let_def
      split: sum.splits option.splits prod.splits dir_list_fmt.splits)

lemma archive_status: "rs_status (archive_reply X name p m) = 200"
  by (simp add: archive_reply_def Let_def split: option.split)

lemma directory_reply_status: "directory_reply X F o' p = Inr r \<Longrightarrow> success_status (rs_status r)"
  by (auto simp: directory_reply_def auto_index_def archive_status dest: listing_status
      split: if_splits option.splits sum.splits)

lemma precompressed_reply_status:
  assumes "precompressed_reply X F o' fm q enc = Inr r"
  shows "success_status (rs_status r)"
proof -
  from assms obtain resp where
    "file_reply X F (ho_headers o') (fm_file_path fm) (fm_metadata fm) (Some q) (ho_memory_cache o') = Inr resp"
    "rs_status r = rs_status resp"
    by (auto simp: precompressed_reply_def res_bind_Inr_iff split: option.splits)
  with file_reply_status show ?thesis by metis
qed

lemma trailing_slash_status: "trailing_slash_redirect X o' = Inr r \<Longrightarrow> success_status (rs_status r)"
  by (auto simp: trailing_slash_redirect_def Let_def split: option.splits)

lemma checked_reply_status: "checked_reply X F o' fm = Inr r \<Longrightarrow> success_status (rs_status r)"
  by (auto simp: checked_reply_def options_response_def
      dest: file_reply_status precompressed_reply_status directory_reply_status trailing_slash_status
      split: if_splits option.splits)

lemma handle_success_status:
  assumes "handle X F store closed o' = Inr (r, p)"
  shows "success_status (rs_status r)"
  using assms
  by (auto simp: handle_def res_bind_Inr_iff Let_def get_or_acquire_def
      split: if_splits option.splits dest: checked_reply_status mem_file_status)

lemma static_stages_status:
  assumes "static_stages X opts req md fp resp = Inr r" "page_fallback opts = []"
  shows "rs_status r = rs_status resp"
  using assms
  by (auto simp: static_stages_def res_bind_Inr_iff Let_def fallback_post_process_def
      compression_static_post_process_def compression_post_process_status cors_post_process_status
      custom_stage.keeps_status security_stage.keeps_status cache_control_stage.keeps_status
      text_charset_stage.keeps_status markdown_stage.keeps_status split: if_splits option.splits)

lemma static_stages_body:
  assumes "static_stages X opts req md fp resp = Inr r" "page_fallback opts = []"
  shows "passes_body resp r"
proof -
  let ?r4 = "text_charset_post_process X opts (markdown_post_process X md opts (cors_post_process X opts req resp))"
  have "fallback_post_process opts req resp = resp" using assms(2) by (simp add: fallback_post_process_def)
  with assms(1) obtain r5 r6 where r: "compression_static_post_process X opts ?r4 = Inr r5"
    "compression_post_process X opts req r5 = Inr r6" "rs_body r = rs_body r6"
    by (auto simp: static_stages_def res_bind_Inr_iff Let_def custom_stage.keeps_body security_stage.keeps_body
        cache_control_stage.keeps_body)
  have "rs_body ?r4 = rs_body resp"
    by (simp add: text_charset_stage.keeps_body markdown_stage.keeps_body cors_post_process_body)
  with compression_static_body [OF r(1)] compression_post_process_body [OF r(2)] r(3) show ?thesis
    by (simp add: passes_body_def)
qed

text \<open>Without a fallback page, what is sent with success is the answer of the file server to this request.\<close>

lemma served_handled:
  assumes "serve_static V opts req = Inr r" "rs_status r = 200 \<or> rs_status r = 206" "page_fallback opts = []"
  shows "\<exists>resp q. handle (ev_ext V) (ev_fs V) (ev_store V) (ev_permit_closed V) (served_opts V opts req) = Inr (resp, q) \<and>
    rs_status r = rs_status resp \<and> passes_body resp r"
proof -
  have "\<not> error_status (rs_status r)" using assms(2) by (auto simp: error_status_def)
  then show ?thesis
    using assms(1,3) static_stages_body
    by (auto simp: serve_static_def static_stages_status dest: handle_error_status split: sum.splits prod.splits)
qed

lemma served_opts_simps:
  "ho_base_path (served_opts V opts req) = selected_root (ev_ext V) opts req"
  "ho_uri_path (served_opts V opts req) = served_path V opts req"
  "ho_headers (served_opts V opts req) = rq_headers req"
  "ho_compression_static (served_opts V opts req) = compression_static opts"
  "ho_index_files (served_opts V opts req) = index_files opts"
  "ho_disable_symlinks (served_opts V opts req) = disable_symlinks opts"
  "ho_ignore_hidden_files (served_opts V opts req) = ignore_hidden_files opts"
  "ho_memory_cache (served_opts V opts req) = memory_cache opts"
  by (simp_all add: served_opts_def static_opts_def)

text \<open>C5. The statuses of the file server through the whole pipeline: one of seven successes and four
  errors, or the 200 of the fallback page, which replaces a 404 of a GET request.\<close>

theorem file_server_statuses:
  assumes "serve_static V opts req = Inr r"
  shows "rs_status r \<in> {200, 204, 206, 304, 308, 412, 416} \<union> {403, 404, 405, 500}"
proof -
  have st: "rs_status r = rs_status resp \<or> rs_status r = 200"
    if "static_stages (ev_ext V) opts req md fp resp = Inr r" for md fp resp
    using that
    by (auto simp: static_stages_def res_bind_Inr_iff Let_def fallback_post_process_def fallback_response_def
        compression_static_post_process_def compression_post_process_status cors_post_process_status
        custom_stage.keeps_status security_stage.keeps_status cache_control_stage.keeps_status
        text_charset_stage.keeps_status markdown_stage.keeps_status split: if_splits option.splits)
  show ?thesis
  proof (cases "handle (ev_ext V) (ev_fs V) (ev_store V) (ev_permit_closed V) (served_opts V opts req)")
    case (Inl s)
    with assms st handle_error_status [OF Inl] show ?thesis
      by (fastforce simp: serve_static_def error_status_def)
  next
    case (Inr q)
    obtain resp p where q: "q = (resp, p)" by (cases q)
    with assms st handle_success_status [OF Inr [unfolded q]] Inr show ?thesis
      by (fastforce simp: serve_static_def success_status_def)
  qed
qed

section \<open>OPTIONS and credentials\<close>

text \<open>C8. OPTIONS requests need no credentials, and not only the preflight answer is given without them: with
  the proxy first, no CORS and no maintenance, an OPTIONS request that matches a rule is forwarded and
  the upstream's answer is returned as it is, whatever credentials are configured.\<close>

theorem options_forwarded_without_credentials:
  assumes "rq_method req = ''OPTIONS''" "cors_opts opts = None" "\<not> maintenance_mode opts" "proxy_first opts"
    and "proxy_pre_process (ev_ext V) (ev_up V) opts req remote = (Some (Inr resp), req', opts')"
  shows "handle_inner V M opts req remote = (Inr (if rs_status resp = 101 then resp
      else cors_post_process (ev_ext V) opts' req' resp), req', opts')"
proof -
  have "first_answer (front_checks V M) opts req = None"
    using assms(1-3)
    by (auto simp: front_checks_def is_allowed_iff is_options_def health_pre_process_def
        metrics_pre_process_def is_get_def is_head_def cors_pre_process_def auth_pre_process_def
        maintenance_pre_process_def)
  then show ?thesis
    using assms(4,5) by (auto simp: handle_inner_passed routing_gates_def proxy_gate_def try_reverse_proxy_def)
qed

section \<open>Concrete requests\<close>

definition demo_env :: env where
  "demo_env = \<lparr>ev_ext = demo_ext, ev_fs = demo_fs, ev_store = Map.empty, ev_permit_closed = False,
     ev_up = (\<lambda>_. Inl ''connection refused''), ev_encode = (\<lambda>_. ''metrics'')\<rparr>"

lemma demo_env_simps [simp]:
  "ev_ext demo_env = demo_ext" "ev_fs demo_env = demo_fs" "ev_store demo_env = Map.empty"
  "ev_permit_closed demo_env = False" "ev_up demo_env = (\<lambda>_. Inl ''connection refused'')"
  "ev_encode demo_env = (\<lambda>_. ''metrics'')"
  by (simp_all add: demo_env_def)

definition demo_opts :: handler_opts where
  "demo_opts = handler_opts_default\<lparr>root_dir := ''/srv'', ignore_hidden_files := True, disable_symlinks := True,
     security_headers := True\<rparr>"

lemma demo_served_opts:
  "served_opts demo_env demo_opts (demo_request ''GET'' u []) = demo_handle u"
  by (simp add: served_opts_def static_opts_def demo_handle_def selected_root_def served_path_def
      markdown_path_def demo_opts_def handler_opts_default_def demo_request_def demo_uri_def)

theorem maintenance_covers_everything_witness:
  "\<exists>r. fst (handle_inner (demo_env\<lparr>ev_up := \<lambda>_. Inr (response_new Empty_Body), ev_store := Map.empty, ev_permit_closed := True\<rparr>)
      metrics_start (handler_opts_default\<lparr>maintenance_mode := True\<rparr>) (demo_request ''GET'' ''/'' []) None) = Inr r"
  using maintenance_covers_everything [of "handler_opts_default\<lparr>maintenance_mode := True\<rparr>" "demo_request ''GET'' ''/'' []"
    demo_env metrics_start None] by force

theorem other_methods_never_proxied_witness:
  "\<exists>r. rs_status r = 405 \<and>
    (\<forall>up. handle_inner (demo_env\<lparr>ev_up := up\<rparr>) metrics_start (handler_opts_default\<lparr>proxy_first := True\<rparr>)
       (demo_request ''POST'' ''/'' []) None
      = (Inr r, demo_request ''POST'' ''/'' [], handler_opts_default\<lparr>proxy_first := True\<rparr>))"
  by (rule other_methods_never_proxied) simp_all

theorem request_counted_once_witness:
  "\<exists>log res o' M'. handle_request demo_env 5 (handler_opts_default\<lparr>metrics_enabled := True\<rparr>) metrics_start
      (demo_request ''POST'' ''/'' []) None = (log, res, o', M') \<and>
    mx_requests_inflight M' = 0 \<and> mx_requests_total M' (''POST'', ''4xx'', '''') = Some 1"
proof -
  let ?o = "handler_opts_default\<lparr>metrics_enabled := True\<rparr>" and ?q = "demo_request ''POST'' ''/'' []"
  obtain log res o' M' where h: "handle_request demo_env 5 ?o metrics_start ?q None = (log, res, o', M')"
    by (metis surj_pair)
  have i: "handle_inner demo_env (handle_start ?o metrics_start) ?o ?q None = (Inr (env_error demo_env ?o ?q 405), ?q, ?o)"
    by (simp add: handle_inner_def is_allowed_iff is_get_def is_head_def is_options_def)
  have m: "metrics_enabled ?o" by simp
  have "hget ''host'' [] = None" by (simp add: headers_simp)
  with request_counted_once [OF m i h] h show ?thesis
    by (auto simp: metrics_start_def counter_inc_by_def request_labels_def status_class_def)
qed

theorem inflight_counts_cancelled_witness:
  "\<exists>M. (inflight_step demo_env (handler_opts_default\<lparr>metrics_enabled := True\<rparr>))\<^sup>*\<^sup>* (0, 0, metrics_start) (0, 1, M) \<and>
     mx_requests_inflight M = 1"
proof -
  let ?o = "handler_opts_default\<lparr>metrics_enabled := True\<rparr>"
  have "inflight_step demo_env ?o (0, 0, metrics_start) (Suc 0, 0, handle_start ?o metrics_start)"
    by (rule request_started)
  moreover have "inflight_step demo_env ?o (Suc 0, 0, handle_start ?o metrics_start) (0, Suc 0, handle_start ?o metrics_start)"
    by (rule request_cancelled)
  ultimately have r: "(inflight_step demo_env ?o)\<^sup>*\<^sup>* (0, 0, metrics_start) (0, Suc 0, handle_start ?o metrics_start)"
    by auto
  from inflight_counts_cancelled [OF r] r show ?thesis
    by (auto simp: metrics_start_def)
qed

definition strict_env :: env where
  "strict_env = demo_env\<lparr>ev_ext := demo_ext\<lparr>x_header_str := \<lambda>v. if list_all header_char v then Some v else None\<rparr>\<rparr>"

lemma strict_env_documented: "header_values_documented (ev_ext strict_env)"
  by (simp add: header_values_documented_def strict_env_def)

theorem handler_always_answers_witness:
  "\<exists>resp. fst (handle_inner strict_env metrics_start handler_opts_default (demo_request ''GET'' ''/a'' []) None) = Inr resp"
  by (rule handler_always_answers) (rule strict_env_documented)

theorem security_headers_on_every_file_response_witness:
  "\<exists>r. serve_static strict_env demo_opts (demo_request ''GET'' ''/a.html'' []) = Inr r \<and>
     rs_get ''x-frame-options'' r \<noteq> None"
proof -
  obtain r where r: "serve_static strict_env demo_opts (demo_request ''GET'' ''/a.html'' []) = Inr r"
    using serve_static_answers [OF strict_env_documented] by blast
  have "rs_get ''x-frame-options'' r \<noteq> None"
    by (rule security_headers_on_every_file_response [OF r])
      (simp_all add: demo_opts_def security_names_def custom_names_def handler_opts_default_def)
  with r show ?thesis by blast
qed

theorem file_server_statuses_witness:
  "\<exists>r. serve_static strict_env demo_opts (demo_request ''GET'' ''/a.html'' []) = Inr r \<and>
     rs_status r \<in> {200, 204, 206, 304, 308, 412, 416} \<union> {403, 404, 405, 500}"
  using serve_static_answers [OF strict_env_documented] file_server_statuses by metis

definition demo_rule :: proxy_rule where
  "demo_rule = \<lparr>pr_host = None, pr_source = ''**'',
     pr_balancer = \<lparr>pb_name = None, pb_targets = [demo_uri ''/''], pb_next = 0\<rparr>, pr_strip_prefix = None,
     pr_uri_templates = [\<lparr>ut_origin = ''http://up'', ut_base_path = ''/'', ut_strip_prefix = None\<rparr>]\<rparr>"

definition demo_proxy_opts :: handler_opts where
  "demo_proxy_opts = handler_opts_default\<lparr>basic_auth := ''u:h'', proxy_first := True, has_proxy_client := True,
     advanced_opts := Some (advanced_default\<lparr>ad_proxies := Some [demo_rule]\<rparr>)\<rparr>"

lemma demo_upstream_uri:
  "fst (upstream_uri_for_rule demo_ext demo_rule (demo_uri ''/x'')) =
     Inr ((demo_uri ''/x'')\<lparr>uri_scheme := Some ''http'', uri_authority := Some ''up'', uri_host := Some ''up''\<rparr>)"
  by (simp add: upstream_uri_for_rule_def next_index_def demo_rule_def build_upstream_uri_from_template_def
      merged_path_def demo_uri_def demo_parse_uri_def strip_prefix_def)

lemma demo_proxied:
  "\<exists>req' opts'. proxy_pre_process demo_ext (\<lambda>_. Inr (response_new (Upstream_Body ''secret''))) demo_proxy_opts
     (demo_request ''OPTIONS'' ''/x'' [(''host'', ''h'')]) None
    = (Some (Inr (response_new (Upstream_Body ''secret''))), req', opts') \<and> cors_opts opts' = None"
proof -
  let ?q = "demo_request ''OPTIONS'' ''/x'' [(''host'', ''h'')]"
  have "x_glob_match demo_ext ''**'' p" for p by simp
  then have f: "find_rule demo_ext demo_proxy_opts ?q = Some (0, demo_rule)"
    by (simp add: find_rule_def demo_proxy_opts_def advanced_default_def proxy_request_host_def demo_request_def
        demo_uri_def hget_def demo_rule_def)
  have u: "\<not> is_protocol_upgrade demo_ext ?q"
    by (simp add: is_protocol_upgrade_def hcontains_def)
  have s: "\<not> is_streaming_request demo_ext ?q"
    by (simp add: is_streaming_request_def hget_def)
  obtain rule' where r: "upstream_uri_for_rule demo_ext demo_rule (demo_uri ''/x'') =
      (Inr ((demo_uri ''/x'')\<lparr>uri_scheme := Some ''http'', uri_authority := Some ''up'', uri_host := Some ''up''\<rparr>), rule')"
    using demo_upstream_uri by (metis prod.exhaust_sel)
  have q: "rq_uri ?q = demo_uri ''/x''" by (simp add: demo_request_def)
  have e: "remove_hop_by_hop_response_headers [] = []"
    by (simp add: remove_hop_by_hop_response_headers_def remove_hop_by_hop_request_headers_def hop_by_hop_request_names_def
        hremove_def)
  have o': "has_proxy_client demo_proxy_opts" "cors_opts (put_rule i x demo_proxy_opts) = None" for i x
    by (simp_all add: demo_proxy_opts_def put_rule_def)
  have n: "(response_new b)\<lparr>rs_headers := []\<rparr> = response_new b" for b
    by (simp add: response_new_def)
  show ?thesis
    by (simp add: proxy_pre_process_def f u forward_http_def q r s e o' n set_upstream_host_def Let_def)
qed

theorem options_forwarded_without_credentials_witness:
  "\<exists>r q o'. handle_inner (demo_env\<lparr>ev_up := \<lambda>_. Inr (response_new (Upstream_Body ''secret''))\<rparr>) metrics_start
      demo_proxy_opts (demo_request ''OPTIONS'' ''/x'' [(''host'', ''h'')]) None = (Inr r, q, o') \<and>
    basic_auth demo_proxy_opts = ''u:h'' \<and> rs_body r = Upstream_Body ''secret''"
proof -
  let ?V = "demo_env\<lparr>ev_up := \<lambda>_. Inr (response_new (Upstream_Body ''secret''))\<rparr>"
  obtain req' opts' where p: "proxy_pre_process (ev_ext ?V) (ev_up ?V) demo_proxy_opts
     (demo_request ''OPTIONS'' ''/x'' [(''host'', ''h'')]) None
    = (Some (Inr (response_new (Upstream_Body ''secret''))), req', opts')" "cors_opts opts' = None"
    using demo_proxied by auto
  show ?thesis
    using options_forwarded_without_credentials [OF _ _ _ _ p(1), of metrics_start] p(2)
    by (simp add: demo_proxy_opts_def cors_post_process_def)
qed

end
