(* ===== verification/Cli.thy ===== *)
theory Cli
  imports Opts Mem_Cache
begin

text \<open>
  The command line (\<open>src/settings/cli.rs\<close>): the options with their environment variables, defaults
  and constraints, as the attributes of \<open>General\<close> declare them, and the parsers of their values. The
  splitting of the command line itself is the \<open>clap\<close> crate's: what it finds is the argument \<open>A\<close>, which
  gives for a long option name nothing, the option without a value, or its value; \<open>E\<close> is the
  process environment.
\<close>

section \<open>Options\<close>

datatype commands = Generate bool bool path

record general =
  g_host :: string
  g_port :: nat
  g_fd :: "nat option"
  g_threads_multiplier :: nat
  g_max_blocking_threads :: nat
  g_root :: path
  g_page50x :: path
  g_page404 :: path
  g_page_fallback :: path
  g_log_level :: string
  g_log_with_ansi :: bool
  g_cors_allow_origins :: string
  g_cors_allow_headers :: string
  g_cors_expose_headers :: string
  g_http2 :: bool
  g_http2_tls_cert :: "path option"
  g_http2_tls_key :: "path option"
  g_https_redirect :: bool
  g_https_redirect_host :: string
  g_https_redirect_from_port :: nat
  g_https_redirect_from_hosts :: string
  g_index_files :: string
  g_compression :: bool
  g_compression_level :: compression_level
  g_compression_static :: bool
  g_directory_listing :: bool
  g_directory_listing_order :: nat
  g_directory_listing_format :: dir_list_fmt
  g_directory_listing_download :: "dir_download_fmt list"
  g_security_headers :: bool
  g_cache_control_headers :: bool
  g_basic_auth :: string
  g_grace_period :: nat
  g_config_file :: path
  g_log_remote_address :: bool
  g_log_x_real_ip :: bool
  g_log_forwarded_for :: bool
  g_trusted_proxies :: "string list"
  g_redirect_trailing_slash :: bool
  g_ignore_hidden_files :: bool
  g_disable_symlinks :: bool
  g_accept_markdown :: bool
  g_text_charset :: bool
  g_health :: bool
  g_metrics :: bool
  g_maintenance_mode :: bool
  g_maintenance_mode_status :: nat
  g_maintenance_mode_file :: path
  g_commands :: "commands option"
  g_version :: bool

text \<open>The declared options: long name, environment variable, default value, and whether the value may be
  left out, which then is \<open>true\<close>.\<close>

record arg_spec =
  as_env :: "string option"
  as_default :: "string option"
  as_missing_true :: bool

definition arg :: "string \<Rightarrow> string \<Rightarrow> string \<times> arg_spec" where
  "arg name d = (name, \<lparr>as_env = Some (''SERVER_'' @ to_ascii_uppercase
       (map (\<lambda>c. if c = CHR ''-'' then CHR ''_'' else c) name)),
     as_default = Some d, as_missing_true = False\<rparr>)"

definition switch :: "string \<Rightarrow> string \<Rightarrow> string \<times> arg_spec" where
  "switch name d = (name, (snd (arg name d))\<lparr>as_missing_true := True\<rparr>)"

definition env_name :: "string \<Rightarrow> string \<times> arg_spec \<Rightarrow> string \<times> arg_spec" where
  "env_name e a = (fst a, (snd a)\<lparr>as_env := Some e\<rparr>)"

definition no_default :: "string \<times> arg_spec \<Rightarrow> string \<times> arg_spec" where
  "no_default a = (fst a, (snd a)\<lparr>as_default := None\<rparr>)"

definition ARGS_SERVER :: "(string \<times> arg_spec) list" where
  "ARGS_SERVER =
     [arg ''host'' ''::'', arg ''port'' ''80'', env_name ''SERVER_LISTEN_FD'' (no_default (arg ''fd'' [])),
      arg ''threads-multiplier'' ''1'', arg ''max-blocking-threads'' ''512'', arg ''root'' ''./public'',
      env_name ''SERVER_ERROR_PAGE_50X'' (arg ''page50x'' ''./50x.html''),
      env_name ''SERVER_ERROR_PAGE_404'' (arg ''page404'' ''./404.html''),
      env_name ''SERVER_FALLBACK_PAGE'' (arg ''page-fallback'' []),
      arg ''log-level'' ''error'', switch ''log-with-ansi'' ''false'',
      arg ''cors-allow-origins'' [], arg ''cors-allow-headers'' ''origin, content-type, authorization'',
      arg ''cors-expose-headers'' ''origin, content-type'']"

definition ARGS_TLS :: "(string \<times> arg_spec) list" where
  "ARGS_TLS =
     [env_name ''SERVER_HTTP2_TLS'' (switch ''http2'' ''false''), no_default (arg ''http2-tls-cert'' []),
      no_default (arg ''http2-tls-key'' []), switch ''https-redirect'' ''false'',
      arg ''https-redirect-host'' ''localhost'', arg ''https-redirect-from-port'' ''80'',
      arg ''https-redirect-from-hosts'' ''localhost'']"

definition ARGS_CONTENT :: "(string \<times> arg_spec) list" where
  "ARGS_CONTENT =
     [arg ''index-files'' ''index.html'',
      switch ''compression'' ''true'', arg ''compression-level'' ''default'', switch ''compression-static'' ''false'',
      switch ''directory-listing'' ''false'', arg ''directory-listing-order'' ''6'',
      arg ''directory-listing-format'' ''html'', no_default (arg ''directory-listing-download'' []),
      switch ''security-headers'' ''false'', switch ''cache-control-headers'' ''true'']"

definition ARGS_ACCESS :: "(string \<times> arg_spec) list" where
  "ARGS_ACCESS =
     [arg ''basic-auth'' [],
      arg ''grace-period'' ''0'', arg ''config-file'' ''./weavegate.toml'', switch ''log-remote-address'' ''false'',
      switch ''log-x-real-ip'' ''false'', switch ''log-forwarded-for'' ''false'',
      no_default (arg ''trusted-proxies'' []), switch ''redirect-trailing-slash'' ''true'',
      switch ''ignore-hidden-files'' ''true'', switch ''disable-symlinks'' ''true'', switch ''accept-markdown'' ''false'']"

definition ARGS_SERVICE :: "(string \<times> arg_spec) list" where
  "ARGS_SERVICE =
     [switch ''text-charset'' ''true'', switch ''health'' ''false'', switch ''metrics'' ''false'',
      switch ''maintenance-mode'' ''false'', arg ''maintenance-mode-status'' ''503'',
      arg ''maintenance-mode-file'' [],
      (''version'', \<lparr>as_env = None, as_default = Some ''false'', as_missing_true = True\<rparr>)]"

definition ARGS :: "(string \<times> arg_spec) list" where
  "ARGS = ARGS_SERVER @ ARGS_TLS @ ARGS_CONTENT @ ARGS_ACCESS @ ARGS_SERVICE"

lemmas ARGS_simps = ARGS_def ARGS_SERVER_def ARGS_TLS_def ARGS_CONTENT_def ARGS_ACCESS_def ARGS_SERVICE_def
  arg_def switch_def env_name_def no_default_def

section \<open>Values\<close>

text \<open>What the user gave for an option: on the command line first, then in the environment.\<close>

type_synonym given = "string \<Rightarrow> string option option"
type_synonym environment = "string \<Rightarrow> string option"

definition explicit :: "given \<Rightarrow> environment \<Rightarrow> string \<Rightarrow> string option" where
  "explicit A E name =
     (case map_of ARGS name of
        None \<Rightarrow> None
      | Some spec \<Rightarrow>
          (case A name of
             Some (Some v) \<Rightarrow> Some v
           | Some None \<Rightarrow> (if as_missing_true spec then Some ''true'' else None)
           | None \<Rightarrow> Option.bind (as_env spec) E))"

definition value_missing :: "given \<Rightarrow> string \<Rightarrow> bool" where
  "value_missing A name =
     (A name = Some None \<and> (case map_of ARGS name of Some spec \<Rightarrow> \<not> as_missing_true spec | None \<Rightarrow> True))"

text \<open>The value of an option; the security headers are on by default with HTTP/2.\<close>

definition arg_value :: "given \<Rightarrow> environment \<Rightarrow> string \<Rightarrow> string option" where
  "arg_value A E name =
     (case explicit A E name of
        Some v \<Rightarrow> Some v
      | None \<Rightarrow>
          if name = ''security-headers'' \<and> explicit A E ''http2'' = Some ''true'' then Some ''true''
          else Option.bind (map_of ARGS name) as_default)"

definition CONFLICTS :: "(string \<times> string) list" where
  "CONFLICTS = [(''fd'', ''host''), (''fd'', ''port''), (''fd'', ''https-redirect'')]"

text \<open>An option that must be given when another has a value, and an option whose value needs another.\<close>

definition REQUIRED_IF :: "(string \<times> string \<times> string) list" where
  "REQUIRED_IF = [(''http2-tls-cert'', ''http2'', ''true''), (''http2-tls-key'', ''http2'', ''true'')]"

definition REQUIRES_IF :: "(string \<times> string \<times> string) list" where
  "REQUIRES_IF =
     [(''https-redirect'', ''true'', ''http2''), (''https-redirect-host'', ''true'', ''https-redirect''),
      (''https-redirect-from-port'', ''true'', ''https-redirect''),
      (''https-redirect-from-hosts'', ''true'', ''https-redirect''),
      (''directory-listing-order'', ''true'', ''directory-listing''),
      (''directory-listing-format'', ''true'', ''directory-listing''),
      (''directory-listing-download'', ''targz'', ''directory-listing''),
      (''maintenance-mode-status'', ''true'', ''maintenance-mode''),
      (''maintenance-mode-file'', ''true'', ''maintenance-mode'')]"

definition constraints_hold :: "given \<Rightarrow> environment \<Rightarrow> bool" where
  "constraints_hold A E =
     (list_all (\<lambda>(a, b). explicit A E a = None \<or> explicit A E b = None) CONFLICTS \<and>
      list_all (\<lambda>(a, b, v). explicit A E b \<noteq> Some v \<or> explicit A E a \<noteq> None) REQUIRED_IF \<and>
      list_all (\<lambda>(a, v, b). explicit A E a \<noteq> Some v \<or> explicit A E b \<noteq> None) REQUIRES_IF \<and>
      list_all (\<lambda>(n, _). \<not> value_missing A n) ARGS)"

section \<open>Parsers\<close>

definition usize_max :: nat where "usize_max = 2 ^ 64 - 1"

definition parse_bool :: "string \<Rightarrow> bool res" where
  "parse_bool s = (if s = ''true'' then Inr True else if s = ''false'' then Inr False else Inl ''invalid value'')"

definition parse_number :: "nat \<Rightarrow> string \<Rightarrow> nat res" where
  "parse_number bound s = (case parse_uint bound s of Some n \<Rightarrow> Inr n | None \<Rightarrow> Inl ''invalid value'')"

definition value_parser_pathbuf :: "string \<Rightarrow> path res" where
  "value_parser_pathbuf s = Inr s"

definition status_from_u16 :: "nat \<Rightarrow> nat res" where
  "status_from_u16 n = (if 100 \<le> n \<and> n < 1000 then Inr n else Inl ''invalid status code'')"

definition value_parser_status_code :: "string \<Rightarrow> nat res" where
  "value_parser_status_code s = res_bind (parse_number 65535 s) status_from_u16"

definition parse_compression_level :: "string \<Rightarrow> compression_level res" where
  "parse_compression_level s =
     (if s = ''fastest'' then Inr CL_Fastest else if s = ''best'' then Inr CL_Best
      else if s = ''default'' then Inr CL_Default else Inl ''invalid value'')"

definition parse_list_format :: "string \<Rightarrow> dir_list_fmt res" where
  "parse_list_format s =
     (if eq_ignore_ascii_case s ''html'' then Inr DirList_Html
      else if eq_ignore_ascii_case s ''json'' then Inr DirList_Json else Inl ''invalid value'')"

definition parse_download_format :: "string \<Rightarrow> dir_download_fmt res" where
  "parse_download_format s = (if eq_ignore_ascii_case s ''targz'' then Inr Targz else Inl ''invalid value'')"

definition parse_ip_addr :: "ext \<Rightarrow> string \<Rightarrow> string res" where
  "parse_ip_addr X s = (case x_parse_ip X s of Some ip \<Rightarrow> Inr ip | None \<Rightarrow> Inl ''invalid IP address'')"

text \<open>A mandatory value, an optional one, and a list with commas.\<close>

definition one :: "given \<Rightarrow> environment \<Rightarrow> string \<Rightarrow> (string \<Rightarrow> 'a res) \<Rightarrow> 'a res" where
  "one A E name parse =
     (case arg_value A E name of Some v \<Rightarrow> parse v | None \<Rightarrow> Inl ''missing value'')"

definition opt :: "given \<Rightarrow> environment \<Rightarrow> string \<Rightarrow> (string \<Rightarrow> 'a res) \<Rightarrow> 'a option res" where
  "opt A E name parse =
     (case arg_value A E name of Some v \<Rightarrow> res_bind (parse v) (\<lambda>a. Inr (Some a)) | None \<Rightarrow> Inr None)"

definition many :: "given \<Rightarrow> environment \<Rightarrow> string \<Rightarrow> (string \<Rightarrow> 'a res) \<Rightarrow> 'a list res" where
  "many A E name parse =
     (case arg_value A E name of Some v \<Rightarrow> collect_res parse (split_on (CHR '','') v) | None \<Rightarrow> Inr [])"

section \<open>Parsing\<close>

text \<open>\<open>General::parse_from\<close>: the constraints, then every field from its value.\<close>

definition general_parse :: "ext \<Rightarrow> given \<Rightarrow> environment \<Rightarrow> commands option \<Rightarrow> general res" where
  "general_parse X A E cmds =
     (if \<not> constraints_hold A E then Inl ''conflicting or missing options''
      else
      res_bind (one A E ''host'' Inr) (\<lambda>host'.
      res_bind (one A E ''port'' (parse_number 65535)) (\<lambda>port'.
      res_bind (opt A E ''fd'' (parse_number usize_max)) (\<lambda>fd'.
      res_bind (one A E ''threads-multiplier'' (parse_number usize_max)) (\<lambda>threads_multiplier'.
      res_bind (one A E ''max-blocking-threads'' (parse_number usize_max)) (\<lambda>max_blocking_threads'.
      res_bind (one A E ''root'' value_parser_pathbuf) (\<lambda>root'.
      res_bind (one A E ''page50x'' value_parser_pathbuf) (\<lambda>page50x'.
      res_bind (one A E ''page404'' value_parser_pathbuf) (\<lambda>page404'.
      res_bind (one A E ''page-fallback'' value_parser_pathbuf) (\<lambda>page_fallback'.
      res_bind (one A E ''log-level'' Inr) (\<lambda>log_level'.
      res_bind (one A E ''log-with-ansi'' parse_bool) (\<lambda>log_with_ansi'.
      res_bind (one A E ''cors-allow-origins'' Inr) (\<lambda>cors_allow_origins'.
      res_bind (one A E ''cors-allow-headers'' Inr) (\<lambda>cors_allow_headers'.
      res_bind (one A E ''cors-expose-headers'' Inr) (\<lambda>cors_expose_headers'.
      res_bind (one A E ''http2'' parse_bool) (\<lambda>http2'.
      res_bind (opt A E ''http2-tls-cert'' value_parser_pathbuf) (\<lambda>http2_tls_cert'.
      res_bind (opt A E ''http2-tls-key'' value_parser_pathbuf) (\<lambda>http2_tls_key'.
      res_bind (one A E ''https-redirect'' parse_bool) (\<lambda>https_redirect'.
      res_bind (one A E ''https-redirect-host'' Inr) (\<lambda>https_redirect_host'.
      res_bind (one A E ''https-redirect-from-port'' (parse_number 65535)) (\<lambda>https_redirect_from_port'.
      res_bind (one A E ''https-redirect-from-hosts'' Inr) (\<lambda>https_redirect_from_hosts'.
      res_bind (one A E ''index-files'' Inr) (\<lambda>index_files'.
      res_bind (one A E ''compression'' parse_bool) (\<lambda>compression'.
      res_bind (one A E ''compression-level'' parse_compression_level) (\<lambda>compression_level'.
      res_bind (one A E ''compression-static'' parse_bool) (\<lambda>compression_static'.
      res_bind (one A E ''directory-listing'' parse_bool) (\<lambda>directory_listing'.
      res_bind (one A E ''directory-listing-order'' (parse_number 255)) (\<lambda>directory_listing_order'.
      res_bind (one A E ''directory-listing-format'' parse_list_format) (\<lambda>directory_listing_format'.
      res_bind (many A E ''directory-listing-download'' parse_download_format) (\<lambda>directory_listing_download'.
      res_bind (one A E ''security-headers'' parse_bool) (\<lambda>security_headers'.
      res_bind (one A E ''cache-control-headers'' parse_bool) (\<lambda>cache_control_headers'.
      res_bind (one A E ''basic-auth'' Inr) (\<lambda>basic_auth'.
      res_bind (one A E ''grace-period'' (parse_number 255)) (\<lambda>grace_period'.
      res_bind (one A E ''config-file'' value_parser_pathbuf) (\<lambda>config_file'.
      res_bind (one A E ''log-remote-address'' parse_bool) (\<lambda>log_remote_address'.
      res_bind (one A E ''log-x-real-ip'' parse_bool) (\<lambda>log_x_real_ip'.
      res_bind (one A E ''log-forwarded-for'' parse_bool) (\<lambda>log_forwarded_for'.
      res_bind (many A E ''trusted-proxies'' (parse_ip_addr X)) (\<lambda>trusted_proxies'.
      res_bind (one A E ''redirect-trailing-slash'' parse_bool) (\<lambda>redirect_trailing_slash'.
      res_bind (one A E ''ignore-hidden-files'' parse_bool) (\<lambda>ignore_hidden_files'.
      res_bind (one A E ''disable-symlinks'' parse_bool) (\<lambda>disable_symlinks'.
      res_bind (one A E ''accept-markdown'' parse_bool) (\<lambda>accept_markdown'.
      res_bind (one A E ''text-charset'' parse_bool) (\<lambda>text_charset'.
      res_bind (one A E ''health'' parse_bool) (\<lambda>health'.
      res_bind (one A E ''metrics'' parse_bool) (\<lambda>metrics'.
      res_bind (one A E ''maintenance-mode'' parse_bool) (\<lambda>maintenance_mode'.
      res_bind (one A E ''maintenance-mode-status'' value_parser_status_code) (\<lambda>maintenance_mode_status'.
      res_bind (one A E ''maintenance-mode-file'' value_parser_pathbuf) (\<lambda>maintenance_mode_file'.
      res_bind (one A E ''version'' parse_bool) (\<lambda>version'.
      Inr \<lparr>g_host = host', g_port = port', g_fd = fd', g_threads_multiplier = threads_multiplier',
      g_max_blocking_threads = max_blocking_threads', g_root = root', g_page50x = page50x',
      g_page404 = page404', g_page_fallback = page_fallback', g_log_level = log_level',
      g_log_with_ansi = log_with_ansi', g_cors_allow_origins = cors_allow_origins',
      g_cors_allow_headers = cors_allow_headers', g_cors_expose_headers = cors_expose_headers',
      g_http2 = http2', g_http2_tls_cert = http2_tls_cert', g_http2_tls_key = http2_tls_key',
      g_https_redirect = https_redirect', g_https_redirect_host = https_redirect_host',
      g_https_redirect_from_port = https_redirect_from_port',
      g_https_redirect_from_hosts = https_redirect_from_hosts', g_index_files = index_files',
      g_compression = compression', g_compression_level = compression_level',
      g_compression_static = compression_static', g_directory_listing = directory_listing',
      g_directory_listing_order = directory_listing_order',
      g_directory_listing_format = directory_listing_format',
      g_directory_listing_download = directory_listing_download', g_security_headers = security_headers',
      g_cache_control_headers = cache_control_headers', g_basic_auth = basic_auth',
      g_grace_period = grace_period', g_config_file = config_file', g_log_remote_address = log_remote_address',
      g_log_x_real_ip = log_x_real_ip', g_log_forwarded_for = log_forwarded_for',
      g_trusted_proxies = trusted_proxies', g_redirect_trailing_slash = redirect_trailing_slash',
      g_ignore_hidden_files = ignore_hidden_files', g_disable_symlinks = disable_symlinks',
      g_accept_markdown = accept_markdown', g_text_charset = text_charset', g_health = health',
      g_metrics = metrics', g_maintenance_mode = maintenance_mode',
      g_maintenance_mode_status = maintenance_mode_status', g_maintenance_mode_file = maintenance_mode_file',
      g_commands = cmds, g_version = version'\<rparr>))))))))))))))))))))))))))))))))))))))))))))))))))"

text \<open>The defaults as one record.\<close>

definition general_default :: general where
  "general_default =
     \<lparr>g_host = ''::'', g_port = 80, g_fd = None, g_threads_multiplier = 1, g_max_blocking_threads = 512,
     g_root = ''./public'', g_page50x = ''./50x.html'', g_page404 = ''./404.html'', g_page_fallback = [],
     g_log_level = ''error'', g_log_with_ansi = False, g_cors_allow_origins = [],
     g_cors_allow_headers = ''origin, content-type, authorization'',
     g_cors_expose_headers = ''origin, content-type'', g_http2 = False, g_http2_tls_cert = None,
     g_http2_tls_key = None, g_https_redirect = False, g_https_redirect_host = ''localhost'',
     g_https_redirect_from_port = 80, g_https_redirect_from_hosts = ''localhost'',
     g_index_files = ''index.html'', g_compression = True, g_compression_level = CL_Default,
     g_compression_static = False, g_directory_listing = False, g_directory_listing_order = 6,
     g_directory_listing_format = DirList_Html, g_directory_listing_download = [], g_security_headers = False,
     g_cache_control_headers = True, g_basic_auth = [], g_grace_period = 0,
     g_config_file = ''./weavegate.toml'', g_log_remote_address = False, g_log_x_real_ip = False,
     g_log_forwarded_for = False, g_trusted_proxies = [], g_redirect_trailing_slash = True,
     g_ignore_hidden_files = True, g_disable_symlinks = True, g_accept_markdown = False, g_text_charset = True,
     g_health = False, g_metrics = False, g_maintenance_mode = False, g_maintenance_mode_status = 503,
     g_maintenance_mode_file = [], g_commands = None, g_version = False\<rparr>"


section \<open>Lemmas\<close>

text \<open>The numeric types of the fields.\<close>

definition general_wf :: "general \<Rightarrow> bool" where
  "general_wf g =
     (g_port g < 65536 \<and> g_https_redirect_from_port g < 65536 \<and> g_grace_period g < 256 \<and>
      g_directory_listing_order g < 256 \<and> 100 \<le> g_maintenance_mode_status g \<and> g_maintenance_mode_status g < 1000)"

lemma parse_uint_le: "parse_uint b s = Some n \<Longrightarrow> n \<le> b"
  by (auto simp: parse_uint_def Let_def split: if_splits option.splits)

lemma parse_number_le: "parse_number b s = Inr n \<Longrightarrow> n \<le> b"
  by (auto simp: parse_number_def dest: parse_uint_le split: option.splits)

lemma one_Inr: "one A E name parse = Inr v \<Longrightarrow> \<exists>s. arg_value A E name = Some s \<and> parse s = Inr v"
  by (auto simp: one_def split: option.splits)

lemma opt_Inr:
  "opt A E name parse = Inr v \<Longrightarrow>
   (case arg_value A E name of None \<Rightarrow> v = None | Some s \<Rightarrow> (\<exists>a. parse s = Inr a \<and> v = Some a))"
  by (auto simp: opt_def res_bind_Inr_iff split: option.splits)

lemma general_parse_fields:
  assumes "general_parse X A E cmds = Inr g"
  shows "constraints_hold A E \<and> one A E ''port'' (parse_number 65535) = Inr (g_port g) \<and>
    one A E ''https-redirect-from-port'' (parse_number 65535) = Inr (g_https_redirect_from_port g) \<and>
    one A E ''grace-period'' (parse_number 255) = Inr (g_grace_period g) \<and>
    one A E ''directory-listing-order'' (parse_number 255) = Inr (g_directory_listing_order g) \<and>
    one A E ''maintenance-mode-status'' value_parser_status_code = Inr (g_maintenance_mode_status g) \<and>
    one A E ''http2'' parse_bool = Inr (g_http2 g) \<and>
    one A E ''security-headers'' parse_bool = Inr (g_security_headers g) \<and>
    opt A E ''http2-tls-cert'' value_parser_pathbuf = Inr (g_http2_tls_cert g) \<and>
    opt A E ''http2-tls-key'' value_parser_pathbuf = Inr (g_http2_tls_key g)"
proof -
  have c: "constraints_hold A E" using assms by (rule contrapos_pp) (simp add: general_parse_def)
  then have nc: "\<not> \<not> constraints_hold A E" by simp
  show ?thesis
    using assms unfolding general_parse_def if_not_P [OF nc]
    by (elim res_bindE) (simp only: sum.inject, hypsubst, intro conjI; (simp only: general.select_convs c)?; assumption?)
qed

lemma parsed_general_wf:
  assumes "general_parse X A E cmds = Inr g"
  shows "general_wf g"
proof -
  note f = general_parse_fields [OF assms]
  from f have "one A E ''maintenance-mode-status'' value_parser_status_code = Inr (g_maintenance_mode_status g)" by simp
  then have "100 \<le> g_maintenance_mode_status g \<and> g_maintenance_mode_status g < 1000"
    by (auto dest!: one_Inr simp: value_parser_status_code_def res_bind_Inr_iff status_from_u16_def split: if_splits)
  moreover have "g_port g \<le> 65535 \<and> g_https_redirect_from_port g \<le> 65535 \<and> g_grace_period g \<le> 255 \<and>
      g_directory_listing_order g \<le> 255"
    using f by (meson one_Inr parse_number_le)
  ultimately show ?thesis by (simp add: general_wf_def)
qed

text \<open>The numbers of the parsed command line fit their machine types, and the maintenance status is a valid
  HTTP status.\<close>

theorem command_line_well_formed:
  assumes "general_parse X A E cmds = Inr g"
  shows "general_wf g"
  by (rule parsed_general_wf [OF assms])

text \<open>The table looked up.\<close>

lemma arg_table:
  "map (map_prod id as_default) ARGS =
     [(''host'', Some ''::''), (''port'', Some ''80''), (''fd'', None), (''threads-multiplier'', Some ''1''),
     (''max-blocking-threads'', Some ''512''), (''root'', Some ''./public''),
     (''page50x'', Some ''./50x.html''), (''page404'', Some ''./404.html''), (''page-fallback'', Some []),
     (''log-level'', Some ''error''), (''log-with-ansi'', Some ''false''), (''cors-allow-origins'', Some []),
     (''cors-allow-headers'', Some ''origin, content-type, authorization''),
     (''cors-expose-headers'', Some ''origin, content-type''), (''http2'', Some ''false''),
     (''http2-tls-cert'', None), (''http2-tls-key'', None), (''https-redirect'', Some ''false''),
     (''https-redirect-host'', Some ''localhost''), (''https-redirect-from-port'', Some ''80''),
     (''https-redirect-from-hosts'', Some ''localhost''), (''index-files'', Some ''index.html''),
     (''compression'', Some ''true''), (''compression-level'', Some ''default''),
     (''compression-static'', Some ''false''), (''directory-listing'', Some ''false''),
     (''directory-listing-order'', Some ''6''), (''directory-listing-format'', Some ''html''),
     (''directory-listing-download'', None), (''security-headers'', Some ''false''),
     (''cache-control-headers'', Some ''true''), (''basic-auth'', Some []), (''grace-period'', Some ''0''),
     (''config-file'', Some ''./weavegate.toml''), (''log-remote-address'', Some ''false''),
     (''log-x-real-ip'', Some ''false''), (''log-forwarded-for'', Some ''false''), (''trusted-proxies'', None),
     (''redirect-trailing-slash'', Some ''true''), (''ignore-hidden-files'', Some ''true''),
     (''disable-symlinks'', Some ''true''), (''accept-markdown'', Some ''false''),
     (''text-charset'', Some ''true''), (''health'', Some ''false''), (''metrics'', Some ''false''),
     (''maintenance-mode'', Some ''false''), (''maintenance-mode-status'', Some ''503''),
     (''maintenance-mode-file'', Some []), (''version'', Some ''false'')]"
  by (simp add: ARGS_simps)

lemma arg_names_distinct: "distinct (map fst ARGS)"
  by (simp add: ARGS_simps)

lemma map_of_all:
  "distinct (map fst xs) \<Longrightarrow>
   list_all (\<lambda>(n, d). Option.bind (map_of xs n) f = d) (map (map_prod id f) xs)"
  by (auto simp: list_all_iff)

text \<open>The default of every option, one conjunct for each row of the table.\<close>

lemmas arg_defaults =
  map_of_all [OF arg_names_distinct, of as_default, unfolded arg_table list.pred_inject prod.case]

lemma arg_names: "map_of ARGS n = None \<longleftrightarrow> n \<notin> set (map fst (map (map_prod id as_default) ARGS))"
  by (simp add: map_of_eq_None_iff)

text \<open>HTTP/2 on the command line (or in the environment) is accepted only with a certificate and a key, and
  turns the security headers on unless they are given.\<close>

theorem http2_needs_certificate:
  assumes "general_parse X A E cmds = Inr g" "g_http2 g"
  shows "g_http2_tls_cert g = explicit A E ''http2-tls-cert'' \<and> g_http2_tls_cert g \<noteq> None \<and>
    g_http2_tls_key g = explicit A E ''http2-tls-key'' \<and> g_http2_tls_key g \<noteq> None \<and>
    (explicit A E ''security-headers'' = None \<longrightarrow> g_security_headers g)"
proof -
  note f = general_parse_fields [OF assms(1)]
  have d: "Option.bind (map_of ARGS ''http2'') as_default = Some ''false''"
    "Option.bind (map_of ARGS ''http2-tls-cert'') as_default = None"
    "Option.bind (map_of ARGS ''http2-tls-key'') as_default = None"
    by (simp_all only: arg_defaults)
  from f have one2: "one A E ''http2'' parse_bool = Inr True" using assms(2) by simp
  then have h: "explicit A E ''http2'' = Some ''true''"
    using d(1) by (auto dest!: one_Inr simp: arg_value_def parse_bool_def split: option.splits if_splits)
  from f have "list_all (\<lambda>(a, b, v). explicit A E b \<noteq> Some v \<or> explicit A E a \<noteq> None) REQUIRED_IF"
    by (simp add: constraints_hold_def)
  then have c: "explicit A E ''http2-tls-cert'' \<noteq> None" "explicit A E ''http2-tls-key'' \<noteq> None"
    using h by (simp_all add: REQUIRED_IF_def)
  have optc: "v = explicit A E n" if "opt A E n value_parser_pathbuf = Inr v" "explicit A E n \<noteq> None" for n v
    using opt_Inr [OF that(1)] that(2) by (auto simp: arg_value_def value_parser_pathbuf_def)
  from f have "opt A E ''http2-tls-cert'' value_parser_pathbuf = Inr (g_http2_tls_cert g)"
    "opt A E ''http2-tls-key'' value_parser_pathbuf = Inr (g_http2_tls_key g)" by simp_all
  then have "g_http2_tls_cert g = explicit A E ''http2-tls-cert''" "g_http2_tls_key g = explicit A E ''http2-tls-key''"
    using optc c by simp_all
  moreover have "g_security_headers g" if "explicit A E ''security-headers'' = None"
  proof -
    from f have "one A E ''security-headers'' parse_bool = Inr (g_security_headers g)" by simp
    with that h show ?thesis by (simp add: one_def arg_value_def parse_bool_def)
  qed
  moreover note c
  ultimately show ?thesis by auto
qed

lemma arg_value_default:
  "A name = None \<Longrightarrow> name \<noteq> ''security-headers'' \<Longrightarrow>
   arg_value A (\<lambda>_. None) name = Option.bind (map_of ARGS name) as_default"
  by (auto simp: arg_value_def explicit_def split: option.split)

lemma numeral_values:
  "parse_number b ''80'' = (if 80 \<le> b then Inr 80 else Inl ''invalid value'')"
  "parse_number b ''1'' = (if 1 \<le> b then Inr 1 else Inl ''invalid value'')"
  "parse_number b ''512'' = (if 512 \<le> b then Inr 512 else Inl ''invalid value'')"
  "parse_number b ''6'' = (if 6 \<le> b then Inr 6 else Inl ''invalid value'')"
  "parse_number b ''0'' = Inr 0"
  "parse_number b ''503'' = (if 503 \<le> b then Inr 503 else Inl ''invalid value'')"
  by (simp_all add: parse_number_def parse_uint_def Let_def is_digit_def)

lemma usize_bounds: "1 \<le> usize_max" "512 \<le> usize_max"
  by (simp_all add: usize_max_def)

lemma default_parsers:
  "parse_compression_level ''default'' = Inr CL_Default" "parse_list_format ''html'' = Inr DirList_Html"
  "parse_bool ''true'' = Inr True" "parse_bool ''false'' = Inr False"
  by code_simp+

lemma default_parse:
  "general_parse X (\<lambda>_. None) (\<lambda>_. None) None = Inr general_default"
proof -
  have e: "explicit (\<lambda>_. None) (\<lambda>_. None) name = None" for name
    by (simp add: explicit_def split: option.split)
  then have v: "arg_value (\<lambda>_. None) (\<lambda>_. None) name = Option.bind (map_of ARGS name) as_default" for name
    by (simp add: arg_value_def)
  have c: "constraints_hold (\<lambda>_. None) (\<lambda>_. None)"
    by (simp add: constraints_hold_def e value_missing_def CONFLICTS_def REQUIRED_IF_def REQUIRES_IF_def list_all_iff)
  show ?thesis
    by (simp add: general_parse_def c one_def opt_def many_def v arg_defaults numeral_values usize_bounds
        default_parsers value_parser_pathbuf_def value_parser_status_code_def status_from_u16_def general_default_def
        del: One_nat_def)
qed

text \<open>The declared defaults: with no option given and no variable set, the command line is accepted and
  parses to the record of the defaults.\<close>

theorem command_line_defaults:
  "general_parse X (\<lambda>_. None) (\<lambda>_. None) None = Inr general_default"
  by (rule default_parse)

definition demo_given :: given where
  "demo_given n =
     (if n = ''http2'' then Some (Some ''true'') else if n = ''http2-tls-cert'' then Some (Some ''c.pem'')
      else if n = ''http2-tls-key'' then Some (Some ''k.pem'') else None)"

lemma demo_explicit:
  "explicit demo_given (\<lambda>_. None) n =
     (if n = ''http2'' then Some ''true'' else if n = ''http2-tls-cert'' then Some ''c.pem''
      else if n = ''http2-tls-key'' then Some ''k.pem'' else None)"
proof -
  have "map_of ARGS ''http2'' \<noteq> None" "map_of ARGS ''http2-tls-cert'' \<noteq> None" "map_of ARGS ''http2-tls-key'' \<noteq> None"
    by (simp_all add: arg_names arg_table del: map_map)
  then show ?thesis by (auto simp: explicit_def demo_given_def split: option.split)
qed

lemma demo_general:
  "general_parse X demo_given (\<lambda>_. None) None =
     Inr (general_default\<lparr>g_http2 := True, g_http2_tls_cert := Some ''c.pem'', g_http2_tls_key := Some ''k.pem'',
       g_security_headers := True\<rparr>)"
proof -
  have v: "arg_value demo_given (\<lambda>_. None) n =
      (if n = ''http2'' then Some ''true'' else if n = ''http2-tls-cert'' then Some ''c.pem''
       else if n = ''http2-tls-key'' then Some ''k.pem'' else if n = ''security-headers'' then Some ''true''
       else Option.bind (map_of ARGS n) as_default)" for n
    by (simp add: arg_value_def demo_explicit)
  have "demo_given n \<noteq> Some None" for n by (simp add: demo_given_def)
  then have c: "constraints_hold demo_given (\<lambda>_. None)"
    by (simp add: constraints_hold_def demo_explicit value_missing_def CONFLICTS_def REQUIRED_IF_def REQUIRES_IF_def
        list_all_iff)
  show ?thesis
    by (simp add: general_parse_def c one_def opt_def many_def v arg_defaults numeral_values usize_bounds
        default_parsers value_parser_pathbuf_def value_parser_status_code_def status_from_u16_def general_default_def
        del: One_nat_def)
qed

theorem command_line_well_formed_witness:
  "\<exists>g. general_parse demo_ext demo_given (\<lambda>_. None) None = Inr g \<and> g_port g < 65536"
  using command_line_well_formed [OF demo_general] demo_general by (auto simp: general_wf_def)

theorem http2_needs_certificate_witness:
  "\<exists>g. general_parse demo_ext demo_given (\<lambda>_. None) None = Inr g \<and> g_security_headers g \<and>
     g_http2_tls_cert g = explicit demo_given (\<lambda>_. None) ''http2-tls-cert''"
proof -
  have h: "g_http2 (general_default\<lparr>g_http2 := True, g_http2_tls_cert := Some ''c.pem'',
      g_http2_tls_key := Some ''k.pem'', g_security_headers := True\<rparr>)" by simp
  from http2_needs_certificate [OF demo_general h] show ?thesis
    by (intro exI [of _ "general_default\<lparr>g_http2 := True, g_http2_tls_cert := Some ''c.pem'',
      g_http2_tls_key := Some ''k.pem'', g_security_headers := True\<rparr>"]) (simp add: demo_general)
qed

end
