(* ===== verification/Settings.thy ===== *)
theory Settings
  imports Cli Pages
begin

text \<open>
  The settings (\<open>src/settings/mod.rs\<close>, \<open>src/settings/file.rs\<close>): the configuration file as a
  record of optional values, which file is used, how its general part is merged over the command line,
  and how its advanced part is compiled. The TOML parser with its \<open>serde\<close> layer, the regular
  expression that \<open>globset\<close> gives for a glob, the home directory, the parser of log levels and
  the subscriber are parameters. Also the logger (\<open>src/logger.rs\<close>).
\<close>

section \<open>The configuration file\<close>

datatype log_level_value = LL_Error | LL_Warn | LL_Info | LL_Debug | LL_Trace

fun log_level_name :: "log_level_value \<Rightarrow> string" where
  "log_level_name LL_Error = ''error''"
| "log_level_name LL_Warn = ''warn''"
| "log_level_name LL_Info = ''info''"
| "log_level_name LL_Debug = ''debug''"
| "log_level_name LL_Trace = ''trace''"

record file_redirect =
  fr_host :: "string option"
  fr_source :: string
  fr_destination :: string
  fr_kind :: redirects_kind

record file_virtual_host =
  fv_host :: string
  fv_root :: "path option"

record file_proxy_tls =
  ft_ca_file :: "path option"
  ft_ca_files :: "path list option"
  ft_disable_webpki_roots :: "bool option"

record file_advanced =
  fa_headers :: "headers_rule list option"
  fa_rewrites :: "rewrite_rule list option"
  fa_redirects :: "file_redirect list option"
  fa_virtual_hosts :: "file_virtual_host list option"
  fa_proxies :: "proxy_def list option"
  fa_routes_bootstrap :: "routes_bootstrap option"
  fa_proxy_tls :: "file_proxy_tls option"
  fa_proxy_pool_max_idle_per_host :: "nat option"
  fa_proxy_pool_idle_timeout_secs :: "nat option"
  fa_proxy_first :: "bool option"
  fa_max_upgrade_tunnels :: "nat option"
  fa_memory_cache :: "memory_cache_settings option"

record file_general =
  fg_host :: "string option"
  fg_port :: "nat option"
  fg_root :: "path option"
  fg_log_level :: "log_level_value option"
  fg_log_with_ansi :: "bool option"
  fg_cache_control_headers :: "bool option"
  fg_compression :: "bool option"
  fg_compression_level :: "compression_level option"
  fg_compression_static :: "bool option"
  fg_page404 :: "path option"
  fg_page50x :: "path option"
  fg_http2 :: "bool option"
  fg_http2_tls_cert :: "path option"
  fg_http2_tls_key :: "path option"
  fg_https_redirect :: "bool option"
  fg_https_redirect_host :: "string option"
  fg_https_redirect_from_port :: "nat option"
  fg_https_redirect_from_hosts :: "string option"
  fg_security_headers :: "bool option"
  fg_cors_allow_origins :: "string option"
  fg_cors_allow_headers :: "string option"
  fg_cors_expose_headers :: "string option"
  fg_index_files :: "string option"
  fg_directory_listing :: "bool option"
  fg_directory_listing_order :: "nat option"
  fg_directory_listing_format :: "dir_list_fmt option"
  fg_directory_listing_download :: "dir_download_fmt list option"
  fg_basic_auth :: "string option"
  fg_fd :: "nat option"
  fg_threads_multiplier :: "nat option"
  fg_max_blocking_threads :: "nat option"
  fg_grace_period :: "nat option"
  fg_page_fallback :: "path option"
  fg_log_remote_address :: "bool option"
  fg_log_x_real_ip :: "bool option"
  fg_log_forwarded_for :: "bool option"
  fg_trusted_proxies :: "string list option"
  fg_redirect_trailing_slash :: "bool option"
  fg_ignore_hidden_files :: "bool option"
  fg_disable_symlinks :: "bool option"
  fg_health :: "bool option"
  fg_accept_markdown :: "bool option"
  fg_text_charset :: "bool option"
  fg_metrics :: "bool option"
  fg_maintenance_mode :: "bool option"
  fg_maintenance_mode_status :: "nat option"
  fg_maintenance_mode_file :: "path option"
  fg_memory_cache :: "bool option"

record file_settings =
  fs_general :: "file_general option"
  fs_advanced :: "file_advanced option"

record settings_env =
  st_parse_toml :: "string \<Rightarrow> file_settings option"
    \<comment> \<open>\<open>toml::from_str\<close> and the deserialisation\<close>
  st_home :: "string option"
  st_glob_regex :: "string \<Rightarrow> string option"
    \<comment> \<open>the regular expression of a glob with \<open>literal_separator(true)\<close>\<close>
  st_parse_level :: "string \<Rightarrow> bool"
    \<comment> \<open>\<open>tracing::Level::from_str\<close> accepts it\<close>
  st_try_init :: "string \<Rightarrow> bool \<Rightarrow> unit res"
    \<comment> \<open>the subscriber's \<open>try_init\<close>, for a level with or without colours\<close>

section \<open>Unknown keys\<close>

text \<open>Where the deserialisation ignored a value, and the dotted name that the warning prints.\<close>

datatype ignored_path =
  Ig_Root | Ig_Seq ignored_path nat | Ig_Map ignored_path string | Ig_Some ignored_path
| Ig_Newtype_Variant ignored_path | Ig_Newtype_Struct ignored_path

fun stringify :: "string \<Rightarrow> ignored_path \<Rightarrow> string" where
  "stringify dst Ig_Root = dst"
| "stringify dst (Ig_Seq parent index) =
     (let d = stringify dst parent in (if d = [] then d else d @ ''.'') @ show_nat index)"
| "stringify dst (Ig_Map parent key) =
     (let d = stringify dst parent in (if d = [] then d else d @ ''.'') @ key)"
| "stringify dst (Ig_Some parent) = stringify dst parent"
| "stringify dst (Ig_Newtype_Variant parent) = stringify dst parent"
| "stringify dst (Ig_Newtype_Struct parent) = stringify dst parent"

fun ignored_names :: "ignored_path \<Rightarrow> string list" where
  "ignored_names Ig_Root = []"
| "ignored_names (Ig_Seq parent index) = ignored_names parent @ [show_nat index]"
| "ignored_names (Ig_Map parent key) = ignored_names parent @ [key]"
| "ignored_names (Ig_Some parent) = ignored_names parent"
| "ignored_names (Ig_Newtype_Variant parent) = ignored_names parent"
| "ignored_names (Ig_Newtype_Struct parent) = ignored_names parent"

section \<open>Reading the file\<close>

definition read_toml_file :: "settings_env \<Rightarrow> fs \<Rightarrow> path \<Rightarrow> file_settings res" where
  "read_toml_file S F p =
     res_bind (read_file F p) (\<lambda>text.
       case st_parse_toml S text of
         Some t \<Rightarrow> Inr t
       | None \<Rightarrow> Inl ''could not parse input as TOML'')"

definition file_settings_read :: "settings_env \<Rightarrow> fs \<Rightarrow> path \<Rightarrow> file_settings res" where
  "file_settings_read S F config_file =
     (if path_extension config_file \<noteq> Some ''toml''
      then Inl ''configuration file should be in toml format. E.g `weavegate.toml`''
      else read_toml_file S F config_file)"

definition read_file_settings :: "settings_env \<Rightarrow> fs \<Rightarrow> path \<Rightarrow> (file_settings \<times> path) option res" where
  "read_file_settings S F config_file =
     (if fs_is_file F config_file
      then (case fs_canonicalize F config_file of
              Inl _ \<Rightarrow> Inl ''unable to resolve toml config file path''
            | Inr resolved \<Rightarrow>
                res_bind (file_settings_read S F resolved) (\<lambda>settings. Inr (Some (settings, resolved))))
      else Inr None)"

definition to_use_config_file :: "fs \<Rightarrow> general \<Rightarrow> path" where
  "to_use_config_file F opts =
     (if fs_is_file F ''./weavegate.toml'' then ''./weavegate.toml''
      else if fs_is_file F ''./sws.toml'' then ''./sws.toml''
      else if fs_is_file F ''./edgegate.toml'' then ''./edgegate.toml''
      else if fs_is_file F ''./config.toml'' then ''./config.toml''
      else g_config_file opts)"

section \<open>The general part\<close>

text \<open>What the file says wins; the security headers are on with HTTP/2 unless the file says otherwise.\<close>

definition merge_general :: "general \<Rightarrow> file_general \<Rightarrow> path \<Rightarrow> general res" where
  "merge_general g f config_file =
     res_bind (case fg_maintenance_mode_status f of
                 Some v \<Rightarrow> status_from_u16 v | None \<Rightarrow> Inr (g_maintenance_mode_status g)) (\<lambda>status.
       Inr \<lparr>g_host = or_default (fg_host f) (g_host g), g_port = or_default (fg_port f) (g_port g),
       g_fd = (case fg_fd f of Some v \<Rightarrow> Some v | None \<Rightarrow> g_fd g),
       g_threads_multiplier = or_default (fg_threads_multiplier f) (g_threads_multiplier g),
       g_max_blocking_threads = or_default (fg_max_blocking_threads f) (g_max_blocking_threads g),
       g_root = or_default (fg_root f) (g_root g), g_page50x = or_default (fg_page50x f) (g_page50x g),
       g_page404 = or_default (fg_page404 f) (g_page404 g),
       g_page_fallback = or_default (fg_page_fallback f) (g_page_fallback g),
       g_log_level = (case fg_log_level f of Some l \<Rightarrow> to_ascii_lowercase (log_level_name l) | None \<Rightarrow> g_log_level g),
       g_log_with_ansi = or_default (fg_log_with_ansi f) (g_log_with_ansi g),
       g_cors_allow_origins = or_default (fg_cors_allow_origins f) (g_cors_allow_origins g),
       g_cors_allow_headers = or_default (fg_cors_allow_headers f) (g_cors_allow_headers g),
       g_cors_expose_headers = or_default (fg_cors_expose_headers f) (g_cors_expose_headers g),
       g_http2 = or_default (fg_http2 f) (g_http2 g),
       g_http2_tls_cert = (case fg_http2_tls_cert f of Some v \<Rightarrow> Some v | None \<Rightarrow> g_http2_tls_cert g),
       g_http2_tls_key = (case fg_http2_tls_key f of Some v \<Rightarrow> Some v | None \<Rightarrow> g_http2_tls_key g),
       g_https_redirect = or_default (fg_https_redirect f) (g_https_redirect g),
       g_https_redirect_host = or_default (fg_https_redirect_host f) (g_https_redirect_host g),
       g_https_redirect_from_port = or_default (fg_https_redirect_from_port f) (g_https_redirect_from_port g),
       g_https_redirect_from_hosts = or_default (fg_https_redirect_from_hosts f) (g_https_redirect_from_hosts g),
       g_index_files = or_default (fg_index_files f) (g_index_files g),
       g_compression = or_default (fg_compression f) (g_compression g),
       g_compression_level = or_default (fg_compression_level f) (g_compression_level g),
       g_compression_static = or_default (fg_compression_static f) (g_compression_static g),
       g_directory_listing = or_default (fg_directory_listing f) (g_directory_listing g),
       g_directory_listing_order = or_default (fg_directory_listing_order f) (g_directory_listing_order g),
       g_directory_listing_format = or_default (fg_directory_listing_format f) (g_directory_listing_format g),
       g_directory_listing_download = or_default (fg_directory_listing_download f) (g_directory_listing_download g),
       g_security_headers = (case fg_security_headers f of Some v \<Rightarrow> v | None \<Rightarrow> if or_default (fg_http2 f) (g_http2 g) then True else g_security_headers g),
       g_cache_control_headers = or_default (fg_cache_control_headers f) (g_cache_control_headers g),
       g_basic_auth = or_default (fg_basic_auth f) (g_basic_auth g),
       g_grace_period = or_default (fg_grace_period f) (g_grace_period g), g_config_file = config_file,
       g_log_remote_address = or_default (fg_log_remote_address f) (g_log_remote_address g),
       g_log_x_real_ip = or_default (fg_log_x_real_ip f) (g_log_x_real_ip g),
       g_log_forwarded_for = or_default (fg_log_forwarded_for f) (g_log_forwarded_for g),
       g_trusted_proxies = or_default (fg_trusted_proxies f) (g_trusted_proxies g),
       g_redirect_trailing_slash = or_default (fg_redirect_trailing_slash f) (g_redirect_trailing_slash g),
       g_ignore_hidden_files = or_default (fg_ignore_hidden_files f) (g_ignore_hidden_files g),
       g_disable_symlinks = or_default (fg_disable_symlinks f) (g_disable_symlinks g),
       g_accept_markdown = or_default (fg_accept_markdown f) (g_accept_markdown g),
       g_text_charset = or_default (fg_text_charset f) (g_text_charset g),
       g_health = or_default (fg_health f) (g_health g), g_metrics = or_default (fg_metrics f) (g_metrics g),
       g_maintenance_mode = or_default (fg_maintenance_mode f) (g_maintenance_mode g),
       g_maintenance_mode_status = status,
       g_maintenance_mode_file = or_default (fg_maintenance_mode_file f) (g_maintenance_mode_file g),
       g_commands = g_commands g, g_version = g_version g\<rparr>)"

section \<open>The advanced part\<close>

definition expand_tls_path :: "settings_env \<Rightarrow> path \<Rightarrow> path res" where
  "expand_tls_path S p =
     (let s = utf8_lossy p
      in case strip_prefix ''~/'' s of
           Some rest \<Rightarrow>
             (case st_home S of
                Some home \<Rightarrow> Inr (path_push home rest)
              | None \<Rightarrow> Inl ''proxy-tls: cannot expand '~/' (HOME not set)'')
         | None \<Rightarrow>
             if s = ''~'' then (case st_home S of
                Some home \<Rightarrow> Inr home
              | None \<Rightarrow> Inl ''proxy-tls: cannot expand '~' (HOME not set)'')
             else Inr p)"

definition proxy_tls_from_file :: "settings_env \<Rightarrow> fs \<Rightarrow> file_proxy_tls \<Rightarrow> proxy_tls_settings res" where
  "proxy_tls_from_file S F tls =
     res_bind (collect_res (expand_tls_path S)
                ((case ft_ca_file tls of Some p \<Rightarrow> [p] | None \<Rightarrow> []) @
                 (case ft_ca_files tls of Some ps \<Rightarrow> ps | None \<Rightarrow> []))) (\<lambda>ca_files.
       let use_webpki_roots = (\<not> or_default (ft_disable_webpki_roots tls) False)
       in if \<not> use_webpki_roots \<and> ca_files = []
          then Inl ''proxy-tls: disable-webpki-roots requires ca-file or ca-files (e.g. mkcert rootCA.pem)''
          else if list_ex (\<lambda>p. \<not> fs_is_file F p) ca_files
          then Inl ''proxy-tls: CA file not found or not a regular file''
          else Inr \<lparr>pt_ca_files = ca_files, pt_use_webpki_roots = use_webpki_roots\<rparr>)"

text \<open>\<open>str::trim_start_matches\<close> with a string: the pattern is taken off as often as it is there.\<close>

function strip_repeated :: "string \<Rightarrow> string \<Rightarrow> string" where
  "strip_repeated p s = (if p \<noteq> [] \<and> prefix p s then strip_repeated p (drop (length p) s) else s)"
  by pat_completeness auto
termination
  by (relation "measure (\<lambda>(p, s). length s)") (auto simp: prefix_def)

declare strip_repeated.simps [simp del]

definition source_pattern :: "string \<Rightarrow> string" where
  "source_pattern regex =
     str_replace ''.*.*'' ''.*'' (str_replace ''?:'' [] (str_replace ''?:.*'' ''.*'' (strip_repeated ''(?-u)'' regex)))"

definition compile_source :: "ext \<Rightarrow> settings_env \<Rightarrow> string \<Rightarrow> string res" where
  "compile_source X S source =
     (case st_glob_regex S source of
        None \<Rightarrow> Inl (''can not compile glob pattern for source: '' @ source)
      | Some regex \<Rightarrow>
          (let pattern = source_pattern regex
           in if x_regex_valid X pattern then Inr pattern
              else Inl (''can not compile regex pattern equivalent for source: '' @ pattern)))"

definition compile_header :: "ext \<Rightarrow> headers_rule \<Rightarrow> headers_rule res" where
  "compile_header X e =
     (if x_glob_valid X (hr_source e) then Inr e
      else Inl (''can not compile glob pattern for header source: '' @ hr_source e))"

definition compile_rewrite :: "ext \<Rightarrow> settings_env \<Rightarrow> rewrite_rule \<Rightarrow> rewrite_rule res" where
  "compile_rewrite X S e =
     res_bind (compile_source X S (rw_source e)) (\<lambda>source. Inr (e\<lparr>rw_source := source\<rparr>))"

definition compile_redirect :: "ext \<Rightarrow> settings_env \<Rightarrow> file_redirect \<Rightarrow> redirect_rule res" where
  "compile_redirect X S e =
     res_bind (compile_source X S (fr_source e)) (\<lambda>source.
     res_bind (status_from_u16 (redirects_kind_code (fr_kind e))) (\<lambda>kind.
       Inr \<lparr>rd_host = fr_host e, rd_source = source, rd_destination = fr_destination e, rd_kind = kind\<rparr>))"

text \<open>Virtual hosts without a root are left out.\<close>

fun compile_virtual_hosts :: "fs \<Rightarrow> file_virtual_host list \<Rightarrow> virtual_host list res" where
  "compile_virtual_hosts F [] = Inr []"
| "compile_virtual_hosts F (e # es) =
     (case fv_root e of
        None \<Rightarrow> compile_virtual_hosts F es
      | Some root \<Rightarrow>
          res_bind (get_valid_dirpath F root) (\<lambda>root_dir.
          res_bind (compile_virtual_hosts F es) (\<lambda>vs. Inr (\<lparr>vh_host = fv_host e, vh_root = root_dir\<rparr> # vs))))"

definition compile_list :: "('a list \<Rightarrow> 'b list res) \<Rightarrow> 'a list option \<Rightarrow> 'b list option res" where
  "compile_list f entries =
     (case entries of None \<Rightarrow> Inr None | Some es \<Rightarrow> res_bind (f es) (\<lambda>rs. Inr (Some rs)))"

definition compile_advanced :: "ext \<Rightarrow> settings_env \<Rightarrow> fs \<Rightarrow> file_advanced \<Rightarrow> advanced res" where
  "compile_advanced X S F a =
     res_bind (compile_list (collect_res (compile_header X)) (fa_headers a)) (\<lambda>headers_entries.
     res_bind (compile_list (collect_res (compile_rewrite X S)) (fa_rewrites a)) (\<lambda>rewrites_entries.
     res_bind (compile_list (collect_res (compile_redirect X S)) (fa_redirects a)) (\<lambda>redirects_entries.
     res_bind (case fa_proxy_tls a of Some tls \<Rightarrow> proxy_tls_from_file S F tls
                | None \<Rightarrow> Inr proxy_tls_settings_default) (\<lambda>proxy_tls.
     (let settings =
            \<lparr>ps_pool_max_idle_per_host = or_default (fa_proxy_pool_max_idle_per_host a) 32,
             ps_pool_idle_timeout_secs = or_default (fa_proxy_pool_idle_timeout_secs a) 90,
             ps_proxy_first = or_default (fa_proxy_first a) False,
             ps_max_upgrade_tunnels =
               Option.bind (fa_max_upgrade_tunnels a) (\<lambda>n. if n = 0 then None else Some n),
             ps_tls = proxy_tls\<rparr>
      in res_bind (compile_list (compile_virtual_hosts F) (fa_virtual_hosts a)) (\<lambda>vhosts_entries.
           Inr \<lparr>ad_headers = headers_entries, ad_rewrites = rewrites_entries, ad_redirects = redirects_entries,
                ad_virtual_hosts = vhosts_entries, ad_proxies = None, ad_proxy_defs = fa_proxies a,
                ad_routes_bootstrap = fa_routes_bootstrap a, ad_proxy_settings = settings,
                ad_memory_cache = fa_memory_cache a\<rparr>))))))"

section \<open>All together\<close>

record settings =
  se_general :: general
  se_advanced :: "advanced option"

definition configure_logger :: "settings_env \<Rightarrow> string \<Rightarrow> bool \<Rightarrow> unit res" where
  "configure_logger S level enable_ansi =
     (if \<not> st_parse_level S level then Inl ''failed to parse log level''
      else st_try_init S level enable_ansi)"

definition logger_init :: "ext \<Rightarrow> settings_env \<Rightarrow> string \<Rightarrow> bool \<Rightarrow> unit res" where
  "logger_init X S log_level log_with_ansi =
     (case configure_logger S (x_unicode_lower X log_level) log_with_ansi of
        Inl e \<Rightarrow> Inl (''failed to initialize logging'' @ e)
      | Inr _ \<Rightarrow> Inr ())"

definition init_logger :: "ext \<Rightarrow> settings_env \<Rightarrow> bool \<Rightarrow> general \<Rightarrow> unit res" where
  "init_logger X S log_init g =
     (if log_init then logger_init X S (g_log_level g) (g_log_with_ansi g) else Inr ())"

definition settings_from :: "ext \<Rightarrow> settings_env \<Rightarrow> fs \<Rightarrow> bool \<Rightarrow> general \<Rightarrow> settings res" where
  "settings_from X S F log_init opts =
     res_bind (read_file_settings S F (to_use_config_file F opts)) (\<lambda>found.
       case found of
         None \<Rightarrow>
           res_bind (init_logger X S log_init opts) (\<lambda>_. Inr \<lparr>se_general = opts, se_advanced = None\<rparr>)
       | Some (file, resolved) \<Rightarrow>
           res_bind (case fs_general file of
                       Some f \<Rightarrow> merge_general opts f resolved
                     | None \<Rightarrow> Inr (opts\<lparr>g_config_file := resolved\<rparr>)) (\<lambda>general.
           res_bind (init_logger X S log_init general) (\<lambda>_.
           res_bind (case fs_advanced file of
                       Some a \<Rightarrow> res_bind (compile_advanced X S F a) (\<lambda>adv. Inr (Some adv))
                     | None \<Rightarrow> Inr None) (\<lambda>adv.
             Inr \<lparr>se_general = general, se_advanced = adv\<rparr>))))"

text \<open>\<open>Settings::get\<close> and \<open>get_unparsed\<close>: the command line first.\<close>

definition parse_from ::
  "ext \<Rightarrow> settings_env \<Rightarrow> fs \<Rightarrow> bool \<Rightarrow> given \<Rightarrow> environment \<Rightarrow> commands option \<Rightarrow> settings res" where
  "parse_from X S F log_init A E cmds =
     res_bind (general_parse X A E cmds) (settings_from X S F log_init)"

section \<open>Lemmas\<close>

text \<open>The numeric types of the file's fields, which the deserialisation enforces.\<close>

definition file_general_typed :: "file_general \<Rightarrow> bool" where
  "file_general_typed f =
     (pred_option (\<lambda>n. n < 65536) (fg_port f) \<and> pred_option (\<lambda>n. n < 65536) (fg_https_redirect_from_port f) \<and>
      pred_option (\<lambda>n. n < 256) (fg_grace_period f) \<and> pred_option (\<lambda>n. n < 256) (fg_directory_listing_order f))"

definition toml_typed :: "settings_env \<Rightarrow> bool" where
  "toml_typed S =
     (\<forall>text t. st_parse_toml S text = Some t \<longrightarrow> pred_option file_general_typed (fs_general t))"

lemma join_snoc: "join sep (ps @ [q]) = (if ps = [] then q else join sep ps @ sep @ q)"
  by (induction sep ps rule: join.induct) auto

lemma join_eq_Nil: "\<forall>p \<in> set ps. p \<noteq> [] \<Longrightarrow> (join sep ps = []) = (ps = [])"
  by (induction sep ps rule: join.induct) auto

lemma stringify_join:
  "\<forall>n \<in> set (ignored_names p). n \<noteq> [] \<Longrightarrow> stringify [] p = join ''.'' (ignored_names p)"
  by (induction p) (auto simp: join_snoc join_eq_Nil Let_def)

text \<open>The warning about an unknown key can be read back: its parts between the dots are the names on the
  way to the key, when no name is empty or has a dot itself.\<close>

theorem unknown_key_readable:
  assumes "\<forall>n \<in> set (ignored_names p). n \<noteq> [] \<and> CHR ''.'' \<notin> set n" "ignored_names p \<noteq> []"
  shows "split_on (CHR ''.'') (stringify [] p) = ignored_names p"
  using assms split_on_join [of "ignored_names p" "CHR ''.''"] by (simp add: stringify_join)

theorem unknown_key_readable_witness:
  "split_on (CHR ''.'') (stringify [] (Ig_Seq (Ig_Map (Ig_Some (Ig_Map Ig_Root ''advanced'')) ''proxies'') 2))
     = [''advanced'', ''proxies'', show_nat 2]"
proof -
  have "CHR ''.'' \<notin> set (show_nat 2)" using show_nat_digits [of "CHR ''.''" 2] by (auto simp: is_digit_def)
  then show ?thesis
    using unknown_key_readable [of "Ig_Seq (Ig_Map (Ig_Some (Ig_Map Ig_Root ''advanced'')) ''proxies'') 2"] by simp
qed

lemma or_default_typed: "pred_option P v \<Longrightarrow> P d \<Longrightarrow> P (or_default v d)"
  by (cases v) (simp_all add: or_default_def)

lemma status_from_u16_range: "status_from_u16 n = Inr s \<Longrightarrow> s = n \<and> 100 \<le> s \<and> s < 1000"
  by (simp add: status_from_u16_def split: if_splits)

lemma merge_general_wf:
  assumes "merge_general g f c = Inr g'" "general_wf g" "file_general_typed f"
  shows "general_wf g'"
proof -
  from assms(1) obtain s where
    s: "(case fg_maintenance_mode_status f of Some v \<Rightarrow> status_from_u16 v | None \<Rightarrow> Inr (g_maintenance_mode_status g)) = Inr s"
    and n: "g_maintenance_mode_status g' = s" "g_port g' = or_default (fg_port f) (g_port g)"
    "g_https_redirect_from_port g' = or_default (fg_https_redirect_from_port f) (g_https_redirect_from_port g)"
    "g_grace_period g' = or_default (fg_grace_period f) (g_grace_period g)"
    "g_directory_listing_order g' = or_default (fg_directory_listing_order f) (g_directory_listing_order g)"
    unfolding merge_general_def by (elim res_bindE) (auto simp only: sum.inject general.select_convs)
  have "100 \<le> s \<and> s < 1000"
    using s assms(2) by (auto simp: general_wf_def dest: status_from_u16_range split: option.splits)
  moreover have "g_port g' < 65536" "g_https_redirect_from_port g' < 65536" "g_grace_period g' < 256"
    "g_directory_listing_order g' < 256"
    unfolding n using assms(2,3)
    by (auto simp: general_wf_def file_general_typed_def intro: or_default_typed)
  ultimately show ?thesis unfolding general_wf_def n by simp
qed

text \<open>What a compiled advanced part promises.\<close>

definition advanced_wf :: "ext \<Rightarrow> fs \<Rightarrow> advanced \<Rightarrow> bool" where
  "advanced_wf X F a =
     (pred_option (list_all (\<lambda>e. x_glob_valid X (hr_source e))) (ad_headers a) \<and>
      pred_option (list_all (\<lambda>e. x_regex_valid X (rw_source e))) (ad_rewrites a) \<and>
      pred_option (list_all (\<lambda>e. x_regex_valid X (rd_source e) \<and> (rd_kind e = 301 \<or> rd_kind e = 302))) (ad_redirects a) \<and>
      pred_option (list_all (\<lambda>v. fs_is_dir F (vh_root v))) (ad_virtual_hosts a) \<and>
      ad_proxies a = None \<and> ps_max_upgrade_tunnels (ad_proxy_settings a) \<noteq> Some 0 \<and>
      list_all (fs_is_file F) (pt_ca_files (ps_tls (ad_proxy_settings a))))"

lemma compile_list_pred:
  assumes "compile_list f entries = Inr rs" "\<And>es r. f es = Inr r \<Longrightarrow> P r"
  shows "pred_option P rs"
  using assms by (auto simp: compile_list_def res_bind_Inr_iff split: option.splits)

lemma collect_res_all: "collect_res f xs = Inr ys \<Longrightarrow> (\<And>x y. f x = Inr y \<Longrightarrow> P y) \<Longrightarrow> list_all P ys"
  by (induction xs arbitrary: ys) (auto simp: res_bind_Inr_iff)

lemma compile_source_valid: "compile_source X S s = Inr p \<Longrightarrow> x_regex_valid X p"
  by (auto simp: compile_source_def Let_def split: option.splits if_splits)

lemma compile_virtual_hosts_dirs: "compile_virtual_hosts F es = Inr vs \<Longrightarrow> list_all (\<lambda>v. fs_is_dir F (vh_root v)) vs"
  by (induction es arbitrary: vs)
    (auto simp: res_bind_Inr_iff get_valid_dirpath_def split: option.splits if_splits)

lemma compile_virtual_hosts_hosts:
  "compile_virtual_hosts F es = Inr vs \<Longrightarrow>
   map vh_host vs = map fv_host (filter (\<lambda>e. fv_root e \<noteq> None) es)"
  by (induction es arbitrary: vs) (auto simp: res_bind_Inr_iff split: option.splits)

lemma proxy_tls_files: "proxy_tls_from_file S F tls = Inr t \<Longrightarrow> list_all (fs_is_file F) (pt_ca_files t)"
  by (auto simp: proxy_tls_from_file_def res_bind_Inr_iff Let_def list_ex_iff list_all_iff split: if_splits)

lemma compile_advanced_wf:
  assumes "compile_advanced X S F a = Inr adv"
  shows "advanced_wf X F adv"
proof -
  from assms obtain hs rws rds tls vhs where
    c: "compile_list (collect_res (compile_header X)) (fa_headers a) = Inr hs"
    "compile_list (collect_res (compile_rewrite X S)) (fa_rewrites a) = Inr rws"
    "compile_list (collect_res (compile_redirect X S)) (fa_redirects a) = Inr rds"
    "(case fa_proxy_tls a of Some tls \<Rightarrow> proxy_tls_from_file S F tls | None \<Rightarrow> Inr proxy_tls_settings_default) = Inr tls"
    "compile_list (compile_virtual_hosts F) (fa_virtual_hosts a) = Inr vhs"
    and f: "ad_headers adv = hs" "ad_rewrites adv = rws" "ad_redirects adv = rds" "ad_virtual_hosts adv = vhs"
    "ad_proxies adv = None" "ps_tls (ad_proxy_settings adv) = tls"
    "ps_max_upgrade_tunnels (ad_proxy_settings adv) =
       Option.bind (fa_max_upgrade_tunnels a) (\<lambda>n. if n = 0 then None else Some n)"
    unfolding compile_advanced_def Let_def
    by (elim res_bindE) (auto simp only: sum.inject advanced.select_convs proxy_settings.select_convs)
  have "pred_option (list_all (\<lambda>e. x_glob_valid X (hr_source e))) hs"
    by (rule compile_list_pred [OF c(1)], erule collect_res_all) (auto simp: compile_header_def split: if_splits)
  moreover have "pred_option (list_all (\<lambda>e. x_regex_valid X (rw_source e))) rws"
    by (rule compile_list_pred [OF c(2)], erule collect_res_all)
      (auto simp: compile_rewrite_def res_bind_Inr_iff dest: compile_source_valid)
  moreover have "pred_option (list_all (\<lambda>e. x_regex_valid X (rd_source e) \<and> (rd_kind e = 301 \<or> rd_kind e = 302))) rds"
  proof (rule compile_list_pred [OF c(3)], erule collect_res_all)
    fix e r assume "compile_redirect X S e = Inr r"
    then show "x_regex_valid X (rd_source r) \<and> (rd_kind r = 301 \<or> rd_kind r = 302)"
      by (cases "fr_kind e") (auto simp: compile_redirect_def res_bind_Inr_iff status_from_u16_def dest: compile_source_valid)
  qed
  moreover have "pred_option (list_all (\<lambda>v. fs_is_dir F (vh_root v))) vhs"
    by (rule compile_list_pred [OF c(5)]) (rule compile_virtual_hosts_dirs)
  moreover have "list_all (fs_is_file F) (pt_ca_files tls)"
    using c(4) by (auto simp: proxy_tls_settings_default_def dest: proxy_tls_files split: option.splits)
  ultimately show ?thesis
    unfolding advanced_wf_def f by (auto split: option.splits Option.bind_splits if_splits)
qed

lemma settings_from_advanced:
  assumes "settings_from X S F log_init g = Inr s" "se_advanced s = Some a"
  shows "advanced_wf X F a"
proof -
  from assms(1) obtain found where found: "read_file_settings S F (to_use_config_file F g) = Inr found"
    by (auto simp: settings_from_def res_bind_Inr_iff)
  show ?thesis
  proof (cases found)
    case None
    with assms found show ?thesis by (auto simp: settings_from_def res_bind_Inr_iff)
  next
    case (Some q)
    obtain t resolved where q: "q = (t, resolved)" by (cases q)
    with assms found Some show ?thesis
      by (auto simp: settings_from_def res_bind_Inr_iff split: option.splits dest: compile_advanced_wf)
  qed
qed

lemma read_file_settings_parsed:
  "read_file_settings S F p = Inr (Some (t, q)) \<Longrightarrow> \<exists>text. st_parse_toml S text = Some t"
  by (auto simp: read_file_settings_def file_settings_read_def read_toml_file_def res_bind_Inr_iff
      split: if_splits sum.splits option.splits)

section \<open>Properties\<close>

text \<open>C38. Settings are well formed or refused: from a command line and whatever file is found, accepted
  settings have numbers in their machine ranges and a valid maintenance status, and an advanced part in
  which every glob and every pattern compiles, redirects are 301 or 302, every virtual host has an
  existing directory, every CA file is a regular file, the tunnel limit is not zero, and no proxy rule
  is compiled yet. The hypothesis is that the deserialisation respects the integer types.\<close>

theorem settings_well_formed:
  assumes "parse_from X S F log_init A E cmds = Inr s" "toml_typed S"
  shows "general_wf (se_general s) \<and> (case se_advanced s of None \<Rightarrow> True | Some a \<Rightarrow> advanced_wf X F a)"
proof -
  from assms(1) obtain g where g: "general_parse X A E cmds = Inr g" "settings_from X S F log_init g = Inr s"
    by (auto simp: parse_from_def res_bind_Inr_iff)
  have w: "general_wf g" using g(1) by (rule parsed_general_wf)
  from g(2) obtain found where found: "read_file_settings S F (to_use_config_file F g) = Inr found"
    by (auto simp: settings_from_def res_bind_Inr_iff)
  show ?thesis
  proof (cases found)
    case None
    with g(2) found w show ?thesis by (auto simp: settings_from_def res_bind_Inr_iff)
  next
    case (Some q)
    obtain t resolved where q: "q = (t, resolved)" by (cases q)
    obtain content where "st_parse_toml S content = Some t"
      using read_file_settings_parsed found Some q by blast
    with assms(2) have typed: "pred_option file_general_typed (fs_general t)"
      by (auto simp: toml_typed_def)
    from g(2) found Some q obtain adv where
      m: "(case fs_general t of Some f \<Rightarrow> merge_general g f resolved
             | None \<Rightarrow> Inr (g\<lparr>g_config_file := resolved\<rparr>)) = Inr (se_general s)"
      and a: "(case fs_advanced t of Some a \<Rightarrow> res_bind (compile_advanced X S F a) (\<lambda>adv. Inr (Some adv))
                | None \<Rightarrow> Inr None) = Inr adv" "se_advanced s = adv"
      by (auto simp: settings_from_def res_bind_Inr_iff)
    have "general_wf (se_general s)"
    proof (cases "fs_general t")
      case None
      with m have "se_general s = g\<lparr>g_config_file := resolved\<rparr>" by simp
      with w show ?thesis by (simp add: general_wf_def)
    next
      case (Some f)
      with m w typed show ?thesis by (auto intro: merge_general_wf)
    qed
    moreover have "case se_advanced s of None \<Rightarrow> True | Some a \<Rightarrow> advanced_wf X F a"
      using a by (auto simp: res_bind_Inr_iff split: option.splits dest: compile_advanced_wf)
    ultimately show ?thesis by blast
  qed
qed

text \<open>C39. An explicit configuration file loses against the working directory: when one of the four known
  file names is there, \<open>config.toml\<close> included, the file given with \<open>--config-file\<close> has no influence
  on the settings, whatever it is.\<close>

theorem explicit_config_file_ignored:
  assumes "fs_is_file F ''./weavegate.toml'' \<or> fs_is_file F ''./sws.toml'' \<or>
    fs_is_file F ''./edgegate.toml'' \<or> fs_is_file F ''./config.toml''"
  shows "settings_from X S F log_init (g\<lparr>g_config_file := p\<rparr>) = settings_from X S F log_init g"
proof -
  let ?u = "to_use_config_file F g"
  have u: "to_use_config_file F (g\<lparr>g_config_file := p\<rparr>) = ?u" and f: "fs_is_file F ?u"
    using assms by (auto simp: to_use_config_file_def)
  from f have n: "read_file_settings S F ?u \<noteq> Inr None"
    by (auto simp: read_file_settings_def res_bind_Inr_iff split: sum.splits)
  have m: "merge_general (g\<lparr>g_config_file := p\<rparr>) f c = merge_general g f c" for f c
    by (simp add: merge_general_def cong: option.case_cong if_cong)
  show ?thesis
    using n by (cases "read_file_settings S F ?u") (auto simp: settings_from_def u m split: option.split)
qed

section \<open>Concrete settings\<close>

definition conf_fs :: fs where
  "conf_fs = \<lparr>fs_nodes = [([''config.toml''], demo_file\<lparr>nd_kind := Regular ''conf''\<rparr>)], fs_cwd = []\<rparr>"

definition conf_advanced :: file_advanced where
  "conf_advanced = \<lparr>fa_headers = None, fa_rewrites = None, fa_redirects = None, fa_virtual_hosts = Some
       [\<lparr>fv_host = ''a'', fv_root = None\<rparr>], fa_proxies = None, fa_routes_bootstrap = None, fa_proxy_tls = None,
     fa_proxy_pool_max_idle_per_host = None, fa_proxy_pool_idle_timeout_secs = None, fa_proxy_first = Some True,
     fa_max_upgrade_tunnels = Some 0, fa_memory_cache = None\<rparr>"

definition conf_env :: settings_env where
  "conf_env = \<lparr>st_parse_toml = (\<lambda>t. if t = ''conf'' then
       Some \<lparr>fs_general = None, fs_advanced = Some conf_advanced\<rparr> else None),
     st_home = None, st_glob_regex = (\<lambda>g. Some (''(?-u)'' @ g)), st_parse_level = (\<lambda>l. l \<in> {''error'', ''warn'', ''info'', ''debug'', ''trace''}),
     st_try_init = (\<lambda>_ _. Inr ())\<rparr>"

lemma conf_files:
  "fs_is_file conf_fs ''./config.toml''" "\<not> fs_is_file conf_fs ''./weavegate.toml''"
  "\<not> fs_is_file conf_fs ''./sws.toml''" "\<not> fs_is_file conf_fs ''./edgegate.toml''"
  "fs_canonicalize conf_fs ''./config.toml'' = Inr ''/config.toml''"
  "fs_read conf_fs ''/config.toml'' = Some ''conf''"
  by (simp_all add: fs_is_file_def fs_read_def fs_open_def fs_metadata_def walk_eval conf_fs_def demo_file_def abs_path_def
      is_regular_def nd_content_def)

lemma conf_found:
  "read_file_settings conf_env conf_fs (to_use_config_file conf_fs g) =
     Inr (Some (\<lparr>fs_general = None, fs_advanced = Some conf_advanced\<rparr>, ''/config.toml''))"
proof -
  have "path_extension ''/config.toml'' = Some ''toml''" by code_simp
  moreover have "read_file conf_fs ''/config.toml'' = Inr ''conf''"
    using valid_utf8_ascii [of "''conf''"] by (simp add: read_file_def read_bytes_def conf_files)
  ultimately show ?thesis
    by (simp add: to_use_config_file_def conf_files read_file_settings_def file_settings_read_def read_toml_file_def
        conf_env_def)
qed

lemma conf_logger: "g_log_level g = ''error'' \<Longrightarrow> init_logger demo_ext conf_env log_init g = Inr ()"
proof -
  have "to_ascii_lowercase ''error'' = ''error''" by code_simp
  then show "g_log_level g = ''error'' \<Longrightarrow> ?thesis"
    by (simp add: init_logger_def logger_init_def configure_logger_def demo_ext_def conf_env_def)
qed

theorem settings_well_formed_witness:
  "\<exists>s a. parse_from demo_ext conf_env conf_fs True (\<lambda>_. None) (\<lambda>_. None) None = Inr s \<and>
     se_advanced s = Some a \<and> ps_max_upgrade_tunnels (ad_proxy_settings a) = None \<and>
     general_wf (se_general s) \<and> advanced_wf demo_ext conf_fs a"
proof -
  have p: "general_parse demo_ext (\<lambda>_. None) (\<lambda>_. None) None = Inr general_default" by (rule default_parse)
  obtain s a where s: "parse_from demo_ext conf_env conf_fs True (\<lambda>_. None) (\<lambda>_. None) None = Inr s"
    "se_advanced s = Some a" "ps_max_upgrade_tunnels (ad_proxy_settings a) = None"
    by (simp add: parse_from_def p settings_from_def conf_found conf_logger general_default_def)
      (simp add: conf_env_def compile_advanced_def conf_advanced_def compile_list_def)
  have "toml_typed conf_env" by (simp add: toml_typed_def conf_env_def)
  from settings_well_formed [OF s(1) this] s show ?thesis by auto
qed

theorem explicit_config_file_ignored_witness:
  "settings_from demo_ext conf_env conf_fs False (general_default\<lparr>g_config_file := ''/etc/my.toml''\<rparr>) =
   settings_from demo_ext conf_env conf_fs False general_default"
  by (rule explicit_config_file_ignored) (simp add: conf_files)

end
