(* ===== verification/Tls.thy ===== *)
theory Tls
  imports Routing Streams
begin

text \<open>
  TLS (\<open>src/tls.rs\<close>) and the transports of a connection (\<open>src/transport.rs\<close>): the builder of the
  server configuration with its lazily opened files, and the stream that is either in its handshake
  or streaming. The PEM parser, the certificate check and the TLS implementation are parameters. A
  lazily opened file is an interpretation of \<open>byte_reader\<close>, so that what reading it to the end
  gives follows from the facts of the interface.
\<close>

section \<open>Errors\<close>

datatype tls_config_error =
    Tls_Io io_error
  | CertParseError
  | InvalidIdentityPem
  | EmptyKey
  | UnknownPrivateKeyFormat
  | InvalidKey string
  | IllegalSectionStart string
  | IllegalSectionEnd string

definition utf8_or_empty :: "string \<Rightarrow> string" where
  "utf8_or_empty s = (if valid_utf8 s then s else [])"

fun tls_error_display :: "tls_config_error \<Rightarrow> string" where
  "tls_error_display (Tls_Io e) = e"
| "tls_error_display CertParseError = ''failed to parse certificate''"
| "tls_error_display InvalidIdentityPem = ''the identity PEM provided is invalid''"
| "tls_error_display UnknownPrivateKeyFormat = ''the private key format is unknown''"
| "tls_error_display EmptyKey = ''the key provided is probably missing or empty''"
| "tls_error_display (InvalidKey e) = ''the key provided is invalid, '' @ e"
| "tls_error_display (IllegalSectionStart line) = ''illegal section start in PEM at '' @ [CHR 0x27] @ utf8_or_empty line @ [CHR 0x27]"
| "tls_error_display (IllegalSectionEnd end_marker) = ''illegal section end in PEM at '' @ [CHR 0x27] @ utf8_or_empty end_marker @ [CHR 0x27]"

section \<open>Lazily opened files\<close>

record lazy_file =
  lf_path :: path
  lf_file :: "raw_file option"

text \<open>An open file: its bytes, or the error that reading a directory or a broken file gives.\<close>

definition raw_open :: "fs \<Rightarrow> path \<Rightarrow> io_error + raw_file" where
  "raw_open F p =
     (case fs_open F p of
        Inl e \<Rightarrow> Inl ''open''
      | Inr nd \<Rightarrow>
          Inr (if is_regular nd then \<lparr>rf_data = nd_content nd, rf_err = nd_read_err nd\<rparr>
               else \<lparr>rf_data = [], rf_err = Some ''is a directory''\<rparr>))"

definition lazy_read :: "fs \<Rightarrow> nat \<Rightarrow> lazy_file \<Rightarrow> (io_error + string) \<times> lazy_file" where
  "lazy_read F n lf =
     (case (case lf_file lf of Some f \<Rightarrow> Inr f | None \<Rightarrow> raw_open F (lf_path lf)) of
        Inl e \<Rightarrow> (Inl e, lf)
      | Inr f \<Rightarrow> (let (res, f') = raw_read n f in (res, lf\<lparr>lf_file := Some f'\<rparr>)))"

text \<open>\<open>Read::read\<close>: the error names the file.\<close>

definition lazy_file_read :: "fs \<Rightarrow> nat \<Rightarrow> lazy_file \<Rightarrow> (io_error + string) \<times> lazy_file" where
  "lazy_file_read F n lf =
     (case lazy_read F n lf of
        (Inl e, lf') \<Rightarrow> (Inl (''error reading file ('' @ lf_path lf @ ''): '' @ e), lf')
      | (Inr bs, lf') \<Rightarrow> (Inr bs, lf'))"

definition lazy_bytes :: "fs \<Rightarrow> lazy_file \<Rightarrow> string" where
  "lazy_bytes F lf =
     (case (case lf_file lf of Some f \<Rightarrow> Inr f | None \<Rightarrow> raw_open F (lf_path lf)) of
        Inl e \<Rightarrow> [] | Inr f \<Rightarrow> rf_data f)"

lemma raw_read_Inl: "raw_read n f = (Inl e, f') \<Longrightarrow> f' = f"
  by (auto simp: raw_read_def split: if_splits option.splits)

interpretation lazily: byte_reader "lazy_file_read F" "lazy_bytes F" for F
proof
  fix n lf bs lf'
  assume r: "lazy_file_read F n lf = (Inr bs, lf')"
  then obtain f f' where
    f: "(case lf_file lf of Some f \<Rightarrow> Inr f | None \<Rightarrow> raw_open F (lf_path lf)) = Inr f" "raw_read n f = (Inr bs, f')"
      "lf' = lf\<lparr>lf_file := Some f'\<rparr>"
    by (auto simp: lazy_file_read_def lazy_read_def split: sum.splits prod.splits)
  then show "lazy_bytes F lf = bs @ lazy_bytes F lf'" "length bs \<le> n"
    using raw_read_laws [OF f(2)] by (simp_all add: lazy_bytes_def)
next
  fix n lf e lf'
  assume "lazy_file_read F n lf = (Inl e, lf')"
  then show "lazy_bytes F lf' = lazy_bytes F lf"
    by (auto simp: lazy_file_read_def lazy_read_def lazy_bytes_def split: sum.splits prod.splits option.splits
        dest: raw_read_Inl)
next
  fix n lf lf'
  assume r: "lazy_file_read F n lf = (Inr [], lf')" "0 < n"
  then obtain f f' where
    f: "(case lf_file lf of Some f \<Rightarrow> Inr f | None \<Rightarrow> raw_open F (lf_path lf)) = Inr f" "raw_read n f = (Inr [], f')"
    by (auto simp: lazy_file_read_def lazy_read_def split: sum.splits prod.splits)
  then show "lazy_bytes F lf = []"
    using raw_read_laws(3) [OF f(2)] r(2) by (simp add: lazy_bytes_def)
qed

text \<open>\<open>Read::read_to_end\<close> in chunks of a buffer; the fuel is one more than the bytes that are there.\<close>

definition read_to_end :: "fs \<Rightarrow> nat \<Rightarrow> lazy_file \<Rightarrow> (io_error + string) option" where
  "read_to_end F n lf =
     (case drain (lazy_file_read F) (Suc (length (lazy_bytes F lf))) \<lparr>st_reader = lf, st_buf_size = n\<rparr> of
        None \<Rightarrow> None
      | Some (chunks, None) \<Rightarrow> Some (Inr (concat chunks))
      | Some (chunks, Some e) \<Rightarrow> Some (Inl e))"

section \<open>The configuration\<close>

datatype tls_source = Source_Empty | Source_File lazy_file | Source_Bytes string

record tls_builder =
  tb_cert :: tls_source
  tb_key :: tls_source

definition tls_builder_new :: tls_builder where
  "tls_builder_new = \<lparr>tb_cert = Source_Empty, tb_key = Source_Empty\<rparr>"

definition tls_key_path :: "path \<Rightarrow> tls_builder \<Rightarrow> tls_builder" where
  "tls_key_path p b = b\<lparr>tb_key := Source_File \<lparr>lf_path = p, lf_file = None\<rparr>\<rparr>"

definition tls_key :: "string \<Rightarrow> tls_builder \<Rightarrow> tls_builder" where
  "tls_key bs b = b\<lparr>tb_key := Source_Bytes bs\<rparr>"

definition tls_cert_path :: "path \<Rightarrow> tls_builder \<Rightarrow> tls_builder" where
  "tls_cert_path p b = b\<lparr>tb_cert := Source_File \<lparr>lf_path = p, lf_file = None\<rparr>\<rparr>"

definition tls_cert :: "string \<Rightarrow> tls_builder \<Rightarrow> tls_builder" where
  "tls_cert bs b = b\<lparr>tb_cert := Source_Bytes bs\<rparr>"

text \<open>What reading a source to its end gives, through a buffer of the default capacity.\<close>

fun source_content :: "fs \<Rightarrow> tls_source \<Rightarrow> (io_error + string) option" where
  "source_content F Source_Empty = Some (Inr [])"
| "source_content F (Source_File lf) = read_to_end F buf_reader_capacity lf"
| "source_content F (Source_Bytes bs) = Some (Inr bs)"

datatype pem_error =
    Pem_Base64 | Pem_No_Items | Pem_Section_Start string | Pem_Section_End string | Pem_Io string | Pem_Other

record tls_env =
  te_certs :: "string \<Rightarrow> string list option"
    \<comment> \<open>\<open>CertificateDer::pem_reader_iter(..).collect()\<close>\<close>
  te_key :: "string \<Rightarrow> pem_error + string"
    \<comment> \<open>\<open>PrivateKeyDer::from_pem_reader\<close>\<close>
  te_single_cert :: "string list \<Rightarrow> string \<Rightarrow> string option"
    \<comment> \<open>the error of \<open>with_single_cert\<close>, if any\<close>

fun pem_config_error :: "pem_error \<Rightarrow> tls_config_error" where
  "pem_config_error Pem_Base64 = InvalidIdentityPem"
| "pem_config_error Pem_No_Items = EmptyKey"
| "pem_config_error (Pem_Section_Start line) = IllegalSectionStart line"
| "pem_config_error (Pem_Section_End end_marker) = IllegalSectionEnd end_marker"
| "pem_config_error (Pem_Io e) = Tls_Io e"
| "pem_config_error Pem_Other = InvalidIdentityPem"

record tls_config =
  tc_certs :: "string list"
  tc_key :: string
  tc_alpn :: "string list"

definition tls_build :: "tls_env \<Rightarrow> fs \<Rightarrow> tls_builder \<Rightarrow> tls_config_error + tls_config" where
  "tls_build T F b =
     (case source_content F (tb_cert b) of
        Some (Inr cert_text) \<Rightarrow>
          (case te_certs T cert_text of
             None \<Rightarrow> Inl CertParseError
           | Some certs \<Rightarrow>
               (case source_content F (tb_key b) of
                  Some (Inr key_buf) \<Rightarrow>
                    if key_buf = [] then Inl EmptyKey
                    else (case te_key T key_buf of
                            Inl e \<Rightarrow> Inl (pem_config_error e)
                          | Inr key \<Rightarrow>
                              (case te_single_cert T certs key of
                                 Some e \<Rightarrow> Inl (InvalidKey e)
                               | None \<Rightarrow> Inr \<lparr>tc_certs = certs, tc_key = key, tc_alpn = [''h2'', ''http/1.1'']\<rparr>))
                | Some (Inl e) \<Rightarrow> Inl (Tls_Io e)
                | None \<Rightarrow> Inl EmptyKey))
      | _ \<Rightarrow> Inl CertParseError)"

section \<open>The stream of a connection\<close>

datatype 'x poll = Ready 'x | Pending

text \<open>The handshake \<open>'a\<close> and the established stream \<open>'s\<close> of the TLS implementation.\<close>

record ('a, 's) tls_io =
  ti_accept :: "'a \<Rightarrow> (io_error + 's) poll \<times> 'a"
  ti_read :: "nat \<Rightarrow> 's \<Rightarrow> (io_error + string) poll \<times> 's"
  ti_write :: "string \<Rightarrow> 's \<Rightarrow> (io_error + nat) poll \<times> 's"
  ti_flush :: "'s \<Rightarrow> (io_error + unit) poll \<times> 's"
  ti_shutdown :: "'s \<Rightarrow> (io_error + unit) poll \<times> 's"

datatype ('a, 's) tls_state = Handshaking 'a | Streaming 's

record ('a, 's) tls_stream =
  ts_state :: "('a, 's) tls_state"
  ts_remote_addr :: peer

definition tls_stream_new :: "('c \<Rightarrow> 'a) \<Rightarrow> 'c \<Rightarrow> peer \<Rightarrow> ('a, 's) tls_stream" where
  "tls_stream_new accept stream remote = \<lparr>ts_state = Handshaking (accept stream), ts_remote_addr = remote\<rparr>"

definition tls_remote_addr :: "('a, 's) tls_stream \<Rightarrow> peer option" where
  "tls_remote_addr t = Some (ts_remote_addr t)"

definition tls_poll_read ::
  "('a, 's) tls_io \<Rightarrow> nat \<Rightarrow> ('a, 's) tls_stream \<Rightarrow> (io_error + string) poll \<times> ('a, 's) tls_stream" where
  "tls_poll_read IO n t =
     (case ts_state t of
        Handshaking a \<Rightarrow>
          (case ti_accept IO a of
             (Pending, a') \<Rightarrow> (Pending, t\<lparr>ts_state := Handshaking a'\<rparr>)
           | (Ready (Inr s), a') \<Rightarrow>
               (case ti_read IO n s of (r, s') \<Rightarrow> (r, t\<lparr>ts_state := Streaming s'\<rparr>))
           | (Ready (Inl e), a') \<Rightarrow> (Ready (Inl e), t\<lparr>ts_state := Handshaking a'\<rparr>))
      | Streaming s \<Rightarrow> (case ti_read IO n s of (r, s') \<Rightarrow> (r, t\<lparr>ts_state := Streaming s'\<rparr>)))"

definition tls_poll_write ::
  "('a, 's) tls_io \<Rightarrow> string \<Rightarrow> ('a, 's) tls_stream \<Rightarrow> (io_error + nat) poll \<times> ('a, 's) tls_stream" where
  "tls_poll_write IO bs t =
     (case ts_state t of
        Handshaking a \<Rightarrow>
          (case ti_accept IO a of
             (Pending, a') \<Rightarrow> (Pending, t\<lparr>ts_state := Handshaking a'\<rparr>)
           | (Ready (Inr s), a') \<Rightarrow>
               (case ti_write IO bs s of (r, s') \<Rightarrow> (r, t\<lparr>ts_state := Streaming s'\<rparr>))
           | (Ready (Inl e), a') \<Rightarrow> (Ready (Inl e), t\<lparr>ts_state := Handshaking a'\<rparr>))
      | Streaming s \<Rightarrow> (case ti_write IO bs s of (r, s') \<Rightarrow> (r, t\<lparr>ts_state := Streaming s'\<rparr>)))"

definition tls_poll_flush ::
  "('a, 's) tls_io \<Rightarrow> ('a, 's) tls_stream \<Rightarrow> (io_error + unit) poll \<times> ('a, 's) tls_stream" where
  "tls_poll_flush IO t =
     (case ts_state t of
        Handshaking _ \<Rightarrow> (Ready (Inr ()), t)
      | Streaming s \<Rightarrow> (case ti_flush IO s of (r, s') \<Rightarrow> (r, t\<lparr>ts_state := Streaming s'\<rparr>)))"

definition tls_poll_shutdown ::
  "('a, 's) tls_io \<Rightarrow> ('a, 's) tls_stream \<Rightarrow> (io_error + unit) poll \<times> ('a, 's) tls_stream" where
  "tls_poll_shutdown IO t =
     (case ts_state t of
        Handshaking _ \<Rightarrow> (Ready (Inr ()), t)
      | Streaming s \<Rightarrow> (case ti_shutdown IO s of (r, s') \<Rightarrow> (r, t\<lparr>ts_state := Streaming s'\<rparr>)))"

text \<open>\<open>TlsAcceptor::poll_accept\<close>: each accepted socket starts a handshake.\<close>

definition tls_poll_accept ::
  "('c \<Rightarrow> 'a) \<Rightarrow> (io_error + 'c \<times> peer) option poll \<Rightarrow> (io_error + ('a, 's) tls_stream) option poll" where
  "tls_poll_accept accept incoming =
     (case incoming of
        Pending \<Rightarrow> Pending
      | Ready (Some (Inr (sock, remote))) \<Rightarrow> Ready (Some (Inr (tls_stream_new accept sock remote)))
      | Ready (Some (Inl e)) \<Rightarrow> Ready (Some (Inl e))
      | Ready None \<Rightarrow> Ready None)"

section \<open>Other transports\<close>

text \<open>A plain socket knows its peer; \<open>LiftIo\<close> forwards the operations of what it wraps and knows none.\<close>

record 'r plain_io =
  pi_read :: "nat \<Rightarrow> 'r \<Rightarrow> (io_error + string) poll \<times> 'r"
  pi_write :: "string \<Rightarrow> 'r \<Rightarrow> (io_error + nat) poll \<times> 'r"
  pi_flush :: "'r \<Rightarrow> (io_error + unit) poll \<times> 'r"
  pi_shutdown :: "'r \<Rightarrow> (io_error + unit) poll \<times> 'r"

definition addr_stream_remote_addr :: "peer \<Rightarrow> peer option" where
  "addr_stream_remote_addr remote = Some remote"

datatype 'r lift_io = LiftIo 'r

definition lift_poll :: "('r \<Rightarrow> 'x \<times> 'r) \<Rightarrow> 'r lift_io \<Rightarrow> 'x \<times> 'r lift_io" where
  "lift_poll f l = (case l of LiftIo r \<Rightarrow> (case f r of (x, r') \<Rightarrow> (x, LiftIo r')))"

definition lift_plain_io :: "'r plain_io \<Rightarrow> 'r lift_io plain_io" where
  "lift_plain_io IO =
     \<lparr>pi_read = (\<lambda>n. lift_poll (pi_read IO n)), pi_write = (\<lambda>bs. lift_poll (pi_write IO bs)),
      pi_flush = lift_poll (pi_flush IO), pi_shutdown = lift_poll (pi_shutdown IO)\<rparr>"

definition lift_remote_addr :: "'r lift_io \<Rightarrow> peer option" where
  "lift_remote_addr l = None"

section \<open>Lemmas\<close>

definition lazy_raw :: "fs \<Rightarrow> lazy_file \<Rightarrow> io_error + raw_file" where
  "lazy_raw F lf = (case lf_file lf of Some f \<Rightarrow> Inr f | None \<Rightarrow> raw_open F (lf_path lf))"

lemma lazy_read_raw:
  "lazy_file_read F n lf =
     (case lazy_raw F lf of
        Inl e \<Rightarrow> (Inl (''error reading file ('' @ lf_path lf @ ''): '' @ e), lf)
      | Inr f \<Rightarrow>
          (case raw_read n f of
             (Inl e, f') \<Rightarrow> (Inl (''error reading file ('' @ lf_path lf @ ''): '' @ e), lf\<lparr>lf_file := Some f'\<rparr>)
           | (Inr bs, f') \<Rightarrow> (Inr bs, lf\<lparr>lf_file := Some f'\<rparr>)))"
  by (auto simp: lazy_file_read_def lazy_read_def lazy_raw_def split: sum.split option.split prod.split)

lemma raw_read_keeps_err: "raw_read n f = (r, f') \<Longrightarrow> rf_err f' = rf_err f"
  by (auto simp: raw_read_def split: if_splits option.splits)

lemma raw_read_sound: "rf_err f = None \<Longrightarrow> \<exists>bs f'. raw_read n f = (Inr bs, f')"
  by (simp add: raw_read_def)

lemma raw_read_broken: "rf_err f = Some e \<Longrightarrow> 0 < n \<Longrightarrow> raw_read n f \<noteq> (Inr [], f')"
  by (auto simp: raw_read_def)

lemma lazy_drain_sound:
  assumes "lazy_raw F lf = Inr f" "rf_err f = None"
    "drain (lazy_file_read F) fuel \<lparr>st_reader = lf, st_buf_size = n\<rparr> = Some (cs, e)"
  shows "e = None"
  using assms
proof (induction fuel arbitrary: lf f cs)
  case (Suc fuel)
  from raw_read_sound [OF Suc.prems(2)] obtain bs f' where r: "raw_read n f = (Inr bs, f')" by blast
  have next': "lazy_raw F (lf\<lparr>lf_file := Some f'\<rparr>) = Inr f'" "rf_err f' = None"
    using raw_read_keeps_err [OF r] Suc.prems(2) by (simp_all add: lazy_raw_def)
  have step: "lazy_file_read F n lf = (Inr bs, lf\<lparr>lf_file := Some f'\<rparr>)"
    using Suc.prems(1) r by (simp add: lazy_read_raw)
  from Suc.prems(3) show ?case
    by (auto simp: drain.simps poll_next_def step split: if_splits intro: Suc.IH [OF next'])
qed (simp add: drain.simps)

lemma lazy_drain_broken:
  assumes "lazy_raw F lf = Inr f" "rf_err f = Some x" "0 < n"
    "drain (lazy_file_read F) fuel \<lparr>st_reader = lf, st_buf_size = n\<rparr> = Some (cs, e)"
  shows "e \<noteq> None"
  using assms
proof (induction fuel arbitrary: lf f cs)
  case (Suc fuel)
  obtain r f' where r: "raw_read n f = (r, f')" by (cases "raw_read n f")
  have next': "lazy_raw F (lf\<lparr>lf_file := Some f'\<rparr>) = Inr f'" "rf_err f' = Some x"
    using raw_read_keeps_err [OF r] Suc.prems(2) by (simp_all add: lazy_raw_def)
  show ?case
  proof (cases r)
    case (Inl y)
    then have "lazy_file_read F n lf = (Inl (''error reading file ('' @ lf_path lf @ ''): '' @ y), lf\<lparr>lf_file := Some f'\<rparr>)"
      using Suc.prems(1) r by (simp add: lazy_read_raw)
    with Suc.prems(4) show ?thesis by (auto simp: drain.simps poll_next_def)
  next
    case (Inr bs)
    then have "lazy_file_read F n lf = (Inr bs, lf\<lparr>lf_file := Some f'\<rparr>)" "bs \<noteq> []"
      using Suc.prems(1) r raw_read_broken [OF Suc.prems(2,3)] by (auto simp: lazy_read_raw)
    with Suc.prems(4) Suc.IH [OF next' Suc.prems(3)] show ?thesis
      by (auto simp: drain.simps poll_next_def)
  qed
qed (simp add: drain.simps)

lemma fs_read_raw:
  "fs_read F p =
     (case raw_open F p of Inr f \<Rightarrow> (if rf_err f = None then Some (rf_data f) else None) | Inl _ \<Rightarrow> None)"
  by (auto simp: fs_read_def raw_open_def split: sum.split)

lemma read_to_end_file:
  assumes "0 < n"
  shows "case fs_read F p of
      Some c \<Rightarrow> read_to_end F n \<lparr>lf_path = p, lf_file = None\<rparr> = Some (Inr c)
    | None \<Rightarrow> (\<exists>e. read_to_end F n \<lparr>lf_path = p, lf_file = None\<rparr> = Some (Inl e))"
proof -
  let ?lf = "\<lparr>lf_path = p, lf_file = None\<rparr>" let ?s = "\<lparr>st_reader = ?lf, st_buf_size = n\<rparr>"
  have "drain (lazy_file_read F) (Suc (length (lazy_bytes F ?lf))) ?s \<noteq> None"
    by (rule lazily.drain_total) simp
  then obtain cs e where d: "drain (lazy_file_read F) (Suc (length (lazy_bytes F ?lf))) ?s = Some (cs, e)" by auto
  have raw: "lazy_raw F ?lf = raw_open F p" by (simp add: lazy_raw_def)
  show ?thesis
  proof (cases "raw_open F p")
    case (Inl x)
    with d raw show ?thesis
      by (auto simp: fs_read_raw read_to_end_def drain.simps poll_next_def lazy_read_raw)
  next
    case (Inr f)
    show ?thesis
    proof (cases "rf_err f")
      case None
      with lazy_drain_sound [OF _ None d] raw Inr have e: "e = None" by simp
      from lazily.drain_chunks [OF d] e assms have "concat cs = lazy_bytes F ?lf" by simp
      with d e None Inr show ?thesis by (simp add: fs_read_raw read_to_end_def lazy_bytes_def)
    next
      case (Some x)
      with lazy_drain_broken [OF _ Some assms d] raw Inr have "e \<noteq> None" by simp
      with d Some Inr show ?thesis by (auto simp: fs_read_raw read_to_end_def)
    qed
  qed
qed

lemma buf_capacity_pos: "0 < buf_reader_capacity"
  by (simp add: buf_reader_capacity_def)

section \<open>Properties\<close>

lemma tls_build_files:
  "let r = tls_build T F (tls_key_path k (tls_cert_path c tls_builder_new)) in
   case Option.bind (fs_read F c) (te_certs T) of
     None \<Rightarrow> r = Inl CertParseError
   | Some certs \<Rightarrow>
       (case fs_read F k of
          None \<Rightarrow> (\<exists>e. r = Inl (Tls_Io e))
        | Some key_buf \<Rightarrow>
            if key_buf = [] then r = Inl EmptyKey
            else (case te_key T key_buf of
                    Inl e \<Rightarrow> r = Inl (pem_config_error e)
                  | Inr key \<Rightarrow>
                      (case te_single_cert T certs key of
                         Some e \<Rightarrow> r = Inl (InvalidKey e)
                       | None \<Rightarrow> r = Inr \<lparr>tc_certs = certs, tc_key = key, tc_alpn = [''h2'', ''http/1.1'']\<rparr>)))"
proof -
  note cert = read_to_end_file [OF buf_capacity_pos, of F c]
  note key = read_to_end_file [OF buf_capacity_pos, of F k]
  show ?thesis
  proof (cases "Option.bind (fs_read F c) (te_certs T)")
    case None
    with cert show ?thesis
      by (auto simp: tls_build_def tls_builder_new_def tls_cert_path_def tls_key_path_def Let_def split: option.splits)
  next
    case (Some certs)
    then obtain ct where "fs_read F c = Some ct" "te_certs T ct = Some certs" by (auto split: Option.bind_splits)
    with cert key Some show ?thesis
      by (cases "fs_read F k")
        (auto simp: tls_build_def tls_builder_new_def tls_cert_path_def tls_key_path_def Let_def
          split: sum.split option.split)
  qed
qed

text \<open>C35. The configuration built from a certificate file and a key file: unreadable or unparsable
  certificates are a certificate error, found before the key is looked at; an unreadable key file is
  an I/O error and an empty one an empty key; every error of the key parser is reported as its kind;
  a pair that does not fit is an invalid key; otherwise the configuration has the certificates and the
  key of the two files and offers HTTP/2 before HTTP/1.1.\<close>

theorem tls_configuration_from_files:
  "let r = tls_build T F (tls_key_path k (tls_cert_path c tls_builder_new)) in
   case Option.bind (fs_read F c) (te_certs T) of
     None \<Rightarrow> r = Inl CertParseError
   | Some certs \<Rightarrow>
       (case fs_read F k of
          None \<Rightarrow> (\<exists>e. r = Inl (Tls_Io e))
        | Some key_buf \<Rightarrow>
            if key_buf = [] then r = Inl EmptyKey
            else (case te_key T key_buf of
                    Inl e \<Rightarrow> r = Inl (pem_config_error e)
                  | Inr key \<Rightarrow>
                      (case te_single_cert T certs key of
                         Some e \<Rightarrow> r = Inl (InvalidKey e)
                       | None \<Rightarrow> r = Inr \<lparr>tc_certs = certs, tc_key = key, tc_alpn = [''h2'', ''http/1.1'']\<rparr>)))"
  by (rule tls_build_files)

text \<open>The operations of a connection, in any order.\<close>

inductive tls_step :: "('a, 's) tls_io \<Rightarrow> ('a, 's) tls_stream \<Rightarrow> ('a, 's) tls_stream \<Rightarrow> bool" for IO where
  reads: "tls_poll_read IO n t = (r, t') \<Longrightarrow> tls_step IO t t'"
| writes: "tls_poll_write IO bs t = (r, t') \<Longrightarrow> tls_step IO t t'"
| flushes: "tls_poll_flush IO t = (r, t') \<Longrightarrow> tls_step IO t t'"
| shuts_down: "tls_poll_shutdown IO t = (r, t') \<Longrightarrow> tls_step IO t t'"

fun streaming :: "('a, 's) tls_state \<Rightarrow> bool" where
  "streaming (Streaming _) = True"
| "streaming (Handshaking _) = False"

lemma tls_step_keeps:
  assumes "tls_step IO t t'"
  shows "tls_remote_addr t' = tls_remote_addr t" "streaming (ts_state t) \<Longrightarrow> streaming (ts_state t')"
  using assms
  by (cases rule: tls_step.cases,
      auto simp: tls_poll_read_def tls_poll_write_def tls_poll_flush_def tls_poll_shutdown_def tls_remote_addr_def
        split: tls_state.splits prod.splits poll.splits sum.splits)+

text \<open>A connection never falls back into its handshake and never loses its peer: through any sequence of
  reads, writes, flushes and shutdowns, an established stream stays established and the remote address
  that access rules and logs see is the one of the accepted socket.\<close>

theorem tls_stream_stays_established:
  assumes "(tls_step IO)\<^sup>*\<^sup>* t t'"
  shows "tls_remote_addr t' = tls_remote_addr t \<and> (if streaming (ts_state t) then streaming (ts_state t') else True)"
  using assms by (induction rule: rtranclp_induct) (auto simp: tls_step_keeps split: if_splits)

theorem tls_stream_stays_established_witness:
  "\<forall>IO :: (nat, nat) tls_io. \<forall>r. \<exists>t'. tls_step IO \<lparr>ts_state = Streaming 1, ts_remote_addr = r\<rparr> t' \<and> streaming (ts_state t')"
proof (intro allI)
  fix IO :: "(nat, nat) tls_io" and r
  let ?t = "\<lparr>ts_state = Streaming 1, ts_remote_addr = r\<rparr>"
  obtain x t' where "tls_poll_flush IO ?t = (x, t')" by (cases "tls_poll_flush IO ?t")
  then have s: "tls_step IO ?t t'" by (rule flushes)
  then have "(tls_step IO)\<^sup>*\<^sup>* ?t t'" by (rule r_into_rtranclp)
  from tls_stream_stays_established [OF this] s show "\<exists>t'. tls_step IO ?t t' \<and> streaming (ts_state t')"
    by auto
qed

text \<open>The handshake is invisible to the reader and the writer: when it completes during a read or a
  write, that operation is the one of the established stream.\<close>

theorem handshake_transparent:
  assumes "ts_state t = Handshaking a" "ti_accept IO a = (Ready (Inr s), a')"
  shows "tls_poll_read IO n t = tls_poll_read IO n (t\<lparr>ts_state := Streaming s\<rparr>) \<and>
    tls_poll_write IO bs t = tls_poll_write IO bs (t\<lparr>ts_state := Streaming s\<rparr>)"
  using assms by (simp add: tls_poll_read_def tls_poll_write_def split: prod.split)

end
