(* ===== verification/Signals.thy ===== *)
theory Signals
  imports Prelude
begin

text \<open>
  The graceful shutdown (\<open>src/signals.rs\<close>, the Unix part): the two tasks that wait for a termination
  signal or for the cancellation of the caller, the channel that wakes the server, and the grace
  period. The cancellation is a \<open>watch\<close> channel whose receiver is shared behind a mutex by the
  servers of one start (\<open>src/server.rs\<close>), so the shared part is modelled with all its waiters.
\<close>

section \<open>Signals\<close>

datatype signal = SIGHUP | SIGTERM | SIGINT | SIGQUIT

definition create_signals :: "signal list" where
  "create_signals = [SIGHUP, SIGTERM, SIGINT, SIGQUIT]"

text \<open>The loop of the signal task over the signals that arrive: whether it wakes the server, and the
  signals that it leaves.\<close>

fun signal_task :: "signal list \<Rightarrow> bool \<times> signal list" where
  "signal_task [] = (False, [])"
| "signal_task (SIGHUP # ss) = signal_task ss"
| "signal_task (SIGTERM # ss) = (True, ss)"
| "signal_task (SIGINT # ss) = (True, ss)"
| "signal_task (SIGQUIT # ss) = (True, ss)"

text \<open>The seconds to sleep before the shutdown goes on, if any.\<close>

definition delay_graceful_shutdown :: "nat \<Rightarrow> nat option" where
  "delay_graceful_shutdown grace_period_secs =
     (if 0 < grace_period_secs then Some grace_period_secs else None)"

section \<open>Waiting\<close>

text \<open>
  One waiter: what its tasks and its own flow have reached. The cancel task takes the lock, waits for
  a change, wakes its server and gives the lock back.
\<close>

datatype cancel_task = Wants_Lock | Holds_Lock | Cancel_Done

datatype flow = Blocked | In_Grace nat | Delegated

record waiter =
  wt_signals :: "signal list"
  wt_signal_task :: bool
    \<comment> \<open>the signal task still runs\<close>
  wt_cancel :: cancel_task
  wt_messages :: nat
  wt_flow :: flow
  wt_by_cancel :: bool
    \<comment> \<open>a message of the cancel task was sent\<close>

definition wait_for_signals :: waiter where
  "wait_for_signals = \<lparr>wt_signals = [], wt_signal_task = True, wt_cancel = Wants_Lock, wt_messages = 0,
     wt_flow = Blocked, wt_by_cancel = False\<rparr>"

text \<open>The shared receiver: whether there is one, the versions sent and seen, whether the sender lives, and
  the waiter that holds the lock.\<close>

record cancel_cell =
  cc_present :: bool
  cc_sent :: nat
  cc_seen :: nat
  cc_sender_alive :: bool
  cc_locked_by :: "nat option"

record shutdown =
  sh_cell :: cancel_cell
  sh_waiters :: "waiter list"
  sh_grace :: nat

definition shutdown_start :: "bool \<Rightarrow> nat \<Rightarrow> nat \<Rightarrow> shutdown" where
  "shutdown_start present grace k =
     \<lparr>sh_cell = \<lparr>cc_present = present, cc_sent = 0, cc_seen = 0, cc_sender_alive = True, cc_locked_by = None\<rparr>,
      sh_waiters = replicate k wait_for_signals, sh_grace = grace\<rparr>"

text \<open>The channel of a waiter holds one message; once its receiver is gone a send returns at once.\<close>

definition can_send :: "waiter \<Rightarrow> bool" where
  "can_send w = (wt_messages w = 0 \<or> wt_flow w = Delegated)"

definition put_waiter :: "nat \<Rightarrow> waiter \<Rightarrow> shutdown \<Rightarrow> shutdown" where
  "put_waiter i w s = s\<lparr>sh_waiters := (sh_waiters s)[i := w]\<rparr>"

text \<open>
  The steps: a signal arrives at a waiter; its signal task goes through the ones that arrived and
  sends when there is room; the cancel task locks, skips a missing receiver, or sees a change or a
  dropped sender and sends before it unlocks; the server wakes, and its grace period ends; the caller
  sends, or drops the sender.
\<close>

inductive shutdown_step :: "shutdown \<Rightarrow> shutdown \<Rightarrow> bool" where
  signal_arrives: "i < length (sh_waiters s) \<Longrightarrow> w = sh_waiters s ! i \<Longrightarrow>
     shutdown_step s (put_waiter i (w\<lparr>wt_signals := wt_signals w @ [g]\<rparr>) s)"
| signal_handled: "i < length (sh_waiters s) \<Longrightarrow> w = sh_waiters s ! i \<Longrightarrow> wt_signal_task w \<Longrightarrow>
     signal_task (wt_signals w) = (woken, rest) \<Longrightarrow> (if woken then can_send w else True) \<Longrightarrow>
     shutdown_step s (put_waiter i (w\<lparr>wt_signals := rest, wt_signal_task := \<not> woken,
       wt_messages := wt_messages w + (if woken then 1 else 0)\<rparr>) s)"
| locks: "i < length (sh_waiters s) \<Longrightarrow> w = sh_waiters s ! i \<Longrightarrow> wt_cancel w = Wants_Lock \<Longrightarrow>
     cc_locked_by (sh_cell s) = None \<Longrightarrow> cc_present (sh_cell s) \<Longrightarrow>
     shutdown_step s (put_waiter i (w\<lparr>wt_cancel := Holds_Lock\<rparr>) (s\<lparr>sh_cell := (sh_cell s)\<lparr>cc_locked_by := Some i\<rparr>\<rparr>))"
| no_receiver: "i < length (sh_waiters s) \<Longrightarrow> w = sh_waiters s ! i \<Longrightarrow> wt_cancel w = Wants_Lock \<Longrightarrow>
     cc_locked_by (sh_cell s) = None \<Longrightarrow> \<not> cc_present (sh_cell s) \<Longrightarrow>
     shutdown_step s (put_waiter i (w\<lparr>wt_cancel := Cancel_Done\<rparr>) s)"
| changed: "i < length (sh_waiters s) \<Longrightarrow> w = sh_waiters s ! i \<Longrightarrow> wt_cancel w = Holds_Lock \<Longrightarrow>
     cc_seen (sh_cell s) < cc_sent (sh_cell s) \<Longrightarrow> can_send w \<Longrightarrow>
     shutdown_step s (put_waiter i (w\<lparr>wt_cancel := Cancel_Done, wt_messages := wt_messages w + 1, wt_by_cancel := True\<rparr>)
       (s\<lparr>sh_cell := (sh_cell s)\<lparr>cc_seen := cc_sent (sh_cell s), cc_locked_by := None\<rparr>\<rparr>))"
| sender_gone: "i < length (sh_waiters s) \<Longrightarrow> w = sh_waiters s ! i \<Longrightarrow> wt_cancel w = Holds_Lock \<Longrightarrow>
     \<not> cc_sender_alive (sh_cell s) \<Longrightarrow> \<not> cc_seen (sh_cell s) < cc_sent (sh_cell s) \<Longrightarrow> can_send w \<Longrightarrow>
     shutdown_step s (put_waiter i (w\<lparr>wt_cancel := Cancel_Done, wt_messages := wt_messages w + 1, wt_by_cancel := True\<rparr>)
       (s\<lparr>sh_cell := (sh_cell s)\<lparr>cc_locked_by := None\<rparr>\<rparr>))"
| wakes: "i < length (sh_waiters s) \<Longrightarrow> w = sh_waiters s ! i \<Longrightarrow> wt_flow w = Blocked \<Longrightarrow> 0 < wt_messages w \<Longrightarrow>
     shutdown_step s (put_waiter i (w\<lparr>wt_messages := wt_messages w - 1, wt_flow :=
       (case delay_graceful_shutdown (sh_grace s) of Some n \<Rightarrow> In_Grace n | None \<Rightarrow> Delegated)\<rparr>) s)"
| grace_ends: "i < length (sh_waiters s) \<Longrightarrow> w = sh_waiters s ! i \<Longrightarrow> wt_flow w = In_Grace n \<Longrightarrow>
     shutdown_step s (put_waiter i (w\<lparr>wt_flow := Delegated\<rparr>) s)"
| caller_sends: "cc_sender_alive (sh_cell s) \<Longrightarrow>
     shutdown_step s (s\<lparr>sh_cell := (sh_cell s)\<lparr>cc_sent := cc_sent (sh_cell s) + 1\<rparr>\<rparr>)"
| caller_drops: "shutdown_step s (s\<lparr>sh_cell := (sh_cell s)\<lparr>cc_sender_alive := False\<rparr>\<rparr>)"

section \<open>Lemmas\<close>

lemma signal_task_skips_hangups:
  "signal_task ss = (case dropWhile (\<lambda>g. g = SIGHUP) ss of [] \<Rightarrow> (False, []) | g # rest \<Rightarrow> (True, rest))"
  by (induction ss rule: signal_task.induct) auto

lemma filter_update_length:
  "i < length xs \<Longrightarrow>
   length (filter P (xs[i := x])) + (if P (xs ! i) then 1 else 0) = length (filter P xs) + (if P x then 1 else 0)"
proof (induction xs arbitrary: i)
  case (Cons y ys)
  then show ?case by (cases i) auto
qed simp

lemma put_waiter_simps [simp]:
  "sh_waiters (put_waiter i w s) = (sh_waiters s)[i := w]" "sh_cell (put_waiter i w s) = sh_cell s"
  "sh_grace (put_waiter i w s) = sh_grace s"
  by (simp_all add: put_waiter_def)

text \<open>Every message of a waiter has a cause, and a cancellation is done when its message is sent.\<close>

definition waiter_ok :: "waiter \<Rightarrow> bool" where
  "waiter_ok w =
     (wt_messages w + (if wt_flow w = Blocked then 0 else 1) =
        (if wt_signal_task w then 0 else 1) + (if wt_by_cancel w then 1 else 0) \<and>
      (wt_by_cancel w \<longrightarrow> wt_cancel w = Cancel_Done))"

definition woken_by_cancel :: "shutdown \<Rightarrow> nat" where
  "woken_by_cancel s = length (filter wt_by_cancel (sh_waiters s))"

definition shutdown_ok :: "shutdown \<Rightarrow> bool" where
  "shutdown_ok s =
     (list_all waiter_ok (sh_waiters s) \<and> cc_seen (sh_cell s) \<le> cc_sent (sh_cell s) \<and>
      (cc_sender_alive (sh_cell s) \<longrightarrow> woken_by_cancel s \<le> cc_seen (sh_cell s)))"

lemma list_all_update: "list_all P xs \<Longrightarrow> P x \<Longrightarrow> list_all P (xs[i := x])"
  by (auto simp: list_all_iff dest: set_update_subset_insert [THEN subsetD])

lemma list_all_at: "list_all P xs \<Longrightarrow> i < length xs \<Longrightarrow> P (xs ! i)"
  by (simp add: list_all_length)

lemma woken_put:
  assumes "i < length (sh_waiters s)"
  shows "woken_by_cancel (put_waiter i w s) + (if wt_by_cancel (sh_waiters s ! i) then 1 else 0) =
    woken_by_cancel s + (if wt_by_cancel w then 1 else 0)"
  using filter_update_length [OF assms, of wt_by_cancel w] by (simp add: woken_by_cancel_def)

lemma woken_put_same:
  "i < length (sh_waiters s) \<Longrightarrow> wt_by_cancel w = wt_by_cancel (sh_waiters s ! i) \<Longrightarrow>
   woken_by_cancel (put_waiter i w s) = woken_by_cancel s"
  using woken_put [of i s w] by simp

lemma woken_cell [simp]: "woken_by_cancel (s\<lparr>sh_cell := c\<rparr>) = woken_by_cancel s"
  by (simp add: woken_by_cancel_def)

lemma put_waiter_ok:
  assumes "shutdown_ok s" "i < length (sh_waiters s)" "w = sh_waiters s ! i"
    "waiter_ok w \<Longrightarrow> waiter_ok w'" "wt_by_cancel w' = wt_by_cancel w"
  shows "shutdown_ok (put_waiter i w' s)"
proof -
  have "waiter_ok w" using assms(1-3) by (simp add: shutdown_ok_def list_all_at)
  with assms woken_put_same [OF assms(2), of w'] show ?thesis by (simp add: shutdown_ok_def list_all_update)
qed

lemma shutdown_step_ok:
  assumes "shutdown_step s s'" "shutdown_ok s"
  shows "shutdown_ok s'"
  using assms(1)
proof cases
  case (signal_arrives i w g)
  show ?thesis unfolding signal_arrives(1)
    using signal_arrives by (intro put_waiter_ok [OF assms(2)]) (auto simp: waiter_ok_def split: if_splits option.splits)
next
  case (signal_handled i w woken rest)
  show ?thesis unfolding signal_handled(1)
    using signal_handled by (intro put_waiter_ok [OF assms(2)]) (auto simp: waiter_ok_def split: if_splits option.splits)
next
  case (locks i w)
  have "shutdown_ok (put_waiter i (w\<lparr>wt_cancel := Holds_Lock\<rparr>) s)"
    using locks by (intro put_waiter_ok [OF assms(2)]) (auto simp: waiter_ok_def split: if_splits)
  with locks show ?thesis by (simp add: shutdown_ok_def woken_by_cancel_def)
next
  case (no_receiver i w)
  show ?thesis unfolding no_receiver(1)
    using no_receiver by (intro put_waiter_ok [OF assms(2)]) (auto simp: waiter_ok_def split: if_splits option.splits)
next
  case (changed i w)
  let ?w = "w\<lparr>wt_cancel := Cancel_Done, wt_messages := wt_messages w + 1, wt_by_cancel := True\<rparr>"
  have w: "waiter_ok w" using changed(2,3) assms(2) by (simp add: shutdown_ok_def list_all_at)
  then have n: "\<not> wt_by_cancel w" using changed(4) by (auto simp: waiter_ok_def)
  have "woken_by_cancel (put_waiter i ?w s) = Suc (woken_by_cancel s)"
    using woken_put [OF changed(2), of ?w] n changed(3) by simp
  moreover have "waiter_ok ?w" using w n by (simp add: waiter_ok_def)
  ultimately show ?thesis
    using changed assms(2) by (auto simp: shutdown_ok_def list_all_update woken_by_cancel_def)
next
  case (sender_gone i w)
  let ?w = "w\<lparr>wt_cancel := Cancel_Done, wt_messages := wt_messages w + 1, wt_by_cancel := True\<rparr>"
  have w: "waiter_ok w" using sender_gone(2,3) assms(2) by (simp add: shutdown_ok_def list_all_at)
  then have n: "\<not> wt_by_cancel w" using sender_gone(4) by (auto simp: waiter_ok_def)
  then have "waiter_ok ?w" using w by (simp add: waiter_ok_def)
  with sender_gone assms(2) show ?thesis by (simp add: shutdown_ok_def list_all_update)
next
  case (wakes i w)
  show ?thesis unfolding wakes(1)
    using wakes by (intro put_waiter_ok [OF assms(2)]) (auto simp: waiter_ok_def split: if_splits option.splits)
next
  case (grace_ends i w n)
  show ?thesis unfolding grace_ends(1)
    using grace_ends by (intro put_waiter_ok [OF assms(2)]) (auto simp: waiter_ok_def split: if_splits option.splits)
next
  case caller_sends
  with assms(2) show ?thesis by (simp add: shutdown_ok_def)
next
  case caller_drops
  with assms(2) show ?thesis by (simp add: shutdown_ok_def)
qed

lemma shutdown_start_ok: "shutdown_ok (shutdown_start present grace k)"
  by (simp add: shutdown_ok_def shutdown_start_def waiter_ok_def wait_for_signals_def woken_by_cancel_def list_all_length)

lemma shutdown_reachable_ok:
  "shutdown_step\<^sup>*\<^sup>* (shutdown_start present grace k) s \<Longrightarrow> shutdown_ok s"
  by (induction rule: rtranclp_induct) (simp_all add: shutdown_start_ok shutdown_step_ok)

section \<open>Properties\<close>

text \<open>A server is only shut down for a reason: in every interleaving, a waiter that has left its wait,
  into the grace period or beyond, has had a termination signal handled (a hangup is none) or was
  woken by the cancellation.\<close>

theorem shutdown_has_cause:
  assumes "shutdown_step\<^sup>*\<^sup>* (shutdown_start present grace k) s" "i < length (sh_waiters s)"
    "wt_flow (sh_waiters s ! i) \<noteq> Blocked"
  shows "wt_signal_task (sh_waiters s ! i) = False \<or> wt_by_cancel (sh_waiters s ! i)"
proof -
  have "waiter_ok (sh_waiters s ! i)"
    using shutdown_reachable_ok [OF assms(1)] assms(2) by (simp add: shutdown_ok_def list_all_at)
  with assms(3) show ?thesis by (auto simp: waiter_ok_def split: if_splits)
qed

text \<open>C36. One cancellation stops one server: while the caller keeps its sender, the number of servers that
  the cancellation has woken is at most the number of times it was sent, in every interleaving; so
  with the HTTPS redirect on, which makes two servers wait on the same receiver, a single
  cancellation leaves one of them waiting, and the start, which waits for both, does not return.\<close>

theorem one_cancellation_stops_one_server:
  assumes "shutdown_step\<^sup>*\<^sup>* (shutdown_start present grace k) s" "cc_sender_alive (sh_cell s)"
  shows "woken_by_cancel s \<le> cc_sent (sh_cell s)"
  using shutdown_reachable_ok [OF assms(1)] assms(2) by (simp add: shutdown_ok_def)

theorem one_cancellation_stops_one_server_witness:
  "\<exists>s. shutdown_step\<^sup>*\<^sup>* (shutdown_start True 0 2) s \<and> length (sh_waiters s) = 2 \<and> cc_sent (sh_cell s) = 1 \<and>
     woken_by_cancel s \<le> 1"
proof -
  let ?s = "shutdown_start True 0 2"
  have a: "cc_sender_alive (sh_cell ?s)" by (simp add: shutdown_start_def)
  let ?t = "?s\<lparr>sh_cell := (sh_cell ?s)\<lparr>cc_sent := cc_sent (sh_cell ?s) + 1\<rparr>\<rparr>"
  have r: "shutdown_step\<^sup>*\<^sup>* ?s ?t" using caller_sends [OF a] by (rule r_into_rtranclp)
  have "cc_sender_alive (sh_cell ?t)" "cc_sent (sh_cell ?t) = 1" "length (sh_waiters ?t) = 2"
    by (simp_all add: shutdown_start_def)
  with one_cancellation_stops_one_server [OF r] r show ?thesis by (metis)
qed

theorem shutdown_has_cause_witness:
  "\<exists>s. shutdown_step\<^sup>*\<^sup>* (shutdown_start False 5 1) s \<and> wt_flow (sh_waiters s ! 0) = In_Grace 5 \<and>
     (wt_signal_task (sh_waiters s ! 0) = False \<or> wt_by_cancel (sh_waiters s ! 0))"
proof -
  let ?w0 = wait_for_signals
  let ?w1 = "?w0\<lparr>wt_signals := [SIGTERM]\<rparr>"
  let ?w2 = "?w1\<lparr>wt_signals := [], wt_signal_task := False, wt_messages := 1\<rparr>"
  let ?w3 = "?w2\<lparr>wt_messages := 0, wt_flow := In_Grace 5\<rparr>"
  define s0 where "s0 = shutdown_start False 5 1"
  define st where "st w = put_waiter 0 w s0" for w
  have w0: "sh_waiters s0 = [?w0]" "sh_grace s0 = 5" by (simp_all add: s0_def shutdown_start_def)
  have st: "sh_waiters (st w) = [w]" "sh_grace (st w) = 5" "put_waiter 0 v (st w) = st v" for v w
    by (simp_all add: st_def w0 put_waiter_def)
  have "shutdown_step s0 (st ?w1)"
    using signal_arrives [of 0 s0 ?w0 SIGTERM] w0 by (simp add: st_def wait_for_signals_def)
  moreover have "shutdown_step (st ?w1) (st ?w2)"
    using signal_handled [of 0 "st ?w1" ?w1 True "[]"] st by (simp add: wait_for_signals_def can_send_def)
  moreover have "shutdown_step (st ?w2) (st ?w3)"
    using wakes [of 0 "st ?w2" ?w2] st by (simp add: wait_for_signals_def delay_graceful_shutdown_def)
  ultimately have r: "shutdown_step\<^sup>*\<^sup>* (shutdown_start False 5 1) (st ?w3)"
    unfolding s0_def by (meson converse_rtranclp_into_rtranclp r_into_rtranclp)
  from shutdown_has_cause [OF r, of 0] r show ?thesis
    by (intro exI [of _ "st ?w3"]) (simp add: st)
qed

end
