(* ===== verification/Server.thy ===== *)
theory Server
  imports Handler Settings Tls Signals
begin

text \<open>
  The start of the server (\<open>src/server.rs\<close>): its threads, the listening socket, the handler options
  that the features fill in one after the other, the HTTP/2 and plain HTTP branches and the redirect
  server. Sockets, the runtime, the control plane and the TLS implementation are parameters; a start
  gives what runs afterwards, or the error that ends it.
\<close>

section \<open>Environment\<close>

datatype listener = Fd_Listener nat | Tcp_Listener string nat

record server_env =
  sv_parallelism :: "u64 option"
    \<comment> \<open>\<open>std::thread::available_parallelism\<close>\<close>
  sv_runtime :: "nat \<Rightarrow> nat \<Rightarrow> unit res"
    \<comment> \<open>the Tokio runtime with its worker and blocking threads\<close>
  sv_take_tcp_listener :: "nat \<Rightarrow> bool res"
    \<comment> \<open>\<open>ListenFd\<close>: whether the descriptor is a TCP listener\<close>
  sv_bind :: "string \<Rightarrow> nat \<Rightarrow> bool"
  sv_addr_str :: "string \<Rightarrow> nat \<Rightarrow> string"
  sv_nonblocking :: "listener \<Rightarrow> bool"
  sv_from_listener :: "listener \<Rightarrow> bool"
    \<comment> \<open>the Tokio listener made from a socket\<close>
  sv_incoming :: "listener \<Rightarrow> bool"
    \<comment> \<open>\<open>AddrIncoming::from_listener\<close>\<close>
  sv_signals :: bool
    \<comment> \<open>\<open>Signals::new\<close> succeeds\<close>
  sv_boot :: boot_env
  sv_partial :: string
  sv_version :: string
  sv_client :: client_env
  sv_tls :: tls_env

record server =
  sr_opts :: settings
  sr_worker_threads :: nat
  sr_max_blocking_threads :: nat

definition server_new :: "server_env \<Rightarrow> settings \<Rightarrow> server res" where
  "server_new S opts =
     (case sv_parallelism S of
        None \<Rightarrow> Inl ''unable to get current platform cpus or lack of permissions to query available parallelism''
      | Some cpus \<Rightarrow>
          (let n = g_threads_multiplier (se_general opts)
           in Inr \<lparr>sr_opts = opts,
                   sr_worker_threads = (if n = 0 \<or> n = 1 then unat cpus else unat (cpus * of_nat n)),
                   sr_max_blocking_threads = g_max_blocking_threads (se_general opts)\<rparr>))"

section \<open>The handler options\<close>

definition open_listener :: "ext \<Rightarrow> server_env \<Rightarrow> general \<Rightarrow> (listener \<times> string) res" where
  "open_listener X S g =
     (case g_fd g of
        Some fd \<Rightarrow>
          res_bind (sv_take_tcp_listener S fd) (\<lambda>found.
            if found then Inr (Fd_Listener fd, ''@FD('' @ show_nat fd @ '')'')
            else Inl ''failed to convert inherited 'fd' into a 'tcp' listener'')
      | None \<Rightarrow>
          (case x_parse_ip X (g_host g) of
             None \<Rightarrow> Inl (''failed to parse '' @ g_host g @ '' address'')
           | Some ip \<Rightarrow>
               if sv_bind S ip (g_port g) then Inr (Tcp_Listener ip (g_port g), sv_addr_str S ip (g_port g))
               else Inl (''failed to bind to '' @ sv_addr_str S ip (g_port g) @ '' address'')))"

definition page_below_root :: "path \<Rightarrow> path \<Rightarrow> path" where
  "page_below_root root p = (if \<not> has_root p \<and> \<not> path_starts_with p root then path_push root p else p)"

definition split_trimmed :: "string \<Rightarrow> string list" where
  "split_trimmed s = map trim (split_on (CHR '','') s)"

definition initial_opts :: "general \<Rightarrow> path \<Rightarrow> advanced option \<Rightarrow> handler_opts" where
  "initial_opts g root adv =
     handler_opts_default\<lparr>root_dir := root, page404 := page_below_root root (g_page404 g),
       page50x := page_below_root root (g_page50x g), log_remote_address := g_log_remote_address g,
       log_x_real_ip := g_log_x_real_ip g, log_forwarded_for := g_log_forwarded_for g,
       trusted_proxies := g_trusted_proxies g, redirect_trailing_slash := g_redirect_trailing_slash g,
       ignore_hidden_files := g_ignore_hidden_files g, disable_symlinks := g_disable_symlinks g,
       accept_markdown := g_accept_markdown g, text_charset := g_text_charset g,
       index_files := split_trimmed (g_index_files g), advanced_opts := adv\<rparr>"

text \<open>The features before the reverse proxy.\<close>

definition init_features ::
  "ext \<Rightarrow> fs \<Rightarrow> general \<Rightarrow> handler_opts \<Rightarrow> metrics \<Rightarrow> (handler_opts \<times> metrics) res" where
  "init_features X F g opts M =
     (let o1 = directory_listing_init (g_directory_listing g) (g_directory_listing_order g)
                 (g_directory_listing_format g) opts;
          o2 = download_init (g_directory_listing_download g) o1;
          o3 = fallback_init F (g_page_fallback g) o2;
          o4 = health_init (g_health g) o3;
          o5 = log_addr_init (g_log_remote_address g) o4
      in res_bind (metrics_init (g_metrics g) o5 M) (\<lambda>(o6, M').
         res_bind (cors_init X (g_cors_allow_origins g) (g_cors_allow_headers g) (g_cors_expose_headers g) o6) (\<lambda>o7.
         (let o8 = basic_auth_init (g_basic_auth g) o7
          in Inr (maintenance_mode_init (g_maintenance_mode g) (g_maintenance_mode_status g)
                    (g_maintenance_mode_file g) o8, M')))))"

text \<open>The rules are resolved and the client built; then the remaining features.\<close>

definition init_proxy :: "ext \<Rightarrow> server_env \<Rightarrow> fs \<Rightarrow> files \<Rightarrow> handler_opts \<Rightarrow> handler_opts res \<times> files" where
  "init_proxy X S F cache_files opts =
     (case resolve_rules X (sv_boot S) (sv_partial S) (sv_version S) (advanced_opts opts) cache_files of
        (resolved, files') \<Rightarrow>
          (res_bind resolved (\<lambda>adv. proxy_init (sv_client S) F (opts\<lparr>advanced_opts := adv\<rparr>)), files'))"

definition init_responses ::
  "general \<Rightarrow> handler_opts \<Rightarrow> mem_cache_state option \<Rightarrow> (handler_opts \<times> mem_cache_state option) res" where
  "init_responses g opts cell =
     (let o1 = compression_static_init (g_compression_static g) opts;
          o2 = compression_init (g_compression g) (g_compression_level g) o1;
          o3 = cache_control_init (g_cache_control_headers g) o2;
          o4 = security_headers_init (g_security_headers g) o3
      in mem_cache_init o4 cell)"

record built =
  bl_opts :: handler_opts
  bl_metrics :: metrics
  bl_cache :: "mem_cache_state option"

definition build_handler ::
  "ext \<Rightarrow> server_env \<Rightarrow> fs \<Rightarrow> settings \<Rightarrow> metrics \<Rightarrow> mem_cache_state option \<Rightarrow> files \<Rightarrow> built res \<times> files" where
  "build_handler X S F opts M cell cache_files =
     (let g = se_general opts
      in case get_valid_dirpath F (g_root g) of
           Inl e \<Rightarrow> (Inl (''root directory was not found or inaccessible'' @ e), cache_files)
         | Inr root \<Rightarrow>
             if split_trimmed (g_index_files g) = []
             then (Inl ''index files list is empty, provide at least one index file'', cache_files)
             else
               (case init_features X F g (initial_opts g root (se_advanced opts)) M of
                  Inl e \<Rightarrow> (Inl e, cache_files)
                | Inr (o1, M') \<Rightarrow>
                    (case init_proxy X S F cache_files o1 of
                       (Inl e, files') \<Rightarrow> (Inl e, files')
                     | (Inr o2, files') \<Rightarrow>
                         (res_bind (init_responses g o2 cell) (\<lambda>(o3, cell').
                            Inr \<lparr>bl_opts = o3, bl_metrics = M', bl_cache = cell'\<rparr>), files'))))"

section \<open>The servers\<close>

record running =
  rn_listener :: listener
  rn_addr :: string
  rn_built :: built
  rn_tls :: "tls_config option"
  rn_redirect :: "(listener \<times> redirect_opts) option"
  rn_grace :: nat

definition start_redirect :: "ext \<Rightarrow> server_env \<Rightarrow> general \<Rightarrow> (listener \<times> redirect_opts) res" where
  "start_redirect X S g =
     (case x_parse_ip X (g_host g) of
        None \<Rightarrow> Inl (''failed to parse '' @ g_host g @ '' address'')
      | Some ip \<Rightarrow>
          (let l = Tcp_Listener ip (g_https_redirect_from_port g)
           in if \<not> sv_bind S ip (g_https_redirect_from_port g) 
              then Inl (''failed to bind to '' @ sv_addr_str S ip (g_https_redirect_from_port g) @ '' address'')
              else if \<not> sv_nonblocking S l then Inl ''failed to set TCP non-blocking mode''
              else if \<not> sv_signals S then Inl ''failed to register termination signals''
              else if split_trimmed (g_https_redirect_from_hosts g) = []
              then Inl ''https redirect allowed hosts is empty, provide at least one host or IP''
              else if \<not> (sv_from_listener S l \<and> sv_incoming S l) then Inl unwrap_panic
              else Inr (l, \<lparr>ro_https_hostname = g_https_redirect_host g, ro_https_port = g_port g,
                            ro_allowed_hosts = split_trimmed (g_https_redirect_from_hosts g)\<rparr>)))"

definition start_tls :: "server_env \<Rightarrow> fs \<Rightarrow> general \<Rightarrow> tls_config res" where
  "start_tls S F g =
     (case g_http2_tls_cert g of
        None \<Rightarrow> Inl ''failed to initialize TLS because cert file missing''
      | Some cert \<Rightarrow>
          (case g_http2_tls_key g of
             None \<Rightarrow> Inl ''failed to initialize TLS because key file missing''
           | Some key \<Rightarrow>
               (case tls_build (sv_tls S) F (tls_key_path key (tls_cert_path cert tls_builder_new)) of
                  Inl e \<Rightarrow> Inl (''failed to initialize TLS probably because invalid cert or key file'' @ tls_error_display e)
                | Inr config \<Rightarrow> Inr config)))"

definition start_http2 :: "ext \<Rightarrow> server_env \<Rightarrow> fs \<Rightarrow> general \<Rightarrow> listener \<Rightarrow> string \<Rightarrow> built \<Rightarrow> running res" where
  "start_http2 X S F g l addr b =
     (if \<not> sv_nonblocking S l then Inl ''failed to set TCP non-blocking mode''
      else if \<not> sv_from_listener S l then Inl ''failed to create tokio::net::TcpListener''
      else if \<not> sv_incoming S l
      then Inl ''failed to create an AddrIncoming from the current tokio::net::TcpListener''
      else
        res_bind (start_tls S F g) (\<lambda>config.
        if \<not> sv_signals S then Inl ''failed to register termination signals''
        else
          res_bind (if g_https_redirect g then res_bind (start_redirect X S g) (\<lambda>r. Inr (Some r)) else Inr None) (\<lambda>r.
            Inr \<lparr>rn_listener = l, rn_addr = addr, rn_built = b, rn_tls = Some config, rn_redirect = r,
                 rn_grace = g_grace_period g\<rparr>)))"

definition start_http1 :: "server_env \<Rightarrow> general \<Rightarrow> listener \<Rightarrow> string \<Rightarrow> built \<Rightarrow> running res" where
  "start_http1 S g l addr b =
     (if \<not> sv_signals S then Inl ''failed to register termination signals''
      else if \<not> sv_nonblocking S l then Inl ''failed to set TCP non-blocking mode''
      else if \<not> (sv_from_listener S l \<and> sv_incoming S l) then Inl unwrap_panic
      else Inr \<lparr>rn_listener = l, rn_addr = addr, rn_built = b, rn_tls = None, rn_redirect = None,
                rn_grace = g_grace_period g\<rparr>)"

text \<open>\<open>start_server\<close> up to the servers; the files are those of the routes cache.\<close>

definition start_server ::
  "ext \<Rightarrow> server_env \<Rightarrow> fs \<Rightarrow> server \<Rightarrow> metrics \<Rightarrow> mem_cache_state option \<Rightarrow> files \<Rightarrow> running res \<times> files" where
  "start_server X S F srv M cell cache_files =
     (let g = se_general (sr_opts srv)
      in case open_listener X S g of
           Inl e \<Rightarrow> (Inl e, cache_files)
         | Inr (l, addr) \<Rightarrow>
             (case build_handler X S F (sr_opts srv) M cell cache_files of
                (Inl e, files') \<Rightarrow> (Inl e, files')
              | (Inr b, files') \<Rightarrow>
                  ((if g_http2 g then start_http2 X S F g l addr b else start_http1 S g l addr b), files')))"

text \<open>The answer of the redirect server.\<close>

definition redirect_reply :: "ext \<Rightarrow> fs \<Rightarrow> path \<Rightarrow> path \<Rightarrow> redirect_opts \<Rightarrow> request \<Rightarrow> response res" where
  "redirect_reply X F p404 p50x ro req =
     res_bind (redirect_to_https X req ro) (\<lambda>r.
       case r of
         Inr resp \<Rightarrow> Inr resp
       | Inl status \<Rightarrow> Inr (error_response X F (rq_method req) status p404 p50x))"

datatype run_outcome = Exited nat | Failed anyhow_error | Serving running

definition run_server_on_rt ::
  "ext \<Rightarrow> server_env \<Rightarrow> fs \<Rightarrow> server \<Rightarrow> bool \<Rightarrow> metrics \<Rightarrow> mem_cache_state option \<Rightarrow> files \<Rightarrow> run_outcome \<times> files" where
  "run_server_on_rt X S F srv exit_on_error M cell cache_files =
     (case sv_runtime S (sr_worker_threads srv) (sr_max_blocking_threads srv) of
        Inl e \<Rightarrow> (Failed e, cache_files)
      | Inr _ \<Rightarrow>
          (case start_server X S F srv M cell cache_files of
             (Inl e, files') \<Rightarrow> ((if exit_on_error then Exited 1 else Failed e), files')
           | (Inr r, files') \<Rightarrow> (Serving r, files')))"

definition run_standalone ::
  "ext \<Rightarrow> server_env \<Rightarrow> fs \<Rightarrow> server \<Rightarrow> metrics \<Rightarrow> mem_cache_state option \<Rightarrow> files \<Rightarrow> run_outcome \<times> files" where
  "run_standalone X S F srv M cell cache_files = run_server_on_rt X S F srv True M cell cache_files"

section \<open>Lemmas\<close>

lemma download_init_frame:
  "\<exists>ds. download_init formats opts = opts\<lparr>dir_listing_download := ds\<rparr>"
proof -
  have "\<exists>ds. fold (\<lambda>f o'. if f \<in> set (dir_listing_download o') then o'
      else o'\<lparr>dir_listing_download := dir_listing_download o' @ [f]\<rparr>) formats (opts\<lparr>dir_listing_download := d0\<rparr>)
      = opts\<lparr>dir_listing_download := ds\<rparr>" for d0
    by (induction formats arbitrary: d0) auto
  from this [of "dir_listing_download opts"] show ?thesis by (simp add: download_init_def)
qed

lemmas feature_defs = directory_listing_init_def fallback_init_def health_init_def log_addr_init_def
  basic_auth_init_def maintenance_mode_init_def cors_init_def metrics_init_def Let_def
lemmas response_defs = compression_static_init_def compression_init_def cache_control_init_def
  security_headers_init_def mem_cache_init_def Let_def

text \<open>What the features leave alone and what they set.\<close>

lemma init_features_sets:
  assumes "init_features X F g opts M = Inr (o', M')"
  shows "root_dir o' = root_dir opts \<and> index_files o' = index_files opts \<and> advanced_opts o' = advanced_opts opts \<and>
    disable_symlinks o' = disable_symlinks opts \<and> ignore_hidden_files o' = ignore_hidden_files opts \<and>
    has_proxy_client o' = has_proxy_client opts \<and>
    basic_auth o' = trim (g_basic_auth g) \<and> maintenance_mode o' = g_maintenance_mode g \<and>
    maintenance_mode_status o' = g_maintenance_mode_status g \<and> health o' = g_health g \<and>
    metrics_enabled o' = g_metrics g \<and> dir_listing o' = g_directory_listing g"
proof -
  let ?o1 = "directory_listing_init (g_directory_listing g) (g_directory_listing_order g) (g_directory_listing_format g) opts"
  obtain ds where ds: "download_init (g_directory_listing_download g) ?o1 = ?o1\<lparr>dir_listing_download := ds\<rparr>"
    using download_init_frame by blast
  show ?thesis
    using assms unfolding init_features_def Let_def ds
    by (auto simp: feature_defs res_bind_Inr_iff split: if_splits)
qed

lemma init_responses_sets:
  assumes "init_responses g opts cell = Inr (o', cell')"
  shows "root_dir o' = root_dir opts \<and> index_files o' = index_files opts \<and> advanced_opts o' = advanced_opts opts \<and>
    disable_symlinks o' = disable_symlinks opts \<and> ignore_hidden_files o' = ignore_hidden_files opts \<and>
    has_proxy_client o' = has_proxy_client opts \<and> basic_auth o' = basic_auth opts \<and>
    maintenance_mode o' = maintenance_mode opts \<and> maintenance_mode_status o' = maintenance_mode_status opts \<and>
    health o' = health opts \<and> metrics_enabled o' = metrics_enabled opts \<and> dir_listing o' = dir_listing opts \<and>
    security_headers o' = g_security_headers g \<and> compression o' = g_compression g"
  using assms by (auto simp: init_responses_def response_defs split: option.splits if_splits)

lemma proxy_init_sets:
  assumes "proxy_init C F opts = Inr o'"
  shows "root_dir o' = root_dir opts \<and> index_files o' = index_files opts \<and> advanced_opts o' = advanced_opts opts \<and>
    disable_symlinks o' = disable_symlinks opts \<and> ignore_hidden_files o' = ignore_hidden_files opts \<and>
    basic_auth o' = basic_auth opts \<and>
    maintenance_mode o' = maintenance_mode opts \<and> maintenance_mode_status o' = maintenance_mode_status opts \<and>
    health o' = health opts \<and> metrics_enabled o' = metrics_enabled opts \<and> dir_listing o' = dir_listing opts \<and>
    (case Option.bind (advanced_opts opts) ad_proxies of Some (_ # _) \<Rightarrow> has_proxy_client o' | _ \<Rightarrow> True)"
  using assms
  by (auto simp: proxy_init_def res_bind_Inr_iff Let_def split: option.splits if_splits list.splits)

lemma init_proxy_Inr:
  assumes "init_proxy X S F fs opts = (Inr o', fs')"
  obtains adv where "fst (resolve_rules X (sv_boot S) (sv_partial S) (sv_version S) (advanced_opts opts) fs) = Inr adv"
    "proxy_init (sv_client S) F (opts\<lparr>advanced_opts := adv\<rparr>) = Inr o'"
  using assms by (auto simp: init_proxy_def res_bind_Inr_iff split: prod.splits)

lemma resolved_rules_wf:
  assumes "fst (resolve_rules X E partial version adv fs) = Inr adv'" "Option.bind adv ad_proxies = None"
  shows "case Option.bind adv' ad_proxies of None \<Rightarrow> True | Some rules \<Rightarrow> rules \<noteq> [] \<and> list_all rule_wf rules"
proof (cases adv)
  case None
  with assms(1) show ?thesis by (simp add: resolve_rules_def)
next
  case (Some a)
  have wf: "rules \<noteq> [] \<and> list_all rule_wf rules"
    if "compile_proxy_rules X (sort_proxy_defs_by_specificity ds) = Inr rules" "ds \<noteq> []" for ds rules
  proof -
    from compile_proxy_rules_all2 [OF that(1)] have "length rules = length (sort_proxy_defs_by_specificity ds)"
      "list_all rule_wf rules"
      by (auto simp: list_all2_conv_all_nth list_all_length)
    moreover have "sort_proxy_defs_by_specificity ds \<noteq> []"
      using that(2) set_sort_by set_empty unfolding sort_proxy_defs_by_specificity_def by metis
    ultimately show ?thesis by auto
  qed
  with assms Some show ?thesis
    by (auto simp: resolve_rules_def res_bind_Inr_iff Let_def split: option.splits prod.splits if_splits dest: wf)
qed

lemma index_files_never_empty: "split_trimmed s \<noteq> []"
  by (simp add: split_trimmed_def)

section \<open>Properties\<close>

lemma start_server_built:
  assumes "start_server X S F srv M cell fs = (Inr r, fs')"
  obtains b o1 M' o2 where
    "build_handler X S F (sr_opts srv) M cell fs = (Inr b, fs')" "rn_built r = b"
    "get_valid_dirpath F (g_root (se_general (sr_opts srv))) = Inr (g_root (se_general (sr_opts srv)))"
    "init_features X F (se_general (sr_opts srv))
       (initial_opts (se_general (sr_opts srv)) (g_root (se_general (sr_opts srv))) (se_advanced (sr_opts srv))) M = Inr (o1, M')"
    "init_proxy X S F fs o1 = (Inr o2, fs')"
    "init_responses (se_general (sr_opts srv)) o2 cell = Inr (bl_opts b, bl_cache b)" "bl_metrics b = M'"
proof -
  let ?g = "se_general (sr_opts srv)"
  from assms obtain b where b: "build_handler X S F (sr_opts srv) M cell fs = (Inr b, fs')" "rn_built r = b"
    by (auto simp: start_server_def start_http2_def start_http1_def res_bind_Inr_iff Let_def
        split: sum.splits prod.splits if_splits)
  have root: "get_valid_dirpath F p = Inr q \<Longrightarrow> q = p" for p q
    by (auto simp: get_valid_dirpath_def split: if_splits)
  from b(1) obtain o1 M' o2 where
    "get_valid_dirpath F (g_root ?g) = Inr (g_root ?g)"
    "init_features X F ?g (initial_opts ?g (g_root ?g) (se_advanced (sr_opts srv))) M = Inr (o1, M')"
    "init_proxy X S F fs o1 = (Inr o2, fs')" "init_responses ?g o2 cell = Inr (bl_opts b, bl_cache b)" "bl_metrics b = M'"
    by (auto simp: build_handler_def res_bind_Inr_iff Let_def dest: root split: sum.splits prod.splits if_splits)
  with b that show thesis by blast
qed

lemma initial_opts_simps [simp]:
  "root_dir (initial_opts g root adv) = root" "index_files (initial_opts g root adv) = split_trimmed (g_index_files g)"
  "advanced_opts (initial_opts g root adv) = adv" "disable_symlinks (initial_opts g root adv) = g_disable_symlinks g"
  "ignore_hidden_files (initial_opts g root adv) = g_ignore_hidden_files g"
  by (simp_all add: initial_opts_def)

lemma started_options:
  assumes "start_server X S F srv M cell fs = (Inr r, fs')"
  defines "g \<equiv> se_general (sr_opts srv)" and "opts \<equiv> bl_opts (rn_built r)"
  shows "root_dir opts = g_root g \<and> fs_is_dir F (root_dir opts) \<and>
    index_files opts = split_trimmed (g_index_files g) \<and> basic_auth opts = trim (g_basic_auth g) \<and>
    disable_symlinks opts = g_disable_symlinks g \<and> ignore_hidden_files opts = g_ignore_hidden_files g \<and>
    maintenance_mode opts = g_maintenance_mode g \<and> maintenance_mode_status opts = g_maintenance_mode_status g \<and>
    health opts = g_health g \<and> metrics_enabled opts = g_metrics g \<and> dir_listing opts = g_directory_listing g \<and>
    security_headers opts = g_security_headers g \<and> compression opts = g_compression g"
proof -
  from assms(1) obtain b o1 M' o2 where s: "rn_built r = b"
    "get_valid_dirpath F (g_root g) = Inr (g_root g)"
    "init_features X F g (initial_opts g (g_root g) (se_advanced (sr_opts srv))) M = Inr (o1, M')"
    "init_proxy X S F fs o1 = (Inr o2, fs')" "init_responses g o2 cell = Inr (bl_opts b, bl_cache b)"
    unfolding g_def by (elim start_server_built)
  from s(4) obtain adv where p: "proxy_init (sv_client S) F (o1\<lparr>advanced_opts := adv\<rparr>) = Inr o2"
    by (elim init_proxy_Inr)
  have "fs_is_dir F (g_root g)" using s(2) by (auto simp: get_valid_dirpath_def split: if_splits)
  with s(1) init_features_sets [OF s(3)] proxy_init_sets [OF p] init_responses_sets [OF s(5)] show ?thesis
    by (simp add: opts_def)
qed

text \<open>C11. What is configured is what runs: when the server starts, the options of its handler carry the
  settings: the root is the configured one and a directory, the index files are the items of the
  option, and authentication, links, hidden files, maintenance, endpoints, listing, security headers
  and compression are as the settings say.\<close>

theorem started_handler_follows_settings:
  assumes "start_server X S F srv M cell fs = (Inr r, fs')"
  shows "root_dir (bl_opts (rn_built r)) = g_root (se_general (sr_opts srv)) \<and>
    fs_is_dir F (root_dir (bl_opts (rn_built r))) \<and>
    index_files (bl_opts (rn_built r)) = split_trimmed (g_index_files (se_general (sr_opts srv))) \<and>
    basic_auth (bl_opts (rn_built r)) = trim (g_basic_auth (se_general (sr_opts srv))) \<and>
    disable_symlinks (bl_opts (rn_built r)) = g_disable_symlinks (se_general (sr_opts srv)) \<and>
    ignore_hidden_files (bl_opts (rn_built r)) = g_ignore_hidden_files (se_general (sr_opts srv)) \<and>
    maintenance_mode (bl_opts (rn_built r)) = g_maintenance_mode (se_general (sr_opts srv)) \<and>
    maintenance_mode_status (bl_opts (rn_built r)) = g_maintenance_mode_status (se_general (sr_opts srv)) \<and>
    health (bl_opts (rn_built r)) = g_health (se_general (sr_opts srv)) \<and>
    metrics_enabled (bl_opts (rn_built r)) = g_metrics (se_general (sr_opts srv)) \<and>
    dir_listing (bl_opts (rn_built r)) = g_directory_listing (se_general (sr_opts srv)) \<and>
    security_headers (bl_opts (rn_built r)) = g_security_headers (se_general (sr_opts srv)) \<and>
    compression (bl_opts (rn_built r)) = g_compression (se_general (sr_opts srv))"
  by (rule started_options [OF assms])

lemma started_rules:
  assumes "start_server X S F srv M cell fs = (Inr r, fs')" "Option.bind (se_advanced (sr_opts srv)) ad_proxies = None"
  shows "case Option.bind (advanced_opts (bl_opts (rn_built r))) ad_proxies of
      None \<Rightarrow> True
    | Some rules \<Rightarrow> rules \<noteq> [] \<and> list_all rule_wf rules \<and> has_proxy_client (bl_opts (rn_built r))"
proof -
  let ?g = "se_general (sr_opts srv)"
  from assms(1) obtain b o1 M' o2 where s: "rn_built r = b"
    "init_features X F ?g (initial_opts ?g (g_root ?g) (se_advanced (sr_opts srv))) M = Inr (o1, M')"
    "init_proxy X S F fs o1 = (Inr o2, fs')" "init_responses ?g o2 cell = Inr (bl_opts b, bl_cache b)"
    by (elim start_server_built)
  from s(3) obtain adv where
    p: "fst (resolve_rules X (sv_boot S) (sv_partial S) (sv_version S) (advanced_opts o1) fs) = Inr adv"
      "proxy_init (sv_client S) F (o1\<lparr>advanced_opts := adv\<rparr>) = Inr o2"
    by (elim init_proxy_Inr)
  have a1: "advanced_opts o1 = se_advanced (sr_opts srv)" using init_features_sets [OF s(2)] by simp
  note sets = proxy_init_sets [OF p(2)] init_responses_sets [OF s(4)]
  from resolved_rules_wf [OF p(1)] assms(2) a1
  have "case Option.bind adv ad_proxies of None \<Rightarrow> True | Some rules \<Rightarrow> rules \<noteq> [] \<and> list_all rule_wf rules" by simp
  with sets s(1) show ?thesis
    by (auto split: option.splits list.splits)
qed

text \<open>A started server can use its proxy rules: the rules of the running handler, from the file and the
  control plane, are not empty when there are any, each has a target and a template for every
  target, and the client they need has been built; before the start there were none, as the
  settings promise.\<close>

theorem started_rules_usable:
  assumes "start_server X S F srv M cell fs = (Inr r, fs')" "Option.bind (se_advanced (sr_opts srv)) ad_proxies = None"
  shows "case Option.bind (advanced_opts (bl_opts (rn_built r))) ad_proxies of
      None \<Rightarrow> True
    | Some rules \<Rightarrow> rules \<noteq> [] \<and> list_all rule_wf rules \<and> has_proxy_client (bl_opts (rn_built r))"
  by (rule started_rules [OF assms])

text \<open>C34. HTTP/2 means TLS: a server with HTTP/2 on only starts with a configuration built from its two
  files, which were readable and fitted, and offers HTTP/2; without it there is no TLS, and the
  HTTPS redirect does not run either, whatever its options say.\<close>

theorem http2_only_with_tls:
  assumes "start_server X S F srv M cell fs = (Inr r, fs')"
  shows "if g_http2 (se_general (sr_opts srv))
    then \<exists>cert key certs c. g_http2_tls_cert (se_general (sr_opts srv)) = Some cert \<and>
      g_http2_tls_key (se_general (sr_opts srv)) = Some key \<and>
      Option.bind (fs_read F cert) (te_certs (sv_tls S)) = Some certs \<and> fs_read F key \<noteq> None \<and>
      rn_tls r = Some c \<and> tc_certs c = certs \<and> tc_alpn c = [''h2'', ''http/1.1''] \<and>
      (rn_redirect r \<noteq> None) = g_https_redirect (se_general (sr_opts srv))
    else rn_tls r = None \<and> rn_redirect r = None"
proof -
  let ?g = "se_general (sr_opts srv)"
  show ?thesis
  proof (cases "g_http2 ?g")
    case False
    with assms show ?thesis
      by (auto simp: start_server_def start_http1_def Let_def split: sum.splits prod.splits if_splits)
  next
    case True
    with assms obtain c where c: "start_tls S F ?g = Inr c" "rn_tls r = Some c"
      "(rn_redirect r \<noteq> None) = g_https_redirect ?g"
      by (auto simp: start_server_def start_http2_def res_bind_Inr_iff Let_def split: sum.splits prod.splits if_splits)
    from c(1) obtain cert key where f: "g_http2_tls_cert ?g = Some cert" "g_http2_tls_key ?g = Some key"
      "tls_build (sv_tls S) F (tls_key_path key (tls_cert_path cert tls_builder_new)) = Inr c"
      by (auto simp: start_tls_def split: option.splits sum.splits)
    from tls_build_files [of "sv_tls S" F key cert] f(3) obtain certs where
      "Option.bind (fs_read F cert) (te_certs (sv_tls S)) = Some certs" "fs_read F key \<noteq> None"
      "tc_certs c = certs" "tc_alpn c = [''h2'', ''http/1.1'']"
      by (auto simp: Let_def split: option.splits if_splits sum.splits)
    with True c f show ?thesis by auto
  qed
qed


section \<open>A start\<close>

definition start_env :: server_env where
  "start_env = \<lparr>sv_parallelism = Some 4, sv_runtime = (\<lambda>_ _. Inr ()), sv_take_tcp_listener = (\<lambda>_. Inr True),
     sv_bind = (\<lambda>_ _. True), sv_addr_str = (\<lambda>h p. h @ '':'' @ show_nat p), sv_nonblocking = (\<lambda>_. True),
     sv_from_listener = (\<lambda>_. True), sv_incoming = (\<lambda>_. True), sv_signals = True,
     sv_boot = \<lparr>be_var = (\<lambda>_. None), be_client = (\<lambda>_. Inr ()), be_request = (\<lambda>_. Inl []), be_body = (\<lambda>_. Inl []),
       be_timed_out = (\<lambda>_. False), be_url_encode = (\<lambda>s. s), be_parse_doc = (\<lambda>_. None), be_print_doc = (\<lambda>_. None),
       be_mkdir_ok = (\<lambda>_. True), be_write_ok = (\<lambda>_. True), be_rename_ok = (\<lambda>_ _. True)\<rparr>,
     sv_partial = [], sv_version = ''2'',
     sv_client = \<lparr>ce_pem_certs = (\<lambda>s. Some [s]), ce_add_root = (\<lambda>_. True), ce_webpki_roots = [''ca'']\<rparr>,
     sv_tls = \<lparr>te_certs = (\<lambda>s. Some [s]), te_key = Inr, te_single_cert = (\<lambda>_ _. None)\<rparr>\<rparr>"

definition start_general :: general where
  "start_general = general_default\<lparr>g_root := ''/srv'', g_fd := Some 3, g_http2 := True, g_basic_auth := ''u:h'',
     g_http2_tls_cert := Some ''/srv/a.html'', g_http2_tls_key := Some ''/etc/passwd'',
     g_https_redirect := True, g_index_files := ''a.html,index.html''\<rparr>"

definition start_settings :: server where
  "start_settings = \<lparr>sr_opts = \<lparr>se_general = start_general,
       se_advanced = Some (advanced_default\<lparr>ad_proxy_defs := Some [demo_entry]\<rparr>)\<rparr>,
     sr_worker_threads = 4, sr_max_blocking_threads = 512\<rparr>"

lemma start_files:
  "fs_exists demo_fs ''/srv''" "fs_is_dir demo_fs ''/srv''"
  "fs_read demo_fs ''/srv/a.html'' = Some (nd_content demo_file)" "fs_read demo_fs ''/etc/passwd'' = Some ''root''"
  by (simp_all add: fs_exists_def fs_is_dir_def fs_read_def fs_open_def fs_metadata_def walk_eval demo_fs_eval abs_path_def
      is_regular_def is_dir_node_def nd_content_def)

lemma start_proxy:
  "\<exists>o2. init_proxy demo_ext start_env demo_fs Map.empty o1 = (Inr o2, Map.empty)"
  if "advanced_opts o1 = Some (advanced_default\<lparr>ad_proxy_defs := Some [demo_entry]\<rparr>)"
proof -
  obtain r where r: "compile_proxy_rules demo_ext (sort_proxy_defs_by_specificity [demo_entry]) = Inr [r]"
    using demo_compiled by blast
  show ?thesis
    using that
    by (simp add: init_proxy_def resolve_rules_def r advanced_default_def proxy_init_def build_proxy_client_def
        build_https_connector_def proxy_settings_default_def proxy_tls_settings_default_def Let_def start_env_def)
qed

lemma start_features:
  "\<exists>o1 M'. init_features demo_ext demo_fs start_general (initial_opts start_general ''/srv'' adv) M = Inr (o1, M')"
  by (simp add: init_features_def Let_def metrics_init_def start_general_def general_default_def
      cors_init_def cors_new_def)

lemma start_responses:
  "\<exists>o3 cell'. init_responses start_general o2 None = Inr (o3, cell')"
  by (simp add: init_responses_def response_defs split: option.split)

lemma started:
  "\<exists>r. start_server demo_ext start_env demo_fs start_settings metrics_start None Map.empty = (Inr r, Map.empty)"
proof -
  let ?adv = "Some (advanced_default\<lparr>ad_proxy_defs := Some [demo_entry]\<rparr>)"
  obtain o1 M' where f: "init_features demo_ext demo_fs start_general (initial_opts start_general ''/srv'' ?adv) metrics_start
      = Inr (o1, M')" using start_features by blast
  then have a: "advanced_opts o1 = ?adv" using init_features_sets by fastforce
  obtain o2 where p: "init_proxy demo_ext start_env demo_fs Map.empty o1 = (Inr o2, Map.empty)" using start_proxy [OF a] by blast
  obtain o3 cell' where o3: "init_responses start_general o2 None = Inr (o3, cell')" using start_responses by blast
  have g: "g_root start_general = ''/srv''" "g_fd start_general = Some 3" "g_http2 start_general"
    by (simp_all add: start_general_def)
  have b: "build_handler demo_ext start_env demo_fs (sr_opts start_settings) metrics_start None Map.empty
      = (Inr \<lparr>bl_opts = o3, bl_metrics = M', bl_cache = cell'\<rparr>, Map.empty)"
    by (simp add: build_handler_def start_settings_def g get_valid_dirpath_def start_files index_files_never_empty f p o3)
  have t: "\<exists>c. start_tls start_env demo_fs start_general = Inr c"
    using tls_build_files [of "sv_tls start_env" demo_fs "''/etc/passwd''" "''/srv/a.html''"]
    by (auto simp: start_tls_def start_general_def start_files start_env_def)
  have r: "\<exists>q. start_redirect demo_ext start_env start_general = Inr q"
    by (simp add: start_redirect_def start_general_def general_default_def start_env_def index_files_never_empty)
  from b t r show ?thesis
    by (auto simp: start_server_def start_settings_def open_listener_def g start_http2_def start_env_def)
qed

theorem started_handler_follows_settings_witness:
  "\<exists>r. start_server demo_ext start_env demo_fs start_settings metrics_start None Map.empty = (Inr r, Map.empty) \<and>
     root_dir (bl_opts (rn_built r)) = ''/srv'' \<and> index_files (bl_opts (rn_built r)) = [''a.html'', ''index.html''] \<and>
     basic_auth (bl_opts (rn_built r)) = ''u:h''"
proof -
  obtain r where r: "start_server demo_ext start_env demo_fs start_settings metrics_start None Map.empty = (Inr r, Map.empty)"
    using started by blast
  have "split_trimmed ''a.html,index.html'' = [''a.html'', ''index.html'']" "trim ''u:h'' = ''u:h''"
    by (simp_all add: split_trimmed_def trim_visible visible_def)
  with started_handler_follows_settings [OF r] r show ?thesis
    by (auto simp: start_settings_def start_general_def)
qed

theorem started_rules_usable_witness:
  "\<exists>r. start_server demo_ext start_env demo_fs start_settings metrics_start None Map.empty = (Inr r, Map.empty) \<and>
     (case Option.bind (advanced_opts (bl_opts (rn_built r))) ad_proxies of
        None \<Rightarrow> True
      | Some rules \<Rightarrow> rules \<noteq> [] \<and> list_all rule_wf rules \<and> has_proxy_client (bl_opts (rn_built r)))"
proof -
  obtain r where r: "start_server demo_ext start_env demo_fs start_settings metrics_start None Map.empty = (Inr r, Map.empty)"
    using started by blast
  from started_rules_usable [OF r] r show ?thesis
    by (simp add: start_settings_def advanced_default_def)
qed

theorem http2_only_with_tls_witness:
  "\<exists>r c. start_server demo_ext start_env demo_fs start_settings metrics_start None Map.empty = (Inr r, Map.empty) \<and>
     rn_tls r = Some c \<and> tc_alpn c = [''h2'', ''http/1.1''] \<and> rn_redirect r \<noteq> None"
proof -
  obtain r where r: "start_server demo_ext start_env demo_fs start_settings metrics_start None Map.empty = (Inr r, Map.empty)"
    using started by blast
  from http2_only_with_tls [OF r] r show ?thesis
    by (auto simp: start_settings_def start_general_def)
qed

end
