(* ===== verification/Serving.thy ===== *)
theory Serving
  imports Server
begin

text \<open>
  The life of a started server: the handler that \<open>start_server\<close> built answers the requests of all
  connections (\<open>src/server.rs\<close>, \<open>src/handler.rs\<close>, \<open>src/service.rs\<close>, \<open>src/proxy.rs\<close>). Requests overlap:
  one begins, which moves the gauge, may draw from a balancer and may take a permit, and is answered
  later or dropped with its connection; tunnels end in between and give back the permits they hold.
  The options are shared by all connections; only the counters of the balancers and the permits
  change, which the steps make explicit.
\<close>

section \<open>Steps\<close>

text \<open>The request that is handed to the proxy, when the gates before it let it pass.\<close>

definition proxied_request :: "env \<Rightarrow> metrics \<Rightarrow> handler_opts \<Rightarrow> request \<Rightarrow> request option" where
  "proxied_request V M opts req =
     (if first_answer (front_checks V M) opts req \<noteq> None then None
      else if proxy_first opts then Some req
      else if redirects_pre_process (ev_ext V) (ev_fs V) opts req \<noteq> None then None
      else (case rewrites_pre_process (ev_ext V) (ev_fs V) opts req of
              (Some r, req') \<Rightarrow> None | (None, req') \<Rightarrow> Some req'))"

definition takes_permit :: "env \<Rightarrow> metrics \<Rightarrow> handler_opts \<Rightarrow> request \<Rightarrow> bool" where
  "takes_permit V M opts req =
     (case proxied_request V M opts req of
        None \<Rightarrow> False
      | Some q \<Rightarrow> find_rule (ev_ext V) opts q \<noteq> None \<and> has_proxy_client opts \<and>
          is_protocol_upgrade (ev_ext V) q \<and>
          (case upgrade_tunnel_semaphore opts of Some (Suc n) \<Rightarrow> True | _ \<Rightarrow> False))"

text \<open>A request in flight: its outcome, whether it holds a permit, and whether a tunnel will keep it.\<close>

record in_flight =
  if_request :: request
  if_result :: "response res"
  if_elapsed :: nat
  if_permit :: bool
  if_tunnel :: bool

record serving =
  sg_opts :: handler_opts
  sg_metrics :: metrics
  sg_running :: "in_flight list"
  sg_held :: nat
    \<comment> \<open>open tunnels that hold a permit\<close>
  sg_dropped :: nat
    \<comment> \<open>requests dropped before their answer\<close>

definition serving_start :: "running \<Rightarrow> serving" where
  "serving_start r = \<lparr>sg_opts = bl_opts (rn_built r), sg_metrics = bl_metrics (rn_built r), sg_running = [],
     sg_held = 0, sg_dropped = 0\<rparr>"

text \<open>
  \<open>begin_request\<close> is the part up to the first wait: the gauge, the gates, the draw from the balancer and
  the permit. What comes after depends on the environment only, so the result is determined here; a
  permit is out until the request ends, also when no tunnel will keep it.
\<close>

definition begin_request :: "env \<Rightarrow> nat \<Rightarrow> request_service \<Rightarrow> request \<Rightarrow> serving \<Rightarrow> serving" where
  "begin_request V elapsed service req s =
     (let opts = sg_opts s; M = handle_start opts (sg_metrics s); permit = takes_permit V M opts req;
          (result, req', opts') = handle_inner V M opts req (sv_remote_addr service);
          left = upgrade_tunnel_semaphore opts'; tunnel = (left \<noteq> upgrade_tunnel_semaphore opts)
      in s\<lparr>sg_opts := opts'\<lparr>upgrade_tunnel_semaphore :=
             if permit \<and> \<not> tunnel then map_option (\<lambda>n. n - 1) left else left\<rparr>,
           sg_metrics := M,
           sg_running := sg_running s @
             [\<lparr>if_request = req', if_result = result, if_elapsed = elapsed, if_permit = permit, if_tunnel = tunnel\<rparr>]\<rparr>)"

definition permit_back :: "bool \<Rightarrow> handler_opts \<Rightarrow> handler_opts" where
  "permit_back b opts =
     opts\<lparr>upgrade_tunnel_semaphore := (if b then map_option Suc else id) (upgrade_tunnel_semaphore opts)\<rparr>"

definition remove_at :: "nat \<Rightarrow> 'a list \<Rightarrow> 'a list" where
  "remove_at i xs = take i xs @ drop (Suc i) xs"

definition finish_request :: "ext \<Rightarrow> nat \<Rightarrow> serving \<Rightarrow> serving" where
  "finish_request X i s =
     (let e = sg_running s ! i
      in s\<lparr>sg_opts := permit_back (if_permit e \<and> \<not> if_tunnel e) (sg_opts s),
           sg_metrics := handle_finish X (sg_opts s) (if_request e) (if_result e) (if_elapsed e) (sg_metrics s),
           sg_running := remove_at i (sg_running s),
           sg_held := sg_held s + of_bool (if_permit e \<and> if_tunnel e)\<rparr>)"

text \<open>A request whose client goes away while it waits: the permit is dropped with it, the gauge stays.\<close>

definition drop_request :: "nat \<Rightarrow> serving \<Rightarrow> serving" where
  "drop_request i s =
     s\<lparr>sg_opts := permit_back (if_permit (sg_running s ! i)) (sg_opts s),
       sg_running := remove_at i (sg_running s), sg_dropped := Suc (sg_dropped s)\<rparr>"

inductive serving_step :: "ext \<Rightarrow> serving \<Rightarrow> serving \<Rightarrow> bool" for X where
  begun: "ev_ext V = X \<Longrightarrow> serving_step X s (begin_request V elapsed service req s)"
| answered: "i < length (sg_running s) \<Longrightarrow> serving_step X s (finish_request X i s)"
| client_gone: "i < length (sg_running s) \<Longrightarrow> serving_step X s (drop_request i s)"
| tunnel_ended: "sg_held s = Suc n \<Longrightarrow>
     serving_step X s (s\<lparr>sg_held := n, sg_opts := permit_back True (sg_opts s)\<rparr>)"

inductive_cases serving_stepE: "serving_step X s s'"

text \<open>The requests that the file server of a started server sees: any request at any time, in any well-formed file
  system, with the options of that moment.\<close>

definition server_request :: "ext \<Rightarrow> serving \<Rightarrow> requests" where
  "server_request X s F' o'' =
     (\<exists>V t req. (serving_step X)\<^sup>*\<^sup>* s t \<and> ev_ext V = X \<and> ev_fs V = F' \<and> fs_wf F' \<and> o'' = served_opts V (sg_opts t) req)"

section \<open>What requests may change\<close>

text \<open>A relation that steps respect is respected by every run.\<close>

locale respected =
  fixes R :: "'s \<Rightarrow> 's \<Rightarrow> bool"
  assumes R_refl: "R s s" and R_trans: "R s t \<Longrightarrow> R t u \<Longrightarrow> R s u"
begin

lemma run:
  assumes "step\<^sup>*\<^sup>* s t" "\<And>s t. step s t \<Longrightarrow> R s t"
  shows "R s t"
  using assms(1) by (induction rule: rtranclp_induct) (auto intro: R_refl R_trans assms(2))

end

definition rule_counted :: "proxy_rule \<Rightarrow> proxy_rule \<Rightarrow> bool" where
  "rule_counted r r' = (\<exists>c. r' = r\<lparr>pr_balancer := (pr_balancer r)\<lparr>pb_next := c\<rparr>\<rparr>)"

definition advanced_counted :: "advanced \<Rightarrow> advanced \<Rightarrow> bool" where
  "advanced_counted a a' =
     (\<exists>rules. a' = a\<lparr>ad_proxies := rules\<rparr> \<and> rel_option (list_all2 rule_counted) (ad_proxies a) rules)"

definition opts_counted :: "handler_opts \<Rightarrow> handler_opts \<Rightarrow> bool" where
  "opts_counted opts opts' =
     (\<exists>adv permits. opts' = opts\<lparr>advanced_opts := adv, upgrade_tunnel_semaphore := permits\<rparr> \<and>
        rel_option advanced_counted (advanced_opts opts) adv)"

definition permits_total :: "serving \<Rightarrow> nat option" where
  "permits_total s =
     map_option (\<lambda>n. n + length (filter if_permit (sg_running s)) + sg_held s) (upgrade_tunnel_semaphore (sg_opts s))"

definition gauge_excess :: "serving \<Rightarrow> 64 word" where
  "gauge_excess s = mx_requests_inflight (sg_metrics s) - of_nat (length (sg_running s) + sg_dropped s)"

text \<open>Only counters move, the permits add up, and the gauge follows the requests.\<close>

definition kept :: "serving \<Rightarrow> serving \<Rightarrow> bool" where
  "kept s t = (opts_counted (sg_opts s) (sg_opts t) \<and> permits_total t = permits_total s \<and>
     (metrics_enabled (sg_opts s) \<longrightarrow> gauge_excess t = gauge_excess s))"

lemma rule_counted_refl [simp]: "rule_counted r r"
  unfolding rule_counted_def by (rule exI [of _ "pb_next (pr_balancer r)"]) simp

lemma rule_counted_trans: "rule_counted r s \<Longrightarrow> rule_counted s t \<Longrightarrow> rule_counted r t"
  by (auto simp: rule_counted_def)

lemma rules_counted_refl [simp]: "rel_option (list_all2 rule_counted) rs rs"
  by (simp add: option.rel_refl list.rel_refl)

lemma rules_counted_trans:
  "rel_option (list_all2 rule_counted) r s \<Longrightarrow> rel_option (list_all2 rule_counted) s t \<Longrightarrow>
   rel_option (list_all2 rule_counted) r t"
  by (cases r; cases s; cases t) (auto intro: list_all2_trans [of rule_counted rule_counted rule_counted] rule_counted_trans)

lemma advanced_counted_refl [simp]: "advanced_counted a a"
  unfolding advanced_counted_def by (rule exI [of _ "ad_proxies a"]) simp

lemma advanced_counted_trans:
  assumes "advanced_counted a b" "advanced_counted b c"
  shows "advanced_counted a c"
proof -
  from assms obtain rs ts where "c = a\<lparr>ad_proxies := ts\<rparr>"
    "rel_option (list_all2 rule_counted) (ad_proxies a) rs" "rel_option (list_all2 rule_counted) rs ts"
    by (auto simp: advanced_counted_def)
  then show ?thesis unfolding advanced_counted_def by (blast intro: rules_counted_trans)
qed

lemma opts_counted_refl [simp]: "opts_counted opts opts"
  unfolding opts_counted_def
  by (rule exI [of _ "advanced_opts opts"], rule exI [of _ "upgrade_tunnel_semaphore opts"]) (simp add: option.rel_refl)

lemma opts_counted_trans:
  assumes "opts_counted o1 o2" "opts_counted o2 o3"
  shows "opts_counted o1 o3"
proof -
  from assms obtain a b p where o: "o3 = o1\<lparr>advanced_opts := b, upgrade_tunnel_semaphore := p\<rparr>"
    "rel_option advanced_counted (advanced_opts o1) a" "rel_option advanced_counted a b"
    by (auto simp: opts_counted_def)
  from o(2,3) have "rel_option advanced_counted (advanced_opts o1) b"
    by (cases "advanced_opts o1"; cases a; cases b) (auto intro: advanced_counted_trans)
  with o(1) show ?thesis unfolding opts_counted_def by blast
qed

lemma counted_simps:
  assumes "opts_counted opts opts'"
  shows "root_dir opts' = root_dir opts" "basic_auth opts' = basic_auth opts" "memory_cache opts' = memory_cache opts"
    "page_fallback opts' = page_fallback opts" "disable_symlinks opts' = disable_symlinks opts"
    "ignore_hidden_files opts' = ignore_hidden_files opts" "has_proxy_client opts' = has_proxy_client opts"
    "maintenance_mode opts' = maintenance_mode opts" "metrics_enabled opts' = metrics_enabled opts"
    "compression_static opts' = compression_static opts" "index_files opts' = index_files opts"
    "Option.bind (advanced_opts opts') ad_virtual_hosts = Option.bind (advanced_opts opts) ad_virtual_hosts"
  using assms by (auto simp: opts_counted_def advanced_counted_def option_rel_Some1 elim!: option.rel_cases)

interpretation keeping: respected kept
proof
  show "kept s s" for s by (simp add: kept_def)
  show "kept s u" if "kept s t" "kept t u" for s t u
    using that counted_simps(9) [of "sg_opts s" "sg_opts t"] by (auto simp: kept_def intro: opts_counted_trans)
qed

section \<open>Requests\<close>

lemma upstream_uri_counted: "upstream_uri_for_rule X rule u = (r, rule') \<Longrightarrow> rule_counted rule rule'"
  by (auto simp: upstream_uri_for_rule_def next_index_def rule_counted_def Let_def)

lemma forward_http_counted: "forward_http X up rule req remote = (r, req', rule') \<Longrightarrow> rule_counted rule rule'"
  by (auto simp: forward_http_def Let_def split: prod.splits sum.splits dest: upstream_uri_counted)

lemma forward_upgrade_inner_counted:
  "forward_upgrade_inner X up rule req remote = (r, req', rule', started) \<Longrightarrow> rule_counted rule rule'"
  by (auto simp: forward_upgrade_inner_def Let_def split: prod.splits sum.splits if_splits dest: upstream_uri_counted)

lemma forward_upgrade_counted:
  "forward_upgrade X up permits rule req remote = (r, req', rule', permits', started) \<Longrightarrow> rule_counted rule rule'"
  by (auto simp: forward_upgrade_def split: option.splits prod.splits dest: forward_upgrade_inner_counted)

lemma put_rule_counted:
  assumes "find_rule X opts req = Some (i, rule)" "rule_counted rule rule'"
  shows "opts_counted opts ((put_rule i rule' opts)\<lparr>upgrade_tunnel_semaphore := permits\<rparr>)"
proof -
  from assms(1) obtain a rules where a: "advanced_opts opts = Some a" "ad_proxies a = Some rules"
    "rules ! i = rule" "i < length rules"
    by (auto simp: find_rule_def split: option.splits Option.bind_splits)
      (use find_rule_loop_position [where k = 0] in \<open>fastforce split: option.splits prod.splits\<close>)+
  have "list_all2 rule_counted rules (rules[i := rule'])"
    using a assms(2) by (auto simp: list_all2_conv_all_nth nth_list_update)
  with a have "rel_option advanced_counted (advanced_opts opts) (advanced_opts (put_rule i rule' opts))"
    by (auto simp: put_rule_def advanced_counted_def)
  then show ?thesis unfolding opts_counted_def
    by (intro exI [of _ "advanced_opts (put_rule i rule' opts)"] exI [of _ permits]) (simp add: put_rule_def)
qed

lemma put_rule_same_permits:
  assumes "find_rule X opts req = Some (i, rule)" "rule_counted rule rule'"
  shows "opts_counted opts (put_rule i rule' opts)"
proof -
  have "(put_rule i rule' opts)\<lparr>upgrade_tunnel_semaphore := upgrade_tunnel_semaphore opts\<rparr> = put_rule i rule' opts"
    by (simp add: put_rule_def)
  with put_rule_counted [OF assms, of "upgrade_tunnel_semaphore opts"] show ?thesis by simp
qed

lemma put_rule_semaphore [simp]: "upgrade_tunnel_semaphore (put_rule i rule opts) = upgrade_tunnel_semaphore opts"
  by (simp add: put_rule_def)

lemma try_reverse_proxy_counted:
  assumes "try_reverse_proxy V opts req remote = (r, req', opts')"
  shows "opts_counted opts opts'"
proof -
  obtain p q o' where p: "proxy_pre_process (ev_ext V) (ev_up V) opts req remote = (p, q, o')"
    by (cases "proxy_pre_process (ev_ext V) (ev_up V) opts req remote")
  then have "opts_counted opts o'"
    by (auto simp: proxy_pre_process_def dest: put_rule_same_permits [OF _ forward_http_counted]
        put_rule_counted [OF _ forward_upgrade_counted] split: option.splits prod.splits if_splits)
  moreover have "opts' = o'"
    using assms p by (auto simp: try_reverse_proxy_def split: option.splits sum.splits if_splits)
  ultimately show ?thesis by simp
qed

lemma handle_inner_counted:
  assumes "handle_inner V M opts req remote = (r, req', opts')"
  shows "opts_counted opts opts'"
proof (cases "first_answer (front_checks V M) opts req")
  case (Some a)
  with assms show ?thesis by (simp add: handle_inner_front)
next
  case None
  show ?thesis
    using assms unfolding handle_inner_passed [OF None]
    by (auto simp: routing_gates_def redirecting.run redirect_gate_def pure_gate_def proxy_gate_def rewrite_gate_def
        dest: try_reverse_proxy_counted split: if_splits option.splits prod.splits)
qed

text \<open>A permit is taken by a request for an upgrade that reaches the proxy, and by no other.\<close>

lemma try_reverse_proxy_permit:
  assumes "try_reverse_proxy V opts req remote = (r, req', opts')"
  shows "upgrade_tunnel_semaphore opts' = upgrade_tunnel_semaphore opts \<or>
    find_rule (ev_ext V) opts req \<noteq> None \<and> has_proxy_client opts \<and> is_protocol_upgrade (ev_ext V) req \<and>
    (\<exists>n. upgrade_tunnel_semaphore opts = Some (Suc n) \<and> upgrade_tunnel_semaphore opts' = Some n)"
proof -
  obtain p q o' where p: "proxy_pre_process (ev_ext V) (ev_up V) opts req remote = (p, q, o')"
    by (cases "proxy_pre_process (ev_ext V) (ev_up V) opts req remote")
  moreover have "opts' = o'"
    using assms p by (auto simp: try_reverse_proxy_def split: option.splits sum.splits if_splits)
  ultimately show ?thesis
    by (auto simp: proxy_pre_process_def split: option.splits prod.splits if_splits dest!: forward_upgrade_permits)
      (auto split: if_splits option.splits simp: gr0_conv_Suc)
qed

lemma try_reverse_proxy_None: "try_reverse_proxy V opts req remote = (None, req', opts') \<Longrightarrow> req' = req \<and> opts' = opts"
  by (auto simp: try_reverse_proxy_def proxy_pre_process_def split: option.splits prod.splits sum.splits if_splits)

lemma handle_inner_permit:
  assumes "handle_inner V M opts req remote = (r, req', opts')"
  shows "upgrade_tunnel_semaphore opts' = upgrade_tunnel_semaphore opts \<or> takes_permit V M opts req \<and>
    (\<exists>n. upgrade_tunnel_semaphore opts = Some (Suc n) \<and> upgrade_tunnel_semaphore opts' = Some n)"
proof (cases "first_answer (front_checks V M) opts req")
  case (Some a)
  with assms show ?thesis by (simp add: handle_inner_front)
next
  case None
  then show ?thesis
    using assms unfolding handle_inner_passed [OF None]
    by (auto simp: routing_gates_def redirecting.run redirect_gate_def pure_gate_def proxy_gate_def rewrite_gate_def
        takes_permit_def proxied_request_def dest: try_reverse_proxy_None
        split: if_splits option.splits prod.splits)
      (auto dest!: try_reverse_proxy_permit)
qed

lemma takes_permit_left: "takes_permit V M opts req \<Longrightarrow> \<exists>n. upgrade_tunnel_semaphore opts = Some (Suc n)"
  by (auto simp: takes_permit_def split: option.splits nat.splits)

lemma counted_permits: "opts_counted opts o1 \<Longrightarrow> opts_counted opts (o1\<lparr>upgrade_tunnel_semaphore := p\<rparr>)"
  by (auto simp: opts_counted_def) blast

lemma counted_permit_back [simp]: "opts_counted opts (permit_back b opts)"
  unfolding permit_back_def by (rule counted_permits) simp

lemma permit_back_simps [simp]:
  "upgrade_tunnel_semaphore (permit_back b opts) = (if b then map_option Suc else id) (upgrade_tunnel_semaphore opts)"
  by (simp add: permit_back_def)

section \<open>Steps keep the configuration\<close>

lemma removed_counts:
  assumes "i < length xs"
  shows "length (filter P xs) = of_bool (P (xs ! i)) + length (filter P (remove_at i xs))"
    and "length xs = Suc (length (remove_at i xs))"
proof -
  from assms have x: "xs = take i xs @ xs ! i # drop (Suc i) xs" by (simp add: id_take_nth_drop)
  show "length (filter P xs) = of_bool (P (xs ! i)) + length (filter P (remove_at i xs))"
    by (subst x) (simp add: remove_at_def)
  show "length xs = Suc (length (remove_at i xs))" using assms by (simp add: remove_at_def)
qed

lemma handle_start_gauge:
  "metrics_enabled opts \<Longrightarrow> mx_requests_inflight (handle_start opts M) = mx_requests_inflight M + 1"
  by (simp add: handle_start_def)

lemma begin_request_kept: "kept s (begin_request V elapsed service req s)"
proof -
  let ?M = "handle_start (sg_opts s) (sg_metrics s)"
  obtain r q o' where h: "handle_inner V ?M (sg_opts s) req (sv_remote_addr service) = (r, q, o')"
    by (metis surj_pair)
  have "permits_total (begin_request V elapsed service req s) = permits_total s"
    using handle_inner_permit [OF h] takes_permit_left [of V ?M "sg_opts s" req]
    by (cases "takes_permit V ?M (sg_opts s) req")
      (auto simp: begin_request_def Let_def h permits_total_def)
  moreover have "gauge_excess (begin_request V elapsed service req s) = gauge_excess s" if "metrics_enabled (sg_opts s)"
    using that by (simp add: begin_request_def Let_def h gauge_excess_def handle_start_gauge)
  ultimately show ?thesis
    using handle_inner_counted [OF h] by (simp add: kept_def begin_request_def Let_def h counted_permits)
qed

lemma handle_finish_gauge:
  "metrics_enabled opts \<Longrightarrow>
   mx_requests_inflight (handle_finish X opts req res elapsed M) = mx_requests_inflight M - 1"
  by (auto simp: handle_finish_def Let_def split: sum.split)

lemma finish_request_kept:
  assumes "i < length (sg_running s)"
  shows "kept s (finish_request X i s)"
  using removed_counts [OF assms]
  by (auto simp: kept_def finish_request_def Let_def permits_total_def gauge_excess_def handle_finish_gauge
      option.map_comp comp_def)

lemma drop_request_kept:
  assumes "i < length (sg_running s)"
  shows "kept s (drop_request i s)"
  using removed_counts [OF assms]
  by (auto simp: kept_def drop_request_def permits_total_def gauge_excess_def option.map_comp comp_def)

lemma tunnel_ended_kept:
  "sg_held s = Suc n \<Longrightarrow> kept s (s\<lparr>sg_held := n, sg_opts := permit_back True (sg_opts s)\<rparr>)"
  by (auto simp: kept_def permits_total_def gauge_excess_def option.map_comp comp_def)

lemma serving_step_kept: "serving_step X s t \<Longrightarrow> kept s t"
  by (elim serving_stepE) (simp_all only: begin_request_kept finish_request_kept drop_request_kept tunnel_ended_kept)

lemma serving_kept: "(serving_step X)\<^sup>*\<^sup>* s t \<Longrightarrow> kept s t"
  by (erule keeping.run) (rule serving_step_kept)

text \<open>The parts of a request put together: one that is not interrupted is the call of the service.\<close>

lemma remove_at_last [simp]: "remove_at (length xs) (xs @ [x]) = xs"
  by (simp add: remove_at_def)

lemma finish_last:
  "finish_request X (length (sg_running s)) (s\<lparr>sg_opts := opts, sg_metrics := M, sg_running := sg_running s @ [e]\<rparr>) =
   s\<lparr>sg_opts := permit_back (if_permit e \<and> \<not> if_tunnel e) opts,
     sg_metrics := handle_finish X opts (if_request e) (if_result e) (if_elapsed e) M,
     sg_held := sg_held s + of_bool (if_permit e \<and> if_tunnel e)\<rparr>"
  by (simp add: finish_request_def Let_def)

theorem uninterrupted_request_is_call:
  assumes "request_service_call V elapsed (sg_opts s) (sg_metrics s) service req = (log, res, opts', M')"
  shows "if_result (last (sg_running (begin_request V elapsed service req s))) = res \<and>
    (\<exists>held. finish_request (ev_ext V) (length (sg_running s)) (begin_request V elapsed service req s) =
       s\<lparr>sg_opts := opts', sg_metrics := M', sg_held := held\<rparr>)"
proof -
  let ?M = "handle_start (sg_opts s) (sg_metrics s)"
  obtain q where h: "handle_inner V ?M (sg_opts s) req (sv_remote_addr service) = (res, q, opts')"
    and M': "M' = handle_finish (ev_ext V) (sg_opts s) q res elapsed ?M"
    using assms by (auto simp: request_service_call_def handle_request_def Let_def split: prod.splits)
  define permit tunnel where "permit \<longleftrightarrow> takes_permit V ?M (sg_opts s) req"
    and "tunnel \<longleftrightarrow> upgrade_tunnel_semaphore opts' \<noteq> upgrade_tunnel_semaphore (sg_opts s)"
  define left where "left = (if permit \<and> \<not> tunnel then map_option (\<lambda>n. n - 1) (upgrade_tunnel_semaphore opts')
    else upgrade_tunnel_semaphore opts')"
  let ?e = "\<lparr>if_request = q, if_result = res, if_elapsed = elapsed, if_permit = permit, if_tunnel = tunnel\<rparr>"
  have b: "begin_request V elapsed service req s = s\<lparr>sg_opts := opts'\<lparr>upgrade_tunnel_semaphore := left\<rparr>,
      sg_metrics := ?M, sg_running := sg_running s @ [?e]\<rparr>"
    by (simp add: begin_request_def Let_def h left_def permit_def tunnel_def)
  have "(if permit \<and> \<not> tunnel then map_option Suc else id) left = upgrade_tunnel_semaphore opts'"
    using takes_permit_left [of V ?M "sg_opts s" req] by (auto simp: left_def permit_def tunnel_def)
  then have pb: "permit_back (permit \<and> \<not> tunnel) (opts'\<lparr>upgrade_tunnel_semaphore := left\<rparr>) = opts'"
    by (simp add: permit_back_def)
  have e: "handle_finish (ev_ext V) (opts'\<lparr>upgrade_tunnel_semaphore := left\<rparr>) q res elapsed ?M = M'"
    using counted_simps(9) [OF handle_inner_counted [OF h]] by (simp add: M' handle_finish_def)
  from pb e show ?thesis unfolding b finish_last
    by (intro conjI exI [of _ "sg_held s + of_bool (permit \<and> tunnel)"]) simp_all
qed

section \<open>What the start leaves to its defaults\<close>

lemma init_features_rest:
  assumes "init_features X F g opts M = Inr (o', M')"
  shows "memory_cache o' = memory_cache opts" "\<not> fs_is_file F (g_page_fallback g) \<Longrightarrow> page_fallback o' = page_fallback opts"
proof -
  let ?o1 = "directory_listing_init (g_directory_listing g) (g_directory_listing_order g) (g_directory_listing_format g) opts"
  obtain ds where ds: "download_init (g_directory_listing_download g) ?o1 = ?o1\<lparr>dir_listing_download := ds\<rparr>"
    using download_init_frame by blast
  show "memory_cache o' = memory_cache opts" "\<not> fs_is_file F (g_page_fallback g) \<Longrightarrow> page_fallback o' = page_fallback opts"
    using assms unfolding init_features_def Let_def ds
    by (auto simp: feature_defs res_bind_Inr_iff split: if_splits)
qed

lemma proxy_init_rest:
  "proxy_init C F opts = Inr o' \<Longrightarrow> memory_cache o' = memory_cache opts \<and> page_fallback o' = page_fallback opts"
  by (auto simp: proxy_init_def res_bind_Inr_iff Let_def split: option.splits if_splits)

lemma init_responses_rest:
  "init_responses g opts cell = Inr (o', cell') \<Longrightarrow>
   (Option.bind (advanced_opts opts) ad_memory_cache = None \<longrightarrow> memory_cache o' = memory_cache opts) \<and>
   page_fallback o' = page_fallback opts"
  by (auto simp: init_responses_def response_defs split: option.splits if_splits)

lemma resolve_rules_rest:
  assumes "fst (resolve_rules X E partial version adv fs) = Inr adv'"
  shows "Option.bind adv' ad_virtual_hosts = Option.bind adv ad_virtual_hosts \<and>
    Option.bind adv' ad_memory_cache = Option.bind adv ad_memory_cache"
proof (cases adv)
  case None
  with assms show ?thesis by (simp add: resolve_rules_def)
next
  case (Some a)
  let ?remote = "case ad_routes_bootstrap a of None \<Rightarrow> (Inr None, fs)
    | Some bootstrap \<Rightarrow> fetch_routes_defs X E partial bootstrap version (ps_tls (ad_proxy_settings a)) fs"
  obtain remote fs' where "?remote = (remote, fs')" by (cases ?remote)
  with assms Some show ?thesis
    by (cases "ad_proxies a") (auto simp: resolve_rules_def res_bind_Inr_iff Let_def split: if_splits)
qed

lemma started_rest:
  assumes "start_server X S F srv M cell fs = (Inr r, fs')"
  defines "g \<equiv> se_general (sr_opts srv)" and "adv \<equiv> se_advanced (sr_opts srv)" and "opts \<equiv> bl_opts (rn_built r)"
  shows "Option.bind (advanced_opts opts) ad_virtual_hosts = Option.bind adv ad_virtual_hosts"
    and "Option.bind adv ad_memory_cache = None \<Longrightarrow> memory_cache opts = None"
    and "\<not> fs_is_file F (g_page_fallback g) \<Longrightarrow> page_fallback opts = []"
proof -
  from assms(1) obtain b o1 M' o2 where s: "rn_built r = b"
    "init_features X F g (initial_opts g (g_root g) adv) M = Inr (o1, M')"
    "init_proxy X S F fs o1 = (Inr o2, fs')" "init_responses g o2 cell = Inr (bl_opts b, bl_cache b)"
    unfolding g_def adv_def by (elim start_server_built)
  from s(3) obtain adv' where
    p: "fst (resolve_rules X (sv_boot S) (sv_partial S) (sv_version S) (advanced_opts o1) fs) = Inr adv'"
      "proxy_init (sv_client S) F (o1\<lparr>advanced_opts := adv'\<rparr>) = Inr o2"
    by (elim init_proxy_Inr)
  have a1: "advanced_opts o1 = adv" using init_features_sets [OF s(2)] by simp
  have a2: "advanced_opts o2 = adv'" "advanced_opts (bl_opts b) = adv'"
    using proxy_init_sets [OF p(2)] init_responses_sets [OF s(4)] by simp_all
  have i: "memory_cache (initial_opts g (g_root g) adv) = None" "page_fallback (initial_opts g (g_root g) adv) = []"
    by (simp_all add: initial_opts_def handler_opts_default_def)
  note rest = init_features_rest [OF s(2)] proxy_init_rest [OF p(2)] init_responses_rest [OF s(4)]
    resolve_rules_rest [OF p(1)]
  show "Option.bind (advanced_opts opts) ad_virtual_hosts = Option.bind adv ad_virtual_hosts"
    using rest a1 a2 s(1) by (simp add: opts_def)
  show "memory_cache opts = None" if "Option.bind adv ad_memory_cache = None"
    using rest a1 a2 s(1) i that by (simp add: opts_def)
  show "page_fallback opts = []" if "\<not> fs_is_file F (g_page_fallback g)"
    using rest s(1) i that by (simp add: opts_def)
qed

section \<open>What runs stays as it was configured\<close>

lemma counted_rules:
  assumes "opts_counted opts opts'" "Option.bind (advanced_opts opts') ad_proxies = Some rules'"
  obtains rules where "Option.bind (advanced_opts opts) ad_proxies = Some rules" "list_all2 rule_counted rules rules'"
  using assms by (auto simp: opts_counted_def advanced_counted_def option_rel_Some2 elim!: option.rel_cases)

lemma counted_rule_wf: "rule_counted r r' \<Longrightarrow> rule_wf r' = rule_wf r"
  by (auto simp: rule_counted_def rule_wf_def balancer_len_def)

lemma counted_rules_wf: "list_all2 rule_counted rs rs' \<Longrightarrow> list_all rule_wf rs \<Longrightarrow> list_all rule_wf rs'"
  by (auto simp: list_all2_conv_all_nth list_all_length counted_rule_wf)

lemma wf_rule_upstream:
  assumes "rule_wf rule"
  shows "\<exists>t \<in> set (pr_uri_templates rule).
    fst (upstream_uri_for_rule X rule q) = build_upstream_uri_from_template X t q"
proof -
  let ?n = "length (pb_targets (pr_balancer rule))"
  have "unat (pb_next (pr_balancer rule)) mod ?n < ?n" "length (pr_uri_templates rule) = ?n"
    using assms by (auto simp: rule_wf_def balancer_len_def)
  then show ?thesis by (auto simp: upstream_uri_for_rule_def next_index_def intro!: nth_mem)
qed

text \<open>C10. A running server keeps its configuration, however its requests overlap: whatever requests it has
  begun, answered or lost and tunnels it has closed, its options are those of the start but for the
  counters of the balancers and the permits left; with a limit on tunnels the permits left, those of
  waiting requests and those of open tunnels add up to it; and with metrics on, the gauge counts the
  requests in flight and those that were dropped.\<close>

theorem serving_keeps_configuration:
  assumes "(serving_step X)\<^sup>*\<^sup>* (serving_start r) s"
  shows "opts_counted (bl_opts (rn_built r)) (sg_opts s) \<and>
    (case upgrade_tunnel_semaphore (bl_opts (rn_built r)) of
       None \<Rightarrow> upgrade_tunnel_semaphore (sg_opts s) = None
     | Some limit \<Rightarrow> (\<exists>k. upgrade_tunnel_semaphore (sg_opts s) = Some k \<and>
         k + length (filter if_permit (sg_running s)) + sg_held s = limit)) \<and>
    (if metrics_enabled (bl_opts (rn_built r))
     then mx_requests_inflight (sg_metrics s) =
       mx_requests_inflight (bl_metrics (rn_built r)) + of_nat (length (sg_running s) + sg_dropped s)
     else True)"
  using serving_kept [OF assms]
  by (auto simp: kept_def serving_start_def permits_total_def gauge_excess_def algebra_simps split: option.split)

end
