(* ===== verification/Program.thy ===== *)
theory Program
  imports Serving
begin

text \<open>
  The program (\<open>src/bin/server.rs\<close>): the settings are read, the version or the generated files are
  written instead when asked for, and otherwise the server starts. Writing the generated files and the
  constants of the build are parameters. Then what the start and the life of the server keep of the
  settings, for the properties of the whole.
\<close>

section \<open>The main function\<close>

datatype rendered = Completions | Man_Pages

text \<open>Both kinds of files are written unless one of them is asked for alone.\<close>

fun generate :: "(rendered \<Rightarrow> path \<Rightarrow> unit res) \<Rightarrow> commands \<Rightarrow> unit res" where
  "generate render (Generate completions man_pages out_dir) =
     res_bind (if completions \<or> \<not> man_pages then render Completions (path_push out_dir ''completions'') else Inr ()) (\<lambda>_.
       if man_pages \<or> \<not> completions then render Man_Pages (path_push out_dir ''man'') else Inr ())"

text \<open>
  \<open>display_version\<close> (\<open>src/settings/cli_output.rs\<close>): the lines it prints. The constants are recorded by the
  build; \<open>bi_fips\<close> is whether the FIPS mode was compiled in and can be turned on.
\<close>

record build_info =
  bi_pkg_version :: string
  bi_commit_date :: string
  bi_commit_hash :: string
  bi_build_target :: string
  bi_fips :: bool
  bi_rust_version :: string
  bi_license :: string
  bi_homepage :: string
  bi_authors :: string

definition display_version :: "build_info \<Rightarrow> string list" where
  "display_version B =
     [''Version:      '' @ bi_pkg_version B, ''Built:        '' @ bi_commit_date B,
      ''Git commit:   '' @ bi_commit_hash B, ''Build target: '' @ bi_build_target B]
     @ (if bi_fips B
        then [''FIPS Mode:'', ''  Module Version:   AWS-LC-FIPS 3.0.x'',
              ''  Crypto Provider:  aws-lc-rs (via aws-lc-fips-sys)'']
        else [])
     @ [''Rust version: '' @ bi_rust_version B, ''License:      '' @ bi_license B,
        ''Homepage:     '' @ bi_homepage B, ''Author:       '' @ bi_authors B]"

datatype outcome = Version_Shown "string list" | Generated | Ran run_outcome | Main_Error anyhow_error

definition main ::
  "ext \<Rightarrow> settings_env \<Rightarrow> server_env \<Rightarrow> fs \<Rightarrow> (rendered \<Rightarrow> path \<Rightarrow> unit res) \<Rightarrow> build_info \<Rightarrow> given \<Rightarrow> environment
   \<Rightarrow> commands option \<Rightarrow> files \<Rightarrow> outcome \<times> files" where
  "main X T S F render B A E cmds cache_files =
     (case parse_from X T F True A E cmds of
        Inl e \<Rightarrow> (Main_Error e, cache_files)
      | Inr opts \<Rightarrow>
          if g_version (se_general opts) then (Version_Shown (display_version B), cache_files)
          else
            (case g_commands (se_general opts) of
               Some c \<Rightarrow> ((case generate render c of Inl e \<Rightarrow> Main_Error e | Inr _ \<Rightarrow> Generated), cache_files)
             | None \<Rightarrow>
                 (case server_new S opts of
                    Inl e \<Rightarrow> (Main_Error e, cache_files)
                  | Inr srv \<Rightarrow>
                      (case run_standalone X S F srv metrics_start None cache_files of
                         (o', files') \<Rightarrow> (Ran o', files')))))"

section \<open>A server that runs was started from its settings\<close>

lemma server_new_opts: "server_new S opts = Inr srv \<Longrightarrow> sr_opts srv = opts"
  by (auto simp: server_new_def Let_def split: option.splits)

lemma main_serving:
  assumes "main X T S F render B A E cmds cache_files = (Ran (Serving r), files')"
  obtains opts srv where "parse_from X T F True A E cmds = Inr opts" "sr_opts srv = opts"
    "start_server X S F srv metrics_start None cache_files = (Inr r, files')"
  using assms
  by (auto simp: main_def run_standalone_def run_server_on_rt_def dest: server_new_opts
      split: sum.splits option.splits prod.splits if_splits)

lemma parsed_without_rules:
  assumes "parse_from X T F log_init A E cmds = Inr opts"
  shows "Option.bind (se_advanced opts) ad_proxies = None"
proof (cases "se_advanced opts")
  case (Some a)
  from assms have "\<exists>g. settings_from X T F log_init g = Inr opts"
    by (auto simp: parse_from_def res_bind_Inr_iff)
  with Some settings_from_advanced have "advanced_wf X F a" by blast
  with Some show ?thesis by (simp add: advanced_wf_def)
qed simp

lemma serving_counted: "(serving_step X)\<^sup>*\<^sup>* (serving_start r) t \<Longrightarrow> opts_counted (bl_opts (rn_built r)) (sg_opts t)"
  using serving_kept [of X "serving_start r" t] by (simp add: kept_def serving_start_def)

text \<open>What the options of a running server keep of the settings that were read.\<close>

lemma running_options:
  assumes "main X T S F render B A E cmds cache_files = (Ran (Serving r), files')"
    and "parse_from X T F True A E cmds = Inr opts" "(serving_step X)\<^sup>*\<^sup>* (serving_start r) t"
  defines "g \<equiv> se_general opts" and "adv \<equiv> se_advanced opts"
  shows "basic_auth (sg_opts t) = trim (g_basic_auth g)" "root_dir (sg_opts t) = g_root g"
    "disable_symlinks (sg_opts t) = g_disable_symlinks g" "ignore_hidden_files (sg_opts t) = g_ignore_hidden_files g"
    "index_files (sg_opts t) = split_trimmed (g_index_files g)"
    "Option.bind (advanced_opts (sg_opts t)) ad_virtual_hosts = Option.bind adv ad_virtual_hosts"
    "Option.bind adv ad_memory_cache = None \<Longrightarrow> memory_cache (sg_opts t) = None"
    "\<not> fs_is_file F (g_page_fallback g) \<Longrightarrow> page_fallback (sg_opts t) = []"
proof -
  from assms(1,2) obtain srv where s: "sr_opts srv = opts"
    "start_server X S F srv metrics_start None cache_files = (Inr r, files')"
    by (auto elim!: main_serving)
  note rest = counted_simps [OF serving_counted [OF assms(3)]] started_options [OF s(2)] started_rest [OF s(2)] s(1)
  show "basic_auth (sg_opts t) = trim (g_basic_auth g)" "root_dir (sg_opts t) = g_root g"
    "disable_symlinks (sg_opts t) = g_disable_symlinks g" "ignore_hidden_files (sg_opts t) = g_ignore_hidden_files g"
    "index_files (sg_opts t) = split_trimmed (g_index_files g)"
    "Option.bind (advanced_opts (sg_opts t)) ad_virtual_hosts = Option.bind adv ad_virtual_hosts"
    using rest by (simp_all add: g_def adv_def)
  show "memory_cache (sg_opts t) = None" if "Option.bind adv ad_memory_cache = None"
    using rest that by (simp add: adv_def)
  show "page_fallback (sg_opts t) = []" if "\<not> fs_is_file F (g_page_fallback g)"
    using rest that by (simp add: g_def)
qed

lemma running_rules:
  assumes "main X T S F render B A E cmds cache_files = (Ran (Serving r), files')"
    and "(serving_step X)\<^sup>*\<^sup>* (serving_start r) t" "find_rule X (sg_opts t) req = Some (i, rule)"
  shows "rule_wf rule" "has_proxy_client (sg_opts t)"
proof -
  from assms(1) obtain opts srv where p: "parse_from X T F True A E cmds = Inr opts" "sr_opts srv = opts"
    "start_server X S F srv metrics_start None cache_files = (Inr r, files')" by (rule main_serving)
  have n: "Option.bind (se_advanced (sr_opts srv)) ad_proxies = None" using parsed_without_rules [OF p(1)] p(2) by simp
  note c = serving_counted [OF assms(2)]
  from assms(3) obtain rules where r: "Option.bind (advanced_opts (sg_opts t)) ad_proxies = Some rules" "rule \<in> set rules"
    by (auto simp: find_rule_def split: option.splits Option.bind_splits)
      (use find_rule_loop_position [where k = 0] in \<open>fastforce split: option.splits prod.splits\<close>)+
  from counted_rules [OF c r(1)] obtain rs where
    rs: "Option.bind (advanced_opts (bl_opts (rn_built r))) ad_proxies = Some rs" "list_all2 rule_counted rs rules" .
  from started_rules [OF p(3) n] rs(1) have w: "list_all rule_wf rs" "has_proxy_client (bl_opts (rn_built r))" by simp_all
  show "rule_wf rule" using counted_rules_wf [OF rs(2) w(1)] r(2) by (simp add: list_all_iff)
  show "has_proxy_client (sg_opts t)" using counted_simps(7) [OF c] w(2) by simp
qed

text \<open>The roots of the settings: the one of the server and those of its virtual hosts.\<close>

definition configured_roots :: "settings \<Rightarrow> path list" where
  "configured_roots opts =
     g_root (se_general opts) #
       (case Option.bind (se_advanced opts) ad_virtual_hosts of Some vs \<Rightarrow> map vh_root vs | None \<Rightarrow> [])"

lemma vhost_loop_root: "vhost_loop host vs = Some v \<Longrightarrow> vh_root v \<in> set (map vh_root vs)"
  by (induction vs) (auto split: if_splits)

lemma selected_root_configured:
  assumes "root_dir opts = g_root (se_general s)"
    "Option.bind (advanced_opts opts) ad_virtual_hosts = Option.bind (se_advanced s) ad_virtual_hosts"
  shows "selected_root X opts req \<in> set (configured_roots s)"
proof (cases "advanced_opts opts")
  case None
  with assms(1) show ?thesis by (simp add: selected_root_def configured_roots_def)
next
  case (Some a)
  have "get_real_root X req (ad_virtual_hosts a) = Some root \<Longrightarrow> root \<in> set (configured_roots s)" for root
    using assms(2) Some vhost_loop_root
    by (auto simp: get_real_root_def configured_roots_def split: option.splits if_splits)
  with Some assms(1) show ?thesis
    by (auto simp: selected_root_def configured_roots_def split: option.split)
qed

section \<open>A run\<close>

definition live_build :: build_info where
  "live_build = \<lparr>bi_pkg_version = ''1.2.0'', bi_commit_date = [], bi_commit_hash = [], bi_build_target = [],
     bi_fips = False, bi_rust_version = [], bi_license = [], bi_homepage = [], bi_authors = []\<rparr>"

text \<open>The root and the credentials on the command line, a proxy rule in the configuration file.\<close>

definition live_given :: given where
  "live_given n =
     (if n = ''root'' then Some (Some ''/srv'') else if n = ''basic-auth'' then Some (Some ''u:h'') else None)"

definition live_fs :: fs where
  "live_fs = demo_fs\<lparr>fs_nodes := ([''config.toml''], demo_file\<lparr>nd_kind := Regular ''conf''\<rparr>) # fs_nodes demo_fs\<rparr>"

definition live_advanced :: file_advanced where
  "live_advanced = conf_advanced\<lparr>fa_virtual_hosts := None, fa_proxies := Some [demo_entry],
     fa_proxy_first := None, fa_max_upgrade_tunnels := Some 2\<rparr>"

definition live_env :: settings_env where
  "live_env = conf_env\<lparr>st_parse_toml := (\<lambda>t. if t = ''conf'' then
       Some \<lparr>fs_general = None, fs_advanced = Some live_advanced\<rparr> else None)\<rparr>"

definition live_general :: general where
  "live_general = general_default\<lparr>g_root := ''/srv'', g_basic_auth := ''u:h''\<rparr>"

lemma live_explicit:
  "explicit live_given (\<lambda>_. None) n =
     (if n = ''root'' then Some ''/srv'' else if n = ''basic-auth'' then Some ''u:h'' else None)"
proof -
  have "map_of ARGS ''root'' \<noteq> None" "map_of ARGS ''basic-auth'' \<noteq> None"
    by (simp_all add: ARGS_simps)
  then show ?thesis by (auto simp: explicit_def live_given_def split: option.split)
qed

lemma live_parsed: "general_parse X live_given (\<lambda>_. None) None = Inr live_general"
proof -
  have v: "arg_value live_given (\<lambda>_. None) n =
      (if n = ''root'' then Some ''/srv'' else if n = ''basic-auth'' then Some ''u:h''
       else Option.bind (map_of ARGS n) as_default)" for n
    by (simp add: arg_value_def live_explicit)
  have "live_given n \<noteq> Some None" for n by (simp add: live_given_def)
  then have c: "constraints_hold live_given (\<lambda>_. None)"
    by (simp add: constraints_hold_def live_explicit value_missing_def CONFLICTS_def REQUIRED_IF_def REQUIRES_IF_def
        list_all_iff)
  show ?thesis
    by (simp add: general_parse_def c one_def opt_def many_def v arg_defaults numeral_values usize_bounds
        default_parsers value_parser_pathbuf_def value_parser_status_code_def status_from_u16_def general_default_def
        live_general_def del: One_nat_def)
qed

lemma live_files:
  "fs_is_file live_fs ''./config.toml''" "\<not> fs_is_file live_fs ''./weavegate.toml''"
  "\<not> fs_is_file live_fs ''./sws.toml''" "\<not> fs_is_file live_fs ''./edgegate.toml''"
  "fs_canonicalize live_fs ''./config.toml'' = Inr ''/config.toml''"
  "fs_read live_fs ''/config.toml'' = Some ''conf''"
  "fs_exists live_fs ''/srv''" "fs_is_dir live_fs ''/srv''" "\<not> fs_is_file live_fs []"
  by (simp_all add: fs_is_file_def fs_read_def fs_open_def fs_metadata_def fs_exists_def fs_is_dir_def walk_eval
      live_fs_def demo_fs_eval abs_path_def is_regular_def is_dir_node_def nd_content_def)

lemma live_found:
  "read_file_settings live_env live_fs (to_use_config_file live_fs g) =
     Inr (Some (\<lparr>fs_general = None, fs_advanced = Some live_advanced\<rparr>, ''/config.toml''))"
proof -
  have "path_extension ''/config.toml'' = Some ''toml''" by code_simp
  moreover have "read_file live_fs ''/config.toml'' = Inr ''conf''"
    using valid_utf8_ascii [of "''conf''"] by (simp add: read_file_def read_bytes_def live_files)
  ultimately show ?thesis
    by (simp add: to_use_config_file_def live_files read_file_settings_def file_settings_read_def read_toml_file_def
        live_env_def conf_env_def)
qed

definition live_settings :: settings where
  "live_settings =
     \<lparr>se_general = live_general\<lparr>g_config_file := ''/config.toml''\<rparr>,
      se_advanced = Some (advanced_default\<lparr>ad_proxy_defs := Some [demo_entry],
        ad_proxy_settings := proxy_settings_default\<lparr>ps_max_upgrade_tunnels := Some 2\<rparr>\<rparr>)\<rparr>"

lemma live_logger: "g_log_level g = ''error'' \<Longrightarrow> init_logger demo_ext live_env log_init g = Inr ()"
proof -
  have "to_ascii_lowercase ''error'' = ''error''" by code_simp
  then show "g_log_level g = ''error'' \<Longrightarrow> ?thesis"
    by (simp add: init_logger_def logger_init_def configure_logger_def demo_ext_def live_env_def conf_env_def)
qed

lemma live_settings_read:
  "parse_from demo_ext live_env live_fs True live_given (\<lambda>_. None) None = Inr live_settings"
  by (simp add: parse_from_def live_parsed settings_from_def live_found live_logger live_general_def general_default_def
      live_settings_def compile_advanced_def live_advanced_def conf_advanced_def compile_list_def advanced_default_def
      proxy_settings_default_def or_default_def)

text \<open>The options of its handler.\<close>

definition live_opts :: "proxy_rule \<Rightarrow> handler_opts" where
  "live_opts rule = handler_opts_default\<lparr>root_dir := ''/srv'', page404 := ''/srv/./404.html'', page50x := ''/srv/./50x.html'',
     basic_auth := ''u:h'', ignore_hidden_files := True, disable_symlinks := True,
     advanced_opts := Some (advanced_default\<lparr>ad_proxy_defs := Some [demo_entry], ad_proxies := Some [rule],
       ad_proxy_settings := proxy_settings_default\<lparr>ps_max_upgrade_tunnels := Some 2\<rparr>\<rparr>),
     has_proxy_client := True, proxy_settings_opt := Some (proxy_settings_default\<lparr>ps_max_upgrade_tunnels := Some 2\<rparr>),
     upgrade_tunnel_semaphore := Some 2\<rparr>"

lemma live_built:
  "\<exists>rule. compile_proxy_rules demo_ext (sort_proxy_defs_by_specificity [demo_entry]) = Inr [rule] \<and>
     build_handler demo_ext start_env live_fs live_settings metrics_start None Map.empty =
       (Inr \<lparr>bl_opts = live_opts rule, bl_metrics = metrics_start, bl_cache = None\<rparr>, Map.empty)"
proof -
  obtain rule where r: "compile_proxy_rules demo_ext (sort_proxy_defs_by_specificity [demo_entry]) = Inr [rule]"
    using demo_compiled by blast
  let ?g = "se_general live_settings" and ?adv = "se_advanced live_settings"
  let ?o1 = "(live_opts rule)\<lparr>advanced_opts := ?adv, has_proxy_client := False, proxy_settings_opt := None,
    upgrade_tunnel_semaphore := None\<rparr>"
  have pages: "page_below_root ''/srv'' ''./404.html'' = ''/srv/./404.html''"
    "page_below_root ''/srv'' ''./50x.html'' = ''/srv/./50x.html''" by code_simp+
  have trim: "trim ''u:h'' = ''u:h''" "split_trimmed ''index.html'' = [''index.html'']"
    by (simp_all add: split_trimmed_def trim_visible visible_def)
  have f: "init_features demo_ext live_fs ?g (initial_opts ?g ''/srv'' ?adv) metrics_start = Inr (?o1, metrics_start)"
    by (simp add: init_features_def Let_def feature_defs download_init_def cors_new_def cors_build_def live_files
        pages trim initial_opts_def live_settings_def
        live_general_def general_default_def live_opts_def handler_opts_default_def)
  have p: "init_proxy demo_ext start_env live_fs Map.empty ?o1 = (Inr (live_opts rule), Map.empty)"
    by (simp add: init_proxy_def resolve_rules_def r advanced_default_def proxy_init_def build_proxy_client_def
        build_https_connector_def proxy_settings_default_def proxy_tls_settings_default_def Let_def start_env_def
        live_settings_def live_opts_def)
  have o3: "init_responses ?g (live_opts rule) None = Inr (live_opts rule, None)"
    by (simp add: init_responses_def response_defs live_settings_def live_general_def general_default_def live_opts_def
        handler_opts_default_def advanced_default_def)
  have "g_root ?g = ''/srv''" by (simp add: live_settings_def live_general_def)
  then show ?thesis
    by (intro exI [of _ rule] conjI r)
      (simp add: build_handler_def get_valid_dirpath_def live_files index_files_never_empty f p o3)
qed

lemma live_run:
  "\<exists>rule r. compile_proxy_rules demo_ext (sort_proxy_defs_by_specificity [demo_entry]) = Inr [rule] \<and>
     main demo_ext live_env start_env live_fs (\<lambda>_ _. Inr ()) live_build live_given (\<lambda>_. None) None Map.empty
       = (Ran (Serving r), Map.empty) \<and> bl_opts (rn_built r) = live_opts rule"
proof -
  obtain rule where b: "compile_proxy_rules demo_ext (sort_proxy_defs_by_specificity [demo_entry]) = Inr [rule]"
    "build_handler demo_ext start_env live_fs live_settings metrics_start None Map.empty =
       (Inr \<lparr>bl_opts = live_opts rule, bl_metrics = metrics_start, bl_cache = None\<rparr>, Map.empty)"
    using live_built by blast
  let ?srv = "\<lparr>sr_opts = live_settings, sr_worker_threads = 4, sr_max_blocking_threads = 512\<rparr>"
  have g: "\<not> g_version (se_general live_settings)" "g_commands (se_general live_settings) = None"
    "g_fd (se_general live_settings) = None" "g_host (se_general live_settings) = ''::''" "\<not> g_http2 (se_general live_settings)"
    "g_threads_multiplier (se_general live_settings) = 1" "g_max_blocking_threads (se_general live_settings) = 512"
    by (simp_all add: live_settings_def live_general_def general_default_def)
  have n: "server_new start_env live_settings = Inr ?srv"
    by (simp add: server_new_def start_env_def g)
  have "x_parse_ip demo_ext ''::'' = Some ''::''" by (simp add: demo_ext_def)
  then obtain l addr where l: "open_listener demo_ext start_env (se_general live_settings) = Inr (l, addr)"
    by (simp add: open_listener_def g start_env_def)
  have "\<exists>r. start_server demo_ext start_env live_fs ?srv metrics_start None Map.empty = (Inr r, Map.empty) \<and>
      bl_opts (rn_built r) = live_opts rule"
    by (simp add: start_server_def l b(2) g start_http1_def) (simp add: start_env_def)
  then obtain r where r: "start_server demo_ext start_env live_fs ?srv metrics_start None Map.empty = (Inr r, Map.empty)"
    "bl_opts (rn_built r) = live_opts rule" by blast
  have "sv_runtime start_env k m = Inr ()" for k m by (simp add: start_env_def)
  with r n b(1) g show ?thesis
    by (auto simp: main_def live_settings_read run_standalone_def run_server_on_rt_def)
qed

lemma live_serves:
  "\<exists>r. serve_static demo_env (live_opts rule) (demo_request ''GET'' ''/docs/'' []) = Inr r \<and> rs_status r = 200"
proof -
  obtain resp q where h: "handle demo_ext demo_fs Map.empty False (demo_handle ''/docs/'') = Inr (resp, q)" "rs_status resp = 200"
    using demo_index_served by blast
  let ?q = "demo_request ''GET'' ''/docs/'' []"
  have o': "served_opts demo_env (live_opts rule) ?q = demo_handle ''/docs/''"
    by (simp add: served_opts_def static_opts_def demo_handle_def selected_root_def served_path_def get_real_root_def
        markdown_path_def live_opts_def handler_opts_default_def demo_request_def demo_uri_def advanced_default_def)
  have stages: "\<exists>r6. compression_post_process demo_ext (live_opts rule) ?q r5 = Inr r6"
    "compression_static_post_process demo_ext (live_opts rule) r5 = Inr r5" for r5
  proof -
    have "x_header_value demo_ext v = Some v" for v by (simp add: demo_ext_def)
    then have "\<exists>v. compression_vary demo_ext r5 = Inr v"
      by (simp add: compression_vary_def Let_def split: option.split)
    then show "\<exists>r6. compression_post_process demo_ext (live_opts rule) ?q r5 = Inr r6"
      by (auto simp: compression_post_process_def)
    show "compression_static_post_process demo_ext (live_opts rule) r5 = Inr r5"
      by (simp add: compression_static_post_process_def live_opts_def handler_opts_default_def)
  qed
  have "\<exists>r. static_stages demo_ext (live_opts rule) ?q md fp resp = Inr r" for md fp
  proof -
    obtain r6 where "compression_post_process demo_ext (live_opts rule) ?q
        (text_charset_post_process demo_ext (live_opts rule) (markdown_post_process demo_ext md (live_opts rule)
          (cors_post_process demo_ext (live_opts rule) ?q (fallback_post_process (live_opts rule) ?q resp)))) = Inr r6"
      using stages(1) by blast
    then show ?thesis by (simp add: static_stages_def stages(2))
  qed
  then obtain r where r: "static_stages demo_ext (live_opts rule) ?q False (Some q) resp = Inr r" by blast
  have "markdown_path demo_env (live_opts rule) ?q = None"
    by (simp add: markdown_path_def live_opts_def handler_opts_default_def)
  then have s: "serve_static demo_env (live_opts rule) ?q = Inr r" by (simp add: serve_static_def o' h(1) r)
  have "page_fallback (live_opts rule) = []" by (simp add: live_opts_def handler_opts_default_def)
  with r h(2) static_stages_status have "rs_status r = 200" by metis
  with s show ?thesis by blast
qed

end
