(* ===== verification/Winservice.thy ===== *)
theory Winservice
  imports Server
begin

text \<open>
  The Windows service (\<open>src/winservice.rs\<close>): the states that it reports, the handler of control events,
  its run around the server, and its installation, with the waiting of the servers of a start on Windows
  (\<open>src/server.rs\<close>, \<open>src/signals.rs\<close>). The service manager is a parameter, and so is the
  server's run on that platform, which differs from the Unix one in how it is told to stop.
\<close>

section \<open>Reporting\<close>

datatype service_state = Service_Running | Service_Stop_Pending | Service_Stopped

record service_status =
  ss_state :: service_state
  ss_accepts_stop :: bool
  ss_exit_code :: nat
  ss_checkpoint :: nat
  ss_wait_hint :: nat
    \<comment> \<open>in seconds\<close>

record service_env =
  we_register :: "unit res"
    \<comment> \<open>\<open>service_control_handler::register\<close>\<close>
  we_set_status :: "service_status \<Rightarrow> unit res"

definition next_status :: "service_state \<Rightarrow> nat \<Rightarrow> nat \<Rightarrow> service_status" where
  "next_status current_state checkpoint wait_hint =
     \<lparr>ss_state = current_state, ss_accepts_stop = True, ss_exit_code = 0, ss_checkpoint = checkpoint,
      ss_wait_hint = wait_hint\<rparr>"

text \<open>The result, and the statuses reported with the new one.\<close>

definition set_service_state ::
  "service_env \<Rightarrow> service_state \<Rightarrow> nat \<Rightarrow> nat \<Rightarrow> service_status list \<Rightarrow> unit res \<times> service_status list" where
  "set_service_state E current_state checkpoint wait_hint reported =
     (let st = next_status current_state checkpoint wait_hint in (we_set_status E st, reported @ [st]))"

section \<open>Control events\<close>

datatype service_control = Interrogate | Stop | Other_Control

datatype control_result = NoError | NotImplemented | Panicked

text \<open>The channel of the stop event: the handler still has its sender, how much was sent, and whether the
  server still has its receiver.\<close>

record stop_channel =
  sc_sender :: bool
  sc_sent :: nat
  sc_receiver :: bool

fun event_handler :: "service_control \<Rightarrow> stop_channel \<Rightarrow> control_result \<times> stop_channel" where
  "event_handler Interrogate c = (NoError, c)"
| "event_handler Stop c =
     (if sc_sender c
      then if sc_receiver c then (NoError, c\<lparr>sc_sender := False, sc_sent := sc_sent c + 1\<rparr>)
           else (Panicked, c\<lparr>sc_sender := False\<rparr>)
      else (NoError, c))"
| "event_handler Other_Control c = (NotImplemented, c)"

fun handle_events :: "service_control list \<Rightarrow> stop_channel \<Rightarrow> control_result list \<times> stop_channel" where
  "handle_events [] c = ([], c)"
| "handle_events (e # es) c =
     (case event_handler e c of (r, c1) \<Rightarrow> (case handle_events es c1 of (rs, c2) \<Rightarrow> (r # rs, c2)))"

section \<open>Waiting for the stop event\<close>

text \<open>
  \<open>wait_for_ctrl_c\<close> of the servers of a start, which share one receiver behind a lock: each takes the
  lock, waits for a change or for the sender to go away, gives the lock back, and sleeps through the
  grace period.
\<close>

datatype ctrl_wait = Ctrl_Lock | Ctrl_Changed | Ctrl_Grace nat | Ctrl_Delegated

record ctrl_state =
  ct_cell :: cancel_cell
  ct_waits :: "ctrl_wait list"
  ct_grace :: nat

definition ctrl_start :: "bool \<Rightarrow> nat \<Rightarrow> nat \<Rightarrow> ctrl_state" where
  "ctrl_start present grace k =
     \<lparr>ct_cell = sh_cell (shutdown_start present grace k), ct_waits = replicate k Ctrl_Lock, ct_grace = grace\<rparr>"

definition ctrl_woken :: "nat \<Rightarrow> ctrl_wait" where
  "ctrl_woken grace =
     (case delay_graceful_shutdown grace of Some n \<Rightarrow> Ctrl_Grace n | None \<Rightarrow> Ctrl_Delegated)"

inductive ctrl_step :: "ctrl_state \<Rightarrow> ctrl_state \<Rightarrow> bool" where
  ctrl_locks: "i < length (ct_waits s) \<Longrightarrow> ct_waits s ! i = Ctrl_Lock \<Longrightarrow> cc_locked_by (ct_cell s) = None \<Longrightarrow>
     cc_present (ct_cell s) \<Longrightarrow>
     ctrl_step s (s\<lparr>ct_waits := (ct_waits s)[i := Ctrl_Changed], ct_cell := (ct_cell s)\<lparr>cc_locked_by := Some i\<rparr>\<rparr>)"
| ctrl_absent: "i < length (ct_waits s) \<Longrightarrow> ct_waits s ! i = Ctrl_Lock \<Longrightarrow> cc_locked_by (ct_cell s) = None \<Longrightarrow>
     \<not> cc_present (ct_cell s) \<Longrightarrow>
     ctrl_step s (s\<lparr>ct_waits := (ct_waits s)[i := ctrl_woken (ct_grace s)]\<rparr>)"
| ctrl_changes: "i < length (ct_waits s) \<Longrightarrow> ct_waits s ! i = Ctrl_Changed \<Longrightarrow>
     cc_seen (ct_cell s) < cc_sent (ct_cell s) \<Longrightarrow>
     ctrl_step s (s\<lparr>ct_waits := (ct_waits s)[i := ctrl_woken (ct_grace s)],
       ct_cell := (ct_cell s)\<lparr>cc_seen := cc_sent (ct_cell s), cc_locked_by := None\<rparr>\<rparr>)"
| ctrl_closed: "i < length (ct_waits s) \<Longrightarrow> ct_waits s ! i = Ctrl_Changed \<Longrightarrow>
     \<not> cc_seen (ct_cell s) < cc_sent (ct_cell s) \<Longrightarrow> \<not> cc_sender_alive (ct_cell s) \<Longrightarrow>
     ctrl_step s (s\<lparr>ct_waits := (ct_waits s)[i := ctrl_woken (ct_grace s)],
       ct_cell := (ct_cell s)\<lparr>cc_locked_by := None\<rparr>\<rparr>)"
| ctrl_grace_ends: "i < length (ct_waits s) \<Longrightarrow> ct_waits s ! i = Ctrl_Grace n \<Longrightarrow>
     ctrl_step s (s\<lparr>ct_waits := (ct_waits s)[i := Ctrl_Delegated]\<rparr>)"

text \<open>The stop event sends and drops the sender, which the handler has taken.\<close>

definition ctrl_stop :: "ctrl_state \<Rightarrow> ctrl_state" where
  "ctrl_stop s = s\<lparr>ct_cell := (ct_cell s)\<lparr>cc_sent := cc_sent (ct_cell s) + 1, cc_sender_alive := False\<rparr>\<rparr>"

text \<open>The lock is held by the waiter that waits for the change, and by no other.\<close>

definition ctrl_ok :: "ctrl_state \<Rightarrow> bool" where
  "ctrl_ok s = (\<forall>j < length (ct_waits s). (ct_waits s ! j = Ctrl_Changed) = (cc_locked_by (ct_cell s) = Some j))"

definition ctrl_lock_ok :: "ctrl_state \<Rightarrow> bool" where
  "ctrl_lock_ok s = (case cc_locked_by (ct_cell s) of None \<Rightarrow> True | Some j \<Rightarrow> j < length (ct_waits s))"

fun ctrl_weight :: "ctrl_wait \<Rightarrow> nat" where
  "ctrl_weight Ctrl_Lock = 3"
| "ctrl_weight Ctrl_Changed = 2"
| "ctrl_weight (Ctrl_Grace n) = 1"
| "ctrl_weight Ctrl_Delegated = 0"

definition ctrl_steps_left :: "ctrl_state \<Rightarrow> nat" where
  "ctrl_steps_left s = sum_list (map ctrl_weight (ct_waits s))"

lemma ctrl_woken_simps [simp]:
  "ctrl_woken g \<noteq> Ctrl_Changed" "ctrl_woken g \<noteq> Ctrl_Lock" "ctrl_weight (ctrl_woken g) \<le> 1"
  by (simp_all add: ctrl_woken_def split: option.split)

lemma sum_weight_update:
  "i < length xs \<Longrightarrow> ctrl_weight x < ctrl_weight (xs ! i) \<Longrightarrow>
   sum_list (map ctrl_weight (xs[i := x])) < sum_list (map ctrl_weight xs)"
proof (induction xs arbitrary: i)
  case (Cons y ys)
  then show ?case by (cases i) auto
qed simp

text \<open>Every step brings a waiter closer to the end, so a run has a bounded number of steps.\<close>

lemma ctrl_step_decreases: "ctrl_step s t \<Longrightarrow> ctrl_steps_left t < ctrl_steps_left s"
  unfolding ctrl_steps_left_def
  by (induction rule: ctrl_step.induct)
    (auto intro!: sum_weight_update order_le_less_trans [OF ctrl_woken_simps(3)])

lemma ctrl_step_frame:
  "ctrl_step s t \<Longrightarrow> length (ct_waits t) = length (ct_waits s) \<and>
     cc_sender_alive (ct_cell t) = cc_sender_alive (ct_cell s) \<and> ct_grace t = ct_grace s"
  by (induction rule: ctrl_step.induct) simp_all

lemma ctrl_step_ok: "ctrl_step s t \<Longrightarrow> ctrl_ok s \<and> ctrl_lock_ok s \<Longrightarrow> ctrl_ok t \<and> ctrl_lock_ok t"
  by (induction rule: ctrl_step.induct)
    (auto simp: ctrl_ok_def ctrl_lock_ok_def nth_list_update split: option.splits)

lemma ctrl_progress:
  assumes "ctrl_ok s" "ctrl_lock_ok s" "\<not> cc_sender_alive (ct_cell s)" "i < length (ct_waits s)"
    "ct_waits s ! i \<noteq> Ctrl_Delegated"
  shows "\<exists>t. ctrl_step s t"
proof (cases "cc_locked_by (ct_cell s)")
  case (Some j)
  then have "j < length (ct_waits s)" "ct_waits s ! j = Ctrl_Changed"
    using assms(1,2) by (auto simp: ctrl_ok_def ctrl_lock_ok_def)
  then show ?thesis using ctrl_changes ctrl_closed assms(3) by blast
next
  case None
  then have "ct_waits s ! i \<noteq> Ctrl_Changed" using assms(1,4) by (auto simp: ctrl_ok_def)
  then show ?thesis
    using assms(4,5) None ctrl_locks ctrl_absent ctrl_grace_ends by (cases "ct_waits s ! i") blast+
qed

lemma ctrl_start_ok: "ctrl_ok (ctrl_start present grace k) \<and> ctrl_lock_ok (ctrl_start present grace k)"
  by (simp add: ctrl_ok_def ctrl_lock_ok_def ctrl_start_def shutdown_start_def)

lemma ctrl_run_ok: "ctrl_step\<^sup>*\<^sup>* s t \<Longrightarrow> ctrl_ok s \<and> ctrl_lock_ok s \<Longrightarrow> ctrl_ok t \<and> ctrl_lock_ok t"
  by (induction rule: rtranclp_induct) (auto dest: ctrl_step_ok)

lemma ctrl_run_frame: "ctrl_step\<^sup>*\<^sup>* s t \<Longrightarrow>
    length (ct_waits t) = length (ct_waits s) \<and> cc_sender_alive (ct_cell t) = cc_sender_alive (ct_cell s)"
  by (induction rule: rtranclp_induct) (auto dest: ctrl_step_frame)

lemma ctrl_stop_ok: "ctrl_ok s \<and> ctrl_lock_ok s \<Longrightarrow> ctrl_ok (ctrl_stop s) \<and> ctrl_lock_ok (ctrl_stop s)"
  by (auto simp: ctrl_ok_def ctrl_lock_ok_def ctrl_stop_def split: option.split)

lemma ctrl_bounded: "(ctrl_step ^^ n) s t \<Longrightarrow> n + ctrl_steps_left t \<le> ctrl_steps_left s"
proof (induction n arbitrary: t)
  case (Suc n)
  then obtain u where "(ctrl_step ^^ n) s u" "ctrl_step u t" by auto
  with Suc.IH [of u] ctrl_step_decreases [of u t] show ?case by simp
qed simp

text \<open>Once the sender is gone, no interleaving of the servers takes more than three steps for each, and when
  none can step any more, all have left their wait and their grace period.\<close>

lemma ctrl_closed_ends:
  assumes "ctrl_ok s" "ctrl_lock_ok s" "\<not> cc_sender_alive (ct_cell s)" "(ctrl_step ^^ n) s t"
  shows "n \<le> 3 * length (ct_waits s) \<and>
    (\<not> (\<exists>u. ctrl_step t u) \<longrightarrow> ct_waits t = replicate (length (ct_waits s)) Ctrl_Delegated)"
proof -
  have run: "ctrl_step\<^sup>*\<^sup>* s t" using assms(4) relpowp_imp_rtranclp by metis
  then have t: "ctrl_ok t" "ctrl_lock_ok t" "length (ct_waits t) = length (ct_waits s)" "\<not> cc_sender_alive (ct_cell t)"
    using ctrl_run_ok [OF run] ctrl_run_frame [OF run] assms(1-3) by simp_all
  have "ct_waits t = replicate (length (ct_waits s)) Ctrl_Delegated" if stuck: "\<not> (\<exists>u. ctrl_step t u)"
  proof -
    have "ct_waits t ! i = Ctrl_Delegated" if "i < length (ct_waits s)" for i
      using ctrl_progress [OF t(1,2,4), of i] that t(3) stuck by metis
    with t(3) show ?thesis by (simp add: list_eq_iff_nth_eq)
  qed
  moreover have "ctrl_weight w \<le> 3" for w by (cases w) simp_all
  then have "sum_list (map ctrl_weight ws) \<le> 3 * length ws" for ws
    by (induction ws) (auto intro: add_mono)
  then have "ctrl_steps_left s \<le> 3 * length (ct_waits s)" by (simp add: ctrl_steps_left_def)
  with ctrl_bounded [OF assms(4)] have "n \<le> 3 * length (ct_waits s)" by simp
  ultimately show ?thesis by blast
qed

section \<open>A start on Windows\<close>

text \<open>
  A start has two channels: that of the service's stop event, and one of its own that a task feeds when
  Ctrl+C is pressed. The servers wait on the first one when they run as a service and on the second one
  otherwise. The task ends at once in a service, and its sender goes away with it.
\<close>

record windows_run =
  wr_service :: bool
  wr_cancel :: cancel_cell
  wr_ctrlc :: cancel_cell
  wr_task_done :: bool
  wr_waits :: "ctrl_wait list"
  wr_grace :: nat

definition ctrlc_task :: "bool \<Rightarrow> bool \<Rightarrow> cancel_cell \<Rightarrow> bool \<times> cancel_cell" where
  "ctrlc_task windows_service pressed c =
     (if \<not> windows_service
      then if pressed then (True, c\<lparr>cc_sent := cc_sent c + 1, cc_sender_alive := False\<rparr>) else (False, c)
      else (True, c\<lparr>cc_sender_alive := False\<rparr>))"

definition cancel_recv :: "bool \<Rightarrow> cancel_cell \<Rightarrow> cancel_cell \<Rightarrow> cancel_cell" where
  "cancel_recv windows_service cancel ctrlc = (if windows_service then cancel else ctrlc)"

definition new_channel :: cancel_cell where
  "new_channel = \<lparr>cc_present = True, cc_sent = 0, cc_seen = 0, cc_sender_alive = True, cc_locked_by = None\<rparr>"

definition windows_start :: "bool \<Rightarrow> nat \<Rightarrow> nat \<Rightarrow> windows_run" where
  "windows_start windows_service grace k =
     (let (ended, ctrlc) = ctrlc_task windows_service False new_channel
      in \<lparr>wr_service = windows_service, wr_cancel = new_channel, wr_ctrlc = ctrlc, wr_task_done = ended,
          wr_waits = replicate k Ctrl_Lock, wr_grace = grace\<rparr>)"

text \<open>The servers of a start share one receiver, that of the channel they wait on.\<close>

definition windows_view :: "windows_run \<Rightarrow> ctrl_state" where
  "windows_view w =
     \<lparr>ct_cell = cancel_recv (wr_service w) (wr_cancel w) (wr_ctrlc w), ct_waits = wr_waits w, ct_grace = wr_grace w\<rparr>"

definition windows_put :: "ctrl_state \<Rightarrow> windows_run \<Rightarrow> windows_run" where
  "windows_put v w =
     (if wr_service w then w\<lparr>wr_cancel := ct_cell v, wr_waits := ct_waits v\<rparr>
      else w\<lparr>wr_ctrlc := ct_cell v, wr_waits := ct_waits v\<rparr>)"

inductive windows_step :: "windows_run \<Rightarrow> windows_run \<Rightarrow> bool" where
  server_waits: "ctrl_step (windows_view w) v \<Longrightarrow> windows_step w (windows_put v w)"
| ctrl_c_pressed: "\<not> wr_task_done w \<Longrightarrow> ctrlc_task (wr_service w) True (wr_ctrlc w) = (ended, c) \<Longrightarrow>
     windows_step w (w\<lparr>wr_task_done := ended, wr_ctrlc := c\<rparr>)"
| stop_event: "wr_service w \<Longrightarrow> cc_sender_alive (wr_cancel w) \<Longrightarrow>
     windows_step w (w\<lparr>wr_cancel := ct_cell (ctrl_stop (windows_view w))\<rparr>)"

text \<open>The stop event was sent to a service, or Ctrl+C was pressed.\<close>

definition windows_told :: "windows_run \<Rightarrow> bool" where
  "windows_told w = (if wr_service w then \<not> cc_sender_alive (wr_cancel w) else wr_task_done w)"

definition windows_ok :: "nat \<Rightarrow> windows_run \<Rightarrow> bool" where
  "windows_ok k w =
     (ctrl_ok (windows_view w) \<and> ctrl_lock_ok (windows_view w) \<and> length (wr_waits w) = k \<and>
      cc_present (ct_cell (windows_view w)) \<and>
      (wr_service w \<longrightarrow> wr_task_done w) \<and> windows_told w = (\<not> cc_sender_alive (ct_cell (windows_view w))) \<and>
      (\<not> windows_told w \<longrightarrow> cc_sent (ct_cell (windows_view w)) = 0 \<and> set (wr_waits w) \<subseteq> {Ctrl_Lock, Ctrl_Changed}))"

lemma windows_view_put [simp]:
  "ct_grace v = wr_grace w \<Longrightarrow> windows_view (windows_put v w) = v"
  by (simp add: windows_view_def windows_put_def cancel_recv_def)

lemma windows_put_simps [simp]:
  "wr_service (windows_put v w) = wr_service w" "wr_task_done (windows_put v w) = wr_task_done w"
  "wr_waits (windows_put v w) = ct_waits v"
  by (simp_all add: windows_put_def)

lemma ctrl_step_untold:
  assumes "ctrl_step s t" "cc_sent (ct_cell s) = 0" "cc_sender_alive (ct_cell s)" "cc_present (ct_cell s)"
    and "set (ct_waits s) \<subseteq> {Ctrl_Lock, Ctrl_Changed}"
  shows "set (ct_waits t) \<subseteq> {Ctrl_Lock, Ctrl_Changed}"
  using assms(1)
proof (cases rule: ctrl_step.cases)
  case (ctrl_locks i)
  have "set ((ct_waits s)[i := Ctrl_Changed]) \<subseteq> insert Ctrl_Changed (set (ct_waits s))"
    by (rule set_update_subset_insert)
  with ctrl_locks(1) assms(5) show ?thesis by auto
next
  case (ctrl_grace_ends i n)
  then have "Ctrl_Grace n \<in> set (ct_waits s)" by (metis nth_mem)
  with assms(5) show ?thesis by auto
qed (use assms(2-4) in simp_all)

lemma ctrl_step_cell: "ctrl_step s t \<Longrightarrow>
    cc_sent (ct_cell t) = cc_sent (ct_cell s) \<and> cc_present (ct_cell t) = cc_present (ct_cell s)"
  by (induction rule: ctrl_step.induct) simp_all

lemma windows_step_ok: "windows_step w t \<Longrightarrow> windows_ok k w \<Longrightarrow> windows_ok k t"
proof (induction rule: windows_step.induct)
  case (server_waits w v)
  note f = ctrl_step_frame [OF server_waits.hyps] ctrl_step_cell [OF server_waits.hyps]
  note ok = server_waits.prems [unfolded windows_ok_def]
  have "ct_grace v = wr_grace w" using f by (simp add: windows_view_def)
  then have view: "windows_view (windows_put v w) = v" by (rule windows_view_put)
  have len: "length (ct_waits v) = k" using f ok by (simp add: windows_view_def)
  have told: "windows_told (windows_put v w) = windows_told w"
    using f by (simp add: windows_told_def windows_view_def windows_put_def cancel_recv_def)
  have waits: "set (ct_waits v) \<subseteq> {Ctrl_Lock, Ctrl_Changed}" if "\<not> windows_told w"
    using ctrl_step_untold [OF server_waits.hyps] ok that by (simp add: windows_view_def)
  show ?case
    unfolding windows_ok_def view told windows_put_simps
    using ctrl_step_ok [OF server_waits.hyps] f ok len waits by simp
next
  case (ctrl_c_pressed w ended c)
  then have "\<not> wr_service w" by (auto simp: windows_ok_def)
  with ctrl_c_pressed show ?case
    by (auto simp: windows_ok_def windows_view_def cancel_recv_def ctrlc_task_def windows_told_def ctrl_ok_def ctrl_lock_ok_def
        split: option.splits)
next
  case (stop_event w)
  then show ?case
    by (auto simp: windows_ok_def windows_view_def cancel_recv_def windows_told_def ctrl_ok_def ctrl_lock_ok_def ctrl_stop_def
        split: option.splits)
qed

lemma windows_start_ok: "windows_ok k (windows_start service grace k)"
  by (auto simp: windows_ok_def windows_start_def windows_view_def cancel_recv_def ctrlc_task_def windows_told_def new_channel_def
      ctrl_ok_def ctrl_lock_ok_def)

lemma windows_run_ok: "windows_step\<^sup>*\<^sup>* w t \<Longrightarrow> windows_ok k w \<Longrightarrow> windows_ok k t"
  by (induction rule: rtranclp_induct) (auto dest: windows_step_ok)

text \<open>Once the servers were told to stop, only they take steps.\<close>

lemma windows_told_step:
  assumes "windows_step w t" "windows_told w" "windows_ok k w"
  shows "ctrl_step (windows_view w) (windows_view t) \<and> windows_told t \<and> wr_task_done t = wr_task_done w"
  using assms
proof (induction rule: windows_step.induct)
  case (server_waits w v)
  have g: "ct_grace v = wr_grace w" using ctrl_step_frame [OF server_waits.hyps] by (simp add: windows_view_def)
  with server_waits windows_step_ok [OF windows_step.server_waits [OF server_waits.hyps], of k]
    ctrl_step_frame [OF server_waits.hyps] show ?case
    by (auto simp: windows_ok_def)
qed (auto simp: windows_told_def windows_ok_def)

lemma windows_told_run:
  "(windows_step ^^ n) w t \<Longrightarrow> windows_told w \<Longrightarrow> windows_ok k w \<Longrightarrow>
   (ctrl_step ^^ n) (windows_view w) (windows_view t) \<and> windows_told t \<and> windows_ok k t \<and> wr_task_done t = wr_task_done w"
proof (induction n arbitrary: t)
  case (Suc n)
  then obtain u where u: "(windows_step ^^ n) w u" "windows_step u t" by auto
  from Suc.IH [OF u(1) Suc.prems(2,3)] windows_told_step [OF u(2), of k] windows_step_ok [OF u(2), of k] show ?case by auto
qed simp

text \<open>C37. The servers of a start on Windows stop when they are told and not before: a service by its stop event, and
  every other run by Ctrl+C. Whatever happened since the start, until then every server waits; from
  then on, no interleaving takes more than three steps for each of the servers, and when none can step any
  more, all have left their wait and their grace period and the task that listens to Ctrl+C has ended, so
  that the start returns.\<close>

theorem windows_servers_stop_when_told:
  assumes "windows_step\<^sup>*\<^sup>* (windows_start windows_service grace k) w" "(windows_step ^^ n) w t"
  shows "if windows_told w
    then n \<le> 3 * k \<and>
      ((\<exists>u. windows_step t u) \<or> wr_waits t = replicate k Ctrl_Delegated \<and> wr_task_done t)
    else set (wr_waits w) \<subseteq> {Ctrl_Lock, Ctrl_Changed}"
proof -
  have ok: "windows_ok k w" by (rule windows_run_ok [OF assms(1) windows_start_ok])
  have "n \<le> 3 * k \<and> ((\<exists>u. windows_step t u) \<or> wr_waits t = replicate k Ctrl_Delegated \<and> wr_task_done t)"
    if told: "windows_told w"
  proof -
    from windows_told_run [OF assms(2) told ok] have r: "(ctrl_step ^^ n) (windows_view w) (windows_view t)"
      "windows_told t" "windows_ok k t" "wr_task_done t = wr_task_done w" by blast+
    have len: "length (ct_waits (windows_view w)) = k" using ok by (simp add: windows_ok_def windows_view_def)
    have "ctrl_ok (windows_view w)" "ctrl_lock_ok (windows_view w)" "\<not> cc_sender_alive (ct_cell (windows_view w))"
      using ok told by (simp_all add: windows_ok_def)
    from ctrl_closed_ends [OF this r(1)] have e: "n \<le> 3 * k"
      "(\<exists>v. ctrl_step (windows_view t) v) \<or> wr_waits t = replicate k Ctrl_Delegated"
      unfolding len by (auto simp: windows_view_def)
    have "wr_task_done t" using r(2,3) by (auto simp: windows_told_def windows_ok_def split: if_splits)
    with e windows_step.server_waits [of t] show ?thesis by blast
  qed
  with ok show ?thesis by (auto simp: windows_ok_def)
qed

inductive_cases ctrl_stepE: "ctrl_step s t"

text \<open>Two servers of a service without a grace period.\<close>

theorem windows_servers_stop_when_told_witness:
  "\<exists>w t. windows_step\<^sup>*\<^sup>* (windows_start True 0 2) w \<and> windows_told w \<and> (windows_step ^^ 4) w t \<and>
     wr_waits t = replicate 2 Ctrl_Delegated"
proof -
  define st where "st ws sent seen alive locked = \<lparr>wr_service = True, wr_cancel = \<lparr>cc_present = True, cc_sent = sent, cc_seen = seen,
    cc_sender_alive = alive, cc_locked_by = locked\<rparr>, wr_ctrlc = new_channel\<lparr>cc_sender_alive := False\<rparr>, wr_task_done = True,
    wr_waits = ws, wr_grace = 0\<rparr>" for ws sent seen alive locked
  have s0: "windows_start True 0 2 = st [Ctrl_Lock, Ctrl_Lock] 0 0 True None"
    by (simp add: windows_start_def ctrlc_task_def new_channel_def st_def numeral_2_eq_2)
  have w: "windows_step (st [Ctrl_Lock, Ctrl_Lock] 0 0 True None) (st [Ctrl_Lock, Ctrl_Lock] 1 0 False None)"
    using windows_step.stop_event [of "st [Ctrl_Lock, Ctrl_Lock] 0 0 True None"]
    by (simp add: st_def windows_view_def cancel_recv_def ctrl_stop_def)
  have put: "windows_put (windows_view (st ws' m' n' a' l')) (st ws m n a l) = st ws' m' n' a' l'" for ws ws' m m' n n' a a' l l'
    by (simp add: st_def windows_view_def windows_put_def cancel_recv_def)
  have step: "windows_step (st ws m n a l) (st ws' m' n' a' l')"
    if "ctrl_step (windows_view (st ws m n a l)) (windows_view (st ws' m' n' a' l'))" for ws ws' m m' n n' a a' l l'
    using windows_step.server_waits [OF that] by (simp only: put)
  have view: "windows_view (st ws m n a l) = \<lparr>ct_cell = \<lparr>cc_present = True, cc_sent = m, cc_seen = n,
    cc_sender_alive = a, cc_locked_by = l\<rparr>, ct_waits = ws, ct_grace = 0\<rparr>" for ws m n a l
    by (simp add: st_def windows_view_def cancel_recv_def)
  have woken: "ctrl_woken 0 = Ctrl_Delegated" by (simp add: ctrl_woken_def delay_graceful_shutdown_def)
  have s1: "windows_step (st [Ctrl_Lock, Ctrl_Lock] 1 0 False None) (st [Ctrl_Changed, Ctrl_Lock] 1 0 False (Some 0))"
    by (rule step) (use ctrl_locks [of 0 "windows_view (st [Ctrl_Lock, Ctrl_Lock] 1 0 False None)"] in \<open>simp add: view\<close>)
  have s2: "windows_step (st [Ctrl_Changed, Ctrl_Lock] 1 0 False (Some 0)) (st [Ctrl_Delegated, Ctrl_Lock] 1 1 False None)"
    by (rule step)
      (use ctrl_changes [of 0 "windows_view (st [Ctrl_Changed, Ctrl_Lock] 1 0 False (Some 0))"] in \<open>simp add: view woken\<close>)
  have s3: "windows_step (st [Ctrl_Delegated, Ctrl_Lock] 1 1 False None) (st [Ctrl_Delegated, Ctrl_Changed] 1 1 False (Some 1))"
    by (rule step) (use ctrl_locks [of 1 "windows_view (st [Ctrl_Delegated, Ctrl_Lock] 1 1 False None)"] in \<open>simp add: view\<close>)
  have s4: "windows_step (st [Ctrl_Delegated, Ctrl_Changed] 1 1 False (Some 1)) (st [Ctrl_Delegated, Ctrl_Delegated] 1 1 False None)"
    by (rule step)
      (use ctrl_closed [of 1 "windows_view (st [Ctrl_Delegated, Ctrl_Changed] 1 1 False (Some 1))"] in \<open>simp add: view woken\<close>)
  let ?w = "st [Ctrl_Lock, Ctrl_Lock] 1 0 False None" and ?t = "st [Ctrl_Delegated, Ctrl_Delegated] 1 1 False None"
  have r: "windows_step\<^sup>*\<^sup>* (windows_start True 0 2) ?w" "(windows_step ^^ 4) ?w ?t"
    using w s1 s2 s3 s4 unfolding s0 by (auto simp: numeral_eq_Suc)
  have told: "windows_told ?w" by (simp add: windows_told_def st_def)
  have "\<not> ctrl_step (windows_view ?t) v" for v
    unfolding view by (auto elim!: ctrl_stepE simp: nth_Cons less_Suc_eq_0_disj split: nat.splits)
  then have "\<not> windows_step ?t u" for u
    by (auto elim!: windows_step.cases) (simp_all add: st_def)
  with windows_servers_stop_when_told [OF r] told r show ?thesis by auto
qed

section \<open>The service\<close>

datatype service_end = Service_Exited nat | Service_Returned "unit res"

text \<open>
  \<open>Exited\<close> ends the process at once; a server that served was shut down when its run returns, and only
  then the stop handler was called.
\<close>

definition run_service ::
  "service_env \<Rightarrow> settings res \<Rightarrow> (settings \<Rightarrow> server res) \<Rightarrow> (server \<Rightarrow> run_outcome) \<Rightarrow> service_end \<times> service_status list" where
  "run_service E read_settings new_server run =
     (case read_settings of
        Inl e \<Rightarrow> (Service_Returned (Inl e), [])
      | Inr opts \<Rightarrow>
          (case we_register E of
             Inl e \<Rightarrow> (Service_Returned (Inl e), [])
           | Inr _ \<Rightarrow>
               (case set_service_state E Service_Running 1 0 [] of
                  (Inl e, reported) \<Rightarrow> (Service_Returned (Inl e), reported)
                | (Inr _, reported) \<Rightarrow>
                    (let stopped = (\<lambda>reported.
                           case set_service_state E Service_Stopped 3 3 reported of
                             (r, reported') \<Rightarrow> (Service_Returned r, reported'))
                     in case new_server opts of
                          Inl e \<Rightarrow> stopped reported
                        | Inr srv \<Rightarrow>
                            (case run srv of
                               Exited code \<Rightarrow> (Service_Exited code, reported)
                             | Failed e \<Rightarrow> stopped reported
                             | Serving r \<Rightarrow> stopped (snd (set_service_state E Service_Stop_Pending 2 3 reported)))))))"

definition run_as_service ::
  "ext \<Rightarrow> server_env \<Rightarrow> fs \<Rightarrow> server \<Rightarrow> metrics \<Rightarrow> mem_cache_state option \<Rightarrow> files \<Rightarrow> run_outcome \<times> files" where
  "run_as_service X S F srv M cell cache_files = run_server_on_rt X S F srv True M cell cache_files"

definition custom_service_main :: "service_end \<Rightarrow> service_end" where
  "custom_service_main ended =
     (case ended of Service_Returned _ \<Rightarrow> Service_Returned (Inr ()) | Service_Exited code \<Rightarrow> Service_Exited code)"

section \<open>Installing\<close>

definition verbatim_prefix :: string where
  "verbatim_prefix = [CHR 0x5C, CHR 0x5C, CHR ''?'', CHR 0x5C]"

definition adjust_canonicalization :: "path \<Rightarrow> string" where
  "adjust_canonicalization p =
     (let s = (if valid_utf8 p then p else [])
      in if prefix verbatim_prefix s then drop (length verbatim_prefix) s else s)"

definition service_arguments :: "path \<Rightarrow> string list" where
  "service_arguments config_file =
     (let f = adjust_canonicalization config_file
      in ''--windows-service=true'' # (if f = [] then [] else [''--config-file='' @ f]))"

record service_info =
  si_name :: string
  si_executable :: path
  si_arguments :: "string list"

record service_manager =
  sm_connect :: "unit res"
  sm_create :: "service_info \<Rightarrow> unit res"
  sm_describe :: "string \<Rightarrow> unit res"
  sm_open :: "string \<Rightarrow> unit res"
  sm_query :: "service_state res"
  sm_stop :: "unit res"
  sm_delete :: "unit res"

definition install_service :: "service_manager \<Rightarrow> path \<Rightarrow> path \<Rightarrow> unit res" where
  "install_service G current_exe config_file =
     res_bind (sm_connect G) (\<lambda>_.
     res_bind (sm_create G \<lparr>si_name = ''weavegate'', si_executable = set_file_name current_exe ''weavegate.exe'',
       si_arguments = service_arguments config_file\<rparr>) (\<lambda>_.
     sm_describe G ''A cross-platform, high-performance and asynchronous web server for static files-serving''))"

definition uninstall_service :: "service_manager \<Rightarrow> unit res" where
  "uninstall_service G =
     res_bind (sm_connect G) (\<lambda>_.
     res_bind (sm_open G ''weavegate'') (\<lambda>_.
     res_bind (sm_query G) (\<lambda>state.
     res_bind (if state \<noteq> Service_Stopped then sm_stop G else Inr ()) (\<lambda>_.
     sm_delete G))))"

section \<open>Properties\<close>

text \<open>However many control events arrive, the server is told to stop at most once, at the first stop event,
  and no event panics as long as the server has its receiver when that one arrives.\<close>

lemma stop_sent_once:
  assumes "sc_receiver c" "handle_events es c = (rs, c')"
  shows "sc_sent c' = sc_sent c + (if sc_sender c \<and> Stop \<in> set es then 1 else 0) \<and> Panicked \<notin> set rs \<and>
    length rs = length es"
  using assms
proof (induction es arbitrary: c c' rs)
  case (Cons e es)
  obtain r1 c1 where e: "event_handler e c = (r1, c1)" by (cases "event_handler e c")
  obtain rs1 c2 where es: "handle_events es c1 = (rs1, c2)" by (cases "handle_events es c1")
  have "sc_receiver c1" using Cons.prems(1) e by (cases e) (auto split: if_splits)
  from Cons.IH [OF this es] Cons.prems e es show ?case
    by (cases e) (auto split: if_splits)
qed simp

text \<open>A start that fails leaves the service reported as running: the run as a service exits the process
  on an error, so the branch that logs it and reports the stop is not reached.\<close>

theorem failed_start_leaves_service_running:
  assumes "we_register E = Inr ()" "we_set_status E (next_status Service_Running 1 0) = Inr ()"
    and "server_new S opts = Inr srv" "sv_runtime S (sr_worker_threads srv) (sr_max_blocking_threads srv) = Inr ()"
    and "fst (start_server X S F srv M cell fs) = Inl e"
  shows "run_service E (Inr opts) (server_new S) (\<lambda>srv. fst (run_as_service X S F srv M cell fs)) =
    (Service_Exited 1, [next_status Service_Running 1 0])"
  using assms
  by (auto simp: run_service_def set_service_state_def run_as_service_def run_server_on_rt_def Let_def split: prod.split)

text \<open>A service whose server ran to its shutdown reports that it runs, that it stops and that it has
  stopped, in this order with growing checkpoints.\<close>

theorem served_service_reports_stop:
  assumes "we_register E = Inr ()" "we_set_status E (next_status Service_Running 1 0) = Inr ()"
    and "server_new S opts = Inr srv" "fst (run_as_service X S F srv M cell fs) = Serving r"
  shows "run_service E (Inr opts) (server_new S) (\<lambda>srv. fst (run_as_service X S F srv M cell fs)) =
    (Service_Returned (we_set_status E (next_status Service_Stopped 3 3)),
     [next_status Service_Running 1 0, next_status Service_Stop_Pending 2 3, next_status Service_Stopped 3 3])"
  using assms by (simp add: run_service_def set_service_state_def Let_def)

section \<open>A service\<close>

definition demo_service :: service_env where
  "demo_service = \<lparr>we_register = Inr (), we_set_status = (\<lambda>_. Inr ())\<rparr>"

theorem served_service_reports_stop_witness:
  "\<exists>srv. server_new start_env (sr_opts start_settings) = Inr srv \<and>
     run_service demo_service (Inr (sr_opts start_settings)) (server_new start_env)
       (\<lambda>srv. fst (run_as_service demo_ext start_env demo_fs srv metrics_start None Map.empty)) =
     (Service_Returned (Inr ()),
      [next_status Service_Running 1 0, next_status Service_Stop_Pending 2 3, next_status Service_Stopped 3 3])"
proof -
  have n: "server_new start_env (sr_opts start_settings) = Inr start_settings"
    by (simp add: server_new_def start_env_def start_settings_def start_general_def general_default_def)
  obtain r where "start_server demo_ext start_env demo_fs start_settings metrics_start None Map.empty = (Inr r, Map.empty)"
    using started by blast
  then have r: "fst (run_as_service demo_ext start_env demo_fs start_settings metrics_start None Map.empty) = Serving r"
    by (simp add: run_as_service_def run_server_on_rt_def) (simp add: start_env_def)
  show ?thesis
    using served_service_reports_stop [of demo_service, OF _ _ n r] n by (simp add: demo_service_def)
qed

theorem failed_start_leaves_service_running_witness:
  "\<exists>srv. server_new start_env \<lparr>se_general = general_default, se_advanced = None\<rparr> = Inr srv \<and>
     run_service demo_service (Inr \<lparr>se_general = general_default, se_advanced = None\<rparr>) (server_new start_env)
       (\<lambda>srv. fst (run_as_service demo_ext start_env demo_fs srv metrics_start None Map.empty)) =
     (Service_Exited 1, [next_status Service_Running 1 0])"
proof -
  let ?opts = "\<lparr>se_general = general_default, se_advanced = None\<rparr>"
  let ?srv = "\<lparr>sr_opts = ?opts, sr_worker_threads = 4, sr_max_blocking_threads = 512\<rparr>"
  have n: "server_new start_env ?opts = Inr ?srv"
    by (simp add: server_new_def start_env_def general_default_def)
  have "\<not> fs_exists demo_fs ''./public''"
    by (simp add: fs_exists_def fs_metadata_def walk_eval demo_fs_eval)
  then have d: "\<exists>e. get_valid_dirpath demo_fs ''./public'' = Inl e" by (simp add: get_valid_dirpath_def)
  have g: "g_root general_default = ''./public''" by (simp add: general_default_def)
  have e: "\<exists>e. fst (start_server demo_ext start_env demo_fs ?srv metrics_start None Map.empty) = Inl e"
    using d by (auto simp: start_server_def build_handler_def g Let_def split: sum.split)
  then obtain e where e: "fst (start_server demo_ext start_env demo_fs ?srv metrics_start None Map.empty) = Inl e" by blast
  have rt: "sv_runtime start_env k m = Inr ()" for k m by (simp add: start_env_def)
  show ?thesis
    using failed_start_leaves_service_running [of demo_service, OF _ _ n rt e] n by (simp add: demo_service_def)
qed

end
