(* ===== verification/Spec2Isabelle.thy ===== *)
theory Spec2Isabelle
  imports Program Winservice
begin

text \<open>
  Verification library of weave-gate, an HTTP file server and gateway written in Rust. It models the
  library crate under \<open>src/\<close> and its main program, for a Unix build with all features on, and the Windows service
  beside it.

  \<^bold>\<open>The parts and how they interact.\<close> \<open>src/bin/server.rs\<close> reads the settings (command line,
  environment, configuration file), and \<open>src/server.rs\<close> opens the socket, fills in the options of the
  handler feature by feature, resolves the proxy rules (from the file and, at start, from the control
  plane) and serves. \<open>src/service.rs\<close> calls \<open>src/handler.rs\<close> for each request, which asks the
  gates in order (method, health, metrics, CORS, authentication, maintenance, then redirects, rewrites
  and the reverse proxy) and otherwise serves a file through \<open>src/static_files.rs\<close> and the response
  stages. Signals or a cancellation end the servers.

  \<^bold>\<open>Theories.\<close> Data and operations keep the names of the code; a \<open>Result\<close> is a sum with the error
  on the left, a panic the error \<open>unwrap_panic\<close>, \<open>u64\<close> and \<open>i64\<close> are words where their width matters,
  strings are lists of bytes, and mutated state is passed explicitly.
  \<^item> \<open>Prelude\<close>: lists, strings, errors; \<open>Externals\<close>: the record \<open>ext\<close> of the functions of other crates
    that the code calls, with a concrete instance for witnesses.
  \<^item> \<open>Http\<close>, \<open>Accept_Headers\<close>: methods, header maps, content codings, \<open>Accept\<close> and
    \<open>Accept-Encoding\<close> (\<open>src/http_ext.rs\<close>, \<open>src/headers_ext/\<close>).
  \<^item> \<open>Paths\<close>, \<open>FS\<close>, \<open>File_Access\<close>: \<open>Path\<close> and \<open>PathBuf\<close>, a file tree with symbolic links and its
    resolution, \<open>src/fs/path.rs\<close> and \<open>src/fs/meta.rs\<close>.
  \<^item> \<open>Streams\<close>, \<open>Responses\<close>: \<open>src/fs/stream.rs\<close>, \<open>src/conditional_headers.rs\<close>, \<open>src/response.rs\<close>.
  \<^item> \<open>Opts\<close>: the options of the handler and of the file's advanced part; \<open>Pages\<close>, \<open>Stages\<close>,
    \<open>Compression\<close>, \<open>Mem_Cache\<close>, \<open>Access_Control\<close>, \<open>Routing\<close>, \<open>Dir_Listing\<close>: one feature
    each, with its \<open>init\<close>, \<open>pre_process\<close> and \<open>post_process\<close>.
  \<^item> \<open>Static_Files\<close>: \<open>src/static_files.rs\<close>; \<open>Cached_Files\<close>: the file server with the memory cache as a step relation
    over requests, polls and evictions; \<open>Routes\<close>, \<open>Proxy\<close>: the control plane's rules and the
    reverse proxy; \<open>Metrics\<close>, \<open>Handler\<close>: counters, the services of connections, the pipeline.
  \<^item> \<open>Cli\<close>, \<open>Settings\<close>, \<open>Tls\<close>, \<open>Signals\<close>, \<open>Server\<close>, \<open>Program\<close>: the command line, the file and
    its merge, TLS, the shutdown, the start, and \<open>main\<close>; \<open>Serving\<close>: a started server as a step
    relation over overlapping requests and tunnels that end; \<open>Winservice\<close>: the Windows service around a
    server, its control events, and how they or Ctrl+C stop the servers of a start on Windows.

  \<^bold>\<open>What is shown.\<close> For paths and files: a sanitised path stays below its root, every file answer comes
  from a checked path (the index file of a checked directory and the variant beside a checked file are opened without a
  check of their own), range and conditional answers stream the announced bytes. For the pipeline: it
  refines the sequence of gates, always answers, and keeps metrics and, but for OPTIONS, authentication in front. For
  the state that lives on: the memory cache fills and only holds parts of files that were opened for checked paths; with the condition on
  pre-compressed variants it holds whole files in every interleaving, and GET and HEAD requests for files get the answer that they
  get with the cache switched off; what happens without the condition is shown too; tunnel permits
  add up, round robin is fair until its counter wraps, the cache of rules is replaced as a whole. For
  the start: settings are well formed and the running handler follows them. The theorems of this
  theory put the parts together, from the arguments of the program to the answer to a request.
  Several theorems state behaviour that contradicts a document or that is a defect; they are
  marked in the manifest's findings.

  \<^bold>\<open>Interfaces.\<close> Locales state what one part relies on in another: readers behind a stream, header stores,
  response stages, rule orders and first matches, gates that change nothing, relations that every
  step respects; each is interpreted on the definitions of the part that provides it.

  \<^bold>\<open>Bounds and fuel.\<close> Link resolution takes at most forty links, as the kernel does; draining a reader
  takes fuel for one poll per byte and a last one, which is enough since every chunk is not empty; the
  loop that archives a directory takes fuel for its nodes, and is shown to end without links. Other
  loops are structural or have a measure.

  \<^bold>\<open>Not modelled.\<close> The bodies of other crates (HTTP parsing and serving in \<open>hyper\<close>, \<open>clap\<close>, \<open>toml\<close> and
  \<open>serde\<close>, \<open>globset\<close> and \<open>regex\<close>, \<open>bcrypt\<close>, the encoders, \<open>rustls\<close>, the Prometheus text format) are parameters, with what
  the code relies on as hypotheses; the copying of bytes in an upgraded connection; the text of log
  messages but for the request line; the setting \<open>windows-service\<close> of the configuration file, which a Unix
  build does not have; a failure to read the metadata of a listed entry, since the file tree answers for each of its nodes; the log lines of the
  Windows branches of \<open>src/server.rs\<close> and the exits of its tasks; \<open>src/testing.rs\<close> and the
  benchmark server. In \<open>Serving\<close> the part of a request up to its first wait is one step, since
  what it shares are a counter, a permit and a gauge, each moved once; the memory cache has its own step
  relation, whose requests are those that a started server may see at any time. Its streams are polled as
  they start; that a later stage wraps them in an encoder does not change what they read.
\<close>

section \<open>Properties of the whole program\<close>

text \<open>C1. Configured credentials protect the running server, but for OPTIONS: when the program was started with credentials,
  from the command line, the environment or the file, then after any requests and tunnels a request
  that is not OPTIONS and does not carry them is answered by the method check, the health or metrics
  endpoint, CORS or with 401 or 500, whatever the upstreams, the cache and its permit are; it is handed back as it came, and the
  options, with the counters of the upstreams and the permits of the tunnels, are those from before. OPTIONS requests are
  let through without credentials.\<close>

theorem credentials_protect_running_server:
  assumes "main X T S F render B A E cmds cache_files = (Ran (Serving r), files')"
    and "parse_from X T F True A E cmds = Inr opts" "(serving_step X)\<^sup>*\<^sup>* (serving_start r) t"
    and "trim (g_basic_auth (se_general opts)) \<noteq> []" "\<not> is_options (rq_method req)"
    and "\<not> (\<exists>u h p. split_once (CHR '':'') (trim (g_basic_auth (se_general opts))) = Some (u, h) \<and>
      typed_get (x_basic_credentials (ev_ext V)) ''authorization'' (rq_headers req) = Some (u, p) \<and>
      x_bcrypt_verify (ev_ext V) p h = Some True)"
  shows "\<exists>a. (rs_status a = 405 \<or> health_pre_process (sg_opts t) req = Some a \<or>
      metrics_pre_process (ev_encode V) M (sg_opts t) req = Some a \<or>
      cors_pre_process (ev_ext V) (ev_fs V) (sg_opts t) req = Some a \<or> rs_status a = 401 \<or> rs_status a = 500) \<and>
    (\<forall>up st cl. handle_inner (V\<lparr>ev_up := up, ev_store := st, ev_permit_closed := cl\<rparr>) M (sg_opts t) req remote
       = (Inr a, req, sg_opts t))"
  using assms(4-6) running_options(1) [OF assms(1-3)]
  by (intro stops_unauthenticated) simp_all

text \<open>C2. What the file server of the running program sends comes from checked paths below the configured roots.
  Without a fallback page, the body of every 200 or 206, after any requests, and possibly behind an encoder, is either the
  listing or archive of a directory, or a part of the content of one file, opened for this request or, when
  the answer is from the memory cache, for an earlier request to this server that filled the entry under
  this path through interleaved streams, in the file system of that time. The path checked for that request lies
  below the root of the settings or of one of their virtual hosts, in name and in place, without links
  or hidden names in between where the settings forbid them. The file that was opened is the one at the checked
  path itself, except in two cases that the checks do not look at: the index file of a checked directory, and a
  pre-compressed variant, which lies beside the checked file; these two may be links to anywhere.\<close>

theorem running_server_serves_configured_roots:
  assumes "main X T S F render B A E cmds cache_files = (Ran (Serving r), files')"
    and "parse_from X T F True A E cmds = Inr opts" "(serving_step X)\<^sup>*\<^sup>* (serving_start r) t"
    and "\<not> fs_is_file F (g_page_fallback (se_general opts))"
    and "ev_ext V = X" "fs_wf (ev_fs V)" "cache_reachable X (server_request X (serving_start r)) (ev_store V, ss)"
    and "serve_static V (sg_opts t) req = Inr a" "rs_status a = 200 \<or> rs_status a = 206"
  shows "\<exists>resp F' o'' fm rel ms ns. rs_status a = rs_status resp \<and> passes_body resp a \<and>
    checked_file X F' o'' fm \<and>
    ((F', o'') = (ev_fs V, served_opts V (sg_opts t) req) \<and> sends_directory X F' o'' fm resp \<or>
     ((F', o'') = (ev_fs V, served_opts V (sg_opts t) req) \<or>
      server_request X (serving_start r) F' o'' \<and> ev_store V (fm_file_path fm) \<noteq> None \<and>
      (\<exists>p. sanitize_path X (selected_root X (sg_opts t) req) (served_path V (sg_opts t) req) = Inr p \<and>
         fm_file_path fm = cache_path (served_opts V (sg_opts t) req) p)) \<and>
     (\<exists>bs. body_bytes (rs_body resp) = Some bs \<and> sends_opened F' fm bs)) \<and>
    (if fm_is_dir fm then checked_path fm = path_pop (fm_file_path fm) else checked_path fm = fm_file_path fm) \<and>
    (case fm_precompressed fm of
       None \<Rightarrow> opened_path fm = fm_file_path fm
     | Some (q, _) \<Rightarrow> opened_path fm = q \<and> beside (fm_file_path fm) q) \<and>
    ho_base_path o'' \<in> set (configured_roots opts) \<and>
    path_strip_prefix (checked_path fm) (ho_base_path o'') = Some rel \<and>
    resolve F' (ho_base_path o'') = Inr ms \<and> resolve F' (checked_path fm) = Inr ns \<and> prefix ms ns \<and>
    (if g_disable_symlinks (se_general opts) then contains_symlink F' rel (ho_base_path o'') = Inr False else True) \<and>
    (if g_ignore_hidden_files (se_general opts) then \<not> is_hidden rel else True)"
proof -
  note run = running_options [OF assms(1,2)]
  have here: "server_request X (serving_start r) (ev_fs V) (served_opts V (sg_opts t) req)"
    using assms(3,5,6) by (auto simp: server_request_def)
  from served_handled [OF assms(8,9) run(8) [OF assms(3,4)]] obtain resp q where resp:
    "handle X (ev_fs V) (ev_store V) (ev_permit_closed V) (served_opts V (sg_opts t) req) = Inr (resp, q)"
    "rs_status a = rs_status resp" "passes_body resp a"
    unfolding assms(5) by blast
  from assms(9) resp(2) have "rs_status resp = 200 \<or> rs_status resp = 206" by simp
  from answered_with_opened_file [OF assms(7) resp(1) this] obtain F' o'' fm where f: "checked_file X F' o'' fm"
    "(F', o'') = (ev_fs V, served_opts V (sg_opts t) req) \<and> sends_directory X F' o'' fm resp \<or>
     ((F', o'') = (ev_fs V, served_opts V (sg_opts t) req) \<or>
      server_request X (serving_start r) F' o'' \<and> ev_store V (fm_file_path fm) \<noteq> None \<and>
      (\<exists>p. sanitize_path X (selected_root X (sg_opts t) req) (served_path V (sg_opts t) req) = Inr p \<and>
         fm_file_path fm = cache_path (served_opts V (sg_opts t) req) p)) \<and>
     (\<exists>bs. body_bytes (rs_body resp) = Some bs \<and> sends_opened F' fm bs)"
    unfolding served_opts_simps assms(5) by blast
  with here have "server_request X (serving_start r) F' o''" by blast
  then obtain V' u q' where o'': "(serving_step X)\<^sup>*\<^sup>* (serving_start r) u" "fs_wf F'"
    "o'' = served_opts V' (sg_opts u) q'" by (auto simp: server_request_def)
  have root: "ho_base_path o'' \<in> set (configured_roots opts)"
    unfolding o''(3) served_opts_simps by (rule selected_root_configured) (rule run(2,6) [OF o''(1)])+
  have flags: "ho_disable_symlinks o'' = g_disable_symlinks (se_general opts)"
    "ho_ignore_hidden_files o'' = g_ignore_hidden_files (se_general opts)"
    unfolding o''(3) served_opts_simps by (rule run(3,4) [OF o''(1)])+
  have paths: "if fm_is_dir fm then checked_path fm = path_pop (fm_file_path fm) else checked_path fm = fm_file_path fm"
    "case fm_precompressed fm of None \<Rightarrow> opened_path fm = fm_file_path fm
     | Some (q, _) \<Rightarrow> opened_path fm = q \<and> beside (fm_file_path fm) q"
    using checked_file_beside [OF f(1)]
    by (auto simp: checked_path_def opened_path_def variant_beside_def split: option.split)
  from checked_file_contained [OF o''(2) f(1)] obtain rel ms ns where c:
    "path_strip_prefix (checked_path fm) (ho_base_path o'') = Some rel"
    "resolve F' (ho_base_path o'') = Inr ms" "resolve F' (checked_path fm) = Inr ns" "prefix ms ns"
    "if g_disable_symlinks (se_general opts) then contains_symlink F' rel (ho_base_path o'') = Inr False else True"
    "if g_ignore_hidden_files (se_general opts) then \<not> is_hidden rel else True"
    unfolding flags by blast
  show ?thesis
    by (rule exI [of _ resp], rule exI [of _ F'], rule exI [of _ o''], rule exI [of _ fm], rule exI [of _ rel],
      rule exI [of _ ms], rule exI [of _ ns], intro conjI resp(2,3) f paths root c)
qed

text \<open>C9. No request to a running server runs out of upstreams: a rule that matches a request, from the file
  or the control plane, after any requests, still has a client, and its next draw names one of its
  templates, from which the upstream address is built.\<close>

theorem running_rules_have_upstreams:
  assumes "main X T S F render B A E cmds cache_files = (Ran (Serving r), files')"
    and "(serving_step X)\<^sup>*\<^sup>* (serving_start r) t" "find_rule X (sg_opts t) req = Some (i, rule)"
  shows "has_proxy_client (sg_opts t) \<and>
    (\<exists>u \<in> set (pr_uri_templates rule).
       fst (upstream_uri_for_rule X rule q) = build_upstream_uri_from_template X u q)"
  using running_rules [OF assms] wf_rule_upstream by blast

section \<open>Witnesses\<close>

lemma live_options:
  assumes "main demo_ext live_env start_env live_fs (\<lambda>_ _. Inr ()) live_build live_given (\<lambda>_. None) None Map.empty
    = (Ran (Serving r), Map.empty)"
  shows "basic_auth (sg_opts (serving_start r)) = ''u:h''"
proof -
  have "trim ''u:h'' = ''u:h''" by (simp add: trim_visible visible_def)
  with running_options(1) [OF assms live_settings_read rtranclp.rtrancl_refl] show ?thesis
    by (simp add: live_settings_def live_general_def)
qed

theorem credentials_protect_running_server_witness:
  "\<exists>r a. main demo_ext live_env start_env live_fs (\<lambda>_ _. Inr ()) live_build live_given (\<lambda>_. None) None Map.empty
      = (Ran (Serving r), Map.empty) \<and>
    (\<forall>up. handle_inner (demo_env\<lparr>ev_up := up, ev_store := Map.empty, ev_permit_closed := False\<rparr>) metrics_start
       (sg_opts (serving_start r)) (demo_request ''GET'' ''/'' []) None
       = (Inr a, demo_request ''GET'' ''/'' [], sg_opts (serving_start r)))"
proof -
  obtain r where r: "main demo_ext live_env start_env live_fs (\<lambda>_ _. Inr ()) live_build live_given (\<lambda>_. None) None Map.empty
    = (Ran (Serving r), Map.empty)" using live_run by blast
  have t: "trim (g_basic_auth (se_general live_settings)) = ''u:h''"
    by (simp add: live_settings_def live_general_def trim_visible visible_def)
  have "\<exists>a. (rs_status a = 405 \<or> health_pre_process (sg_opts (serving_start r)) (demo_request ''GET'' ''/'' []) = Some a \<or>
      metrics_pre_process (ev_encode demo_env) metrics_start (sg_opts (serving_start r)) (demo_request ''GET'' ''/'' []) = Some a \<or>
      cors_pre_process (ev_ext demo_env) (ev_fs demo_env) (sg_opts (serving_start r)) (demo_request ''GET'' ''/'' []) = Some a \<or>
      rs_status a = 401 \<or> rs_status a = 500) \<and>
    (\<forall>up st cl. handle_inner (demo_env\<lparr>ev_up := up, ev_store := st, ev_permit_closed := cl\<rparr>) metrics_start
       (sg_opts (serving_start r)) (demo_request ''GET'' ''/'' []) None
       = (Inr a, demo_request ''GET'' ''/'' [], sg_opts (serving_start r)))"
    by (rule credentials_protect_running_server [OF r live_settings_read rtranclp.rtrancl_refl])
      (simp_all add: t is_options_def typed_get_def hget_all_simps)
  with r show ?thesis by blast
qed

theorem running_server_serves_configured_roots_witness:
  "\<exists>r a resp F' o'' fm ms ns. main demo_ext live_env start_env live_fs (\<lambda>_ _. Inr ()) live_build live_given (\<lambda>_. None) None Map.empty
      = (Ran (Serving r), Map.empty) \<and>
    serve_static demo_env (sg_opts (serving_start r)) (demo_request ''GET'' ''/docs/'' []) = Inr a \<and> rs_status a = 200 \<and>
    passes_body resp a \<and> checked_file demo_ext F' o'' fm \<and>
    (sends_directory demo_ext F' o'' fm resp \<or> (\<exists>bs. body_bytes (rs_body resp) = Some bs \<and> sends_opened F' fm bs)) \<and>
    resolve F' ''/srv'' = Inr ms \<and> resolve F' (checked_path fm) = Inr ns \<and> prefix ms ns"
proof -
  obtain rule r where r: "main demo_ext live_env start_env live_fs (\<lambda>_ _. Inr ()) live_build live_given (\<lambda>_. None) None Map.empty
    = (Ran (Serving r), Map.empty)" "bl_opts (rn_built r) = live_opts rule" using live_run by blast
  obtain a where a: "serve_static demo_env (live_opts rule) (demo_request ''GET'' ''/docs/'' []) = Inr a" "rs_status a = 200"
    using live_serves by blast
  have o': "sg_opts (serving_start r) = live_opts rule" using r(2) by (simp add: serving_start_def)
  have w: "ev_ext demo_env = demo_ext" "fs_wf (ev_fs demo_env)"
    "cache_reachable demo_ext (server_request demo_ext (serving_start r)) (ev_store demo_env, [])"
    by (simp_all add: fs_wf_def demo_fs_def cache_reachable.initial)
  have m: "\<not> fs_is_file live_fs (g_page_fallback (se_general live_settings))" "configured_roots live_settings = [''/srv'']"
    by (simp_all add: live_settings_def live_general_def general_default_def advanced_default_def live_files
        configured_roots_def)
  from a have s: "serve_static demo_env (sg_opts (serving_start r)) (demo_request ''GET'' ''/docs/'' []) = Inr a"
    "rs_status a = 200 \<or> rs_status a = 206" unfolding o' by blast+
  obtain resp F' o'' fm ms ns where f: "passes_body resp a" "checked_file demo_ext F' o'' fm"
    "sends_directory demo_ext F' o'' fm resp \<or> (\<exists>bs. body_bytes (rs_body resp) = Some bs \<and> sends_opened F' fm bs)"
    "ho_base_path o'' \<in> set (configured_roots live_settings)"
    "resolve F' (ho_base_path o'') = Inr ms" "resolve F' (checked_path fm) = Inr ns" "prefix ms ns"
    using running_server_serves_configured_roots [OF r(1) live_settings_read rtranclp.rtrancl_refl m(1) w s]
    by (elim exE conjE) blast
  from f(4,5) have "resolve F' ''/srv'' = Inr ms" unfolding m(2) by simp
  with r(1) s(1) a(2) f show ?thesis by blast
qed

theorem running_rules_have_upstreams_witness:
  "\<exists>r i rule. main demo_ext live_env start_env live_fs (\<lambda>_ _. Inr ()) live_build live_given (\<lambda>_. None) None Map.empty
      = (Ran (Serving r), Map.empty) \<and>
    find_rule demo_ext (sg_opts (serving_start r)) (demo_request ''GET'' ''/x'' [(''host'', ''h'')]) = Some (i, rule) \<and>
    (\<exists>u \<in> set (pr_uri_templates rule).
       fst (upstream_uri_for_rule demo_ext rule (demo_uri ''/x'')) = build_upstream_uri_from_template demo_ext u (demo_uri ''/x''))"
proof -
  obtain rule r where r: "main demo_ext live_env start_env live_fs (\<lambda>_ _. Inr ()) live_build live_given (\<lambda>_. None) None Map.empty
    = (Ran (Serving r), Map.empty)" "bl_opts (rn_built r) = live_opts rule"
    "compile_proxy_rules demo_ext (sort_proxy_defs_by_specificity [demo_entry]) = Inr [rule]" using live_run by blast
  have s: "pr_source rule = ''**''" "pr_host rule = None" using demo_compiled r(3) by auto
  have f: "find_rule demo_ext (sg_opts (serving_start r)) (demo_request ''GET'' ''/x'' [(''host'', ''h'')]) = Some (0, rule)"
    using r(2) s
    by (simp add: serving_start_def live_opts_def find_rule_def proxy_request_host_def demo_request_def demo_uri_def
        hget_def demo_ext_def)
  from running_rules_have_upstreams [OF r(1) rtranclp.rtrancl_refl f] r(1) f show ?thesis by blast
qed

theorem serving_keeps_configuration_witness:
  "\<exists>r s. main demo_ext live_env start_env live_fs (\<lambda>_ _. Inr ()) live_build live_given (\<lambda>_. None) None Map.empty
      = (Ran (Serving r), Map.empty) \<and> serving_step demo_ext (serving_start r) s \<and>
    opts_counted (bl_opts (rn_built r)) (sg_opts s) \<and>
    (\<exists>k. upgrade_tunnel_semaphore (sg_opts s) = Some k \<and>
      k + length (filter if_permit (sg_running s)) + sg_held s = 2)"
proof -
  obtain rule r where r: "main demo_ext live_env start_env live_fs (\<lambda>_ _. Inr ()) live_build live_given (\<lambda>_. None) None Map.empty
    = (Ran (Serving r), Map.empty)" "bl_opts (rn_built r) = live_opts rule" using live_run by blast
  have u: "upgrade_tunnel_semaphore (bl_opts (rn_built r)) = Some 2" using r(2) by (simp add: live_opts_def)
  let ?service = "\<lparr>sv_remote_addr = None\<rparr>" and ?q = "demo_request ''GET'' ''/x'' [(''host'', ''h'')]"
  obtain s where s: "serving_step demo_ext (serving_start r) s"
    using begun [of demo_env demo_ext "serving_start r" 5 ?service ?q] by auto
  from serving_keeps_configuration [OF r_into_rtranclp [of "serving_step demo_ext", OF s]] u r(1) s show ?thesis by auto
qed

end
